theory Spec2Isabelle
  imports Main
begin

section \<open>Data model of the query builder (src/core/query.ts)\<close>

datatype segment_type = Reduce | Project | Index

datatype direction = Asc | Desc

datatype order_field = OrderName string | OrderNum int

datatype order_by = OrderBy (ob_field: order_field) (ob_dir: "direction option")

datatype filter_expression = FilterExpression (code: string) (expression: string)

datatype by_spec = ByName string | ByExpression string

datatype expression_type = Scalar | Aggregate | Analytic

datatype atomic_type = TString | TNumber | TBoolean | TDate | TTimestamp

text \<open>
  A schema field (\<open>FieldDef\<close>) is an atomic field, a nested query (turtle) or a nested
  structure. A field of a stage (\<open>QueryFieldDef\<close>) is a bare name, a refined name
  (\<open>FilteredAliasedName\<close>) or an inline definition. At run time \<open>replaceWithDefinition\<close>
  stores whatever schema definition it finds, so an inline definition is any \<open>FieldDef\<close>.
\<close>

datatype field_def =
    FieldTypeDef (ft_type: atomic_type) (ft_name: string) (ft_as: "string option")
      (ft_code: "string option") (ft_expressionType: "expression_type option")
  | TurtleDef (t_name: string) (t_as: "string option") (t_pipeline: "pipe_segment list")
  | StructField struct_def
and struct_def =
    StructDef (sd_name: string) (sd_as: "string option") (sd_fields: "field_def list")
and query_field_def =
    FieldRef string
  | FilteredAliasedName (fan_name: string) (fan_as: "string option")
      (fan_filterList: "filter_expression list option")
  | Definition field_def
and pipe_segment =
    PipeSegment (seg_type: segment_type) (fields: "query_field_def list")
      (filterList: "filter_expression list option") (limit: "int option")
      (orderBy: "order_by list option") (seg_by: "by_spec option")

text \<open>
  The exceptions of the program. \<open>SparseArray\<close> is not one of them: it marks a call that
  leaves \<open>undefined\<close> entries in an array, which the lists of the model cannot hold.
\<close>

datatype error = NotAStageError query_field_def | Error string | TypeError | RangeError
  | SparseArray

text \<open>
  Modelled from the spec: \<open>StagePath\<close>, \<open>stagePathPop\<close> and \<open>stagePathParent\<close> are imported
  from \<open>../types\<close>, which is not part of the source. The spec describes a stage path as an
  ordered sequence of (stage-index, optional field-index-into-nested-query) hops;
  \<open>stagePathPop\<close> yields the outermost hop and the remaining path, as \<open>stageAtPath\<close>
  (which starts at the root pipeline) uses it.
\<close>

datatype stage_path = Hop nat "nat option" "stage_path option"

fun stagePathPop :: "stage_path \<Rightarrow> stage_path option \<times> nat \<times> nat option" where
  "stagePathPop (Hop stageIndex fieldIndex rest) = (rest, stageIndex, fieldIndex)"

text \<open>The builder: the root schema \<open>_source\<close> and the query \<open>{pipeline, name}\<close>.\<close>

datatype query_builder =
  QueryBuilder (source: struct_def) (query_name: string) (pipeline: "pipe_segment list")

fun set_pipeline :: "pipe_segment list \<Rightarrow> query_builder \<Rightarrow> query_builder" where
  "set_pipeline p (QueryBuilder s n _) = QueryBuilder s n p"

subsection \<open>JavaScript helpers\<close>

text \<open>\<open>a || b\<close> on an optional string: \<open>undefined\<close> and the empty string are falsy.\<close>

definition orElse :: "string option \<Rightarrow> string \<Rightarrow> string" where
  "orElse a b = (case a of None \<Rightarrow> b | Some s \<Rightarrow> if s = [] then b else s)"

text \<open>\<open>xs.splice(i, 1)\<close>: removes the element at index \<open>i\<close>, nothing when out of range.\<close>

definition splice1 :: "nat \<Rightarrow> 'a list \<Rightarrow> 'a list" where
  "splice1 i xs = take i xs @ drop (Suc i) xs"

text \<open>\<open>xs.splice(i, 0, x)\<close>: inserts \<open>x\<close> before index \<open>i\<close>, at the end when out of range.\<close>

definition spliceIn :: "nat \<Rightarrow> 'a \<Rightarrow> 'a list \<Rightarrow> 'a list" where
  "spliceIn i x xs = take i xs @ x # drop i xs"

text \<open>\<open>xs.findIndex(p)\<close>, with \<open>None\<close> for \<open>-1\<close>.\<close>

fun findIndex :: "('a \<Rightarrow> bool) \<Rightarrow> 'a list \<Rightarrow> nat option" where
  "findIndex p [] = None"
| "findIndex p (x # xs) =
     (if p x then Some 0 else map_option Suc (findIndex p xs))"

text \<open>
  \<open>JSON.parse(JSON.stringify(x))\<close>: a deep copy, the same value. The values of this
  model carry no identity; \<open>jsonCopyObj\<close> below is the copy on objects with identity,
  where a copy and a second reference differ.
\<close>

definition jsonCopy :: "'a \<Rightarrow> 'a" where
  "jsonCopy x = x"

fun set_fields :: "query_field_def list \<Rightarrow> pipe_segment \<Rightarrow> pipe_segment" where
  "set_fields fs (PipeSegment t _ fl l ob b) = PipeSegment t fs fl l ob b"

fun set_filterList :: "filter_expression list option \<Rightarrow> pipe_segment \<Rightarrow> pipe_segment" where
  "set_filterList fl (PipeSegment t fs _ l ob b) = PipeSegment t fs fl l ob b"

fun set_limit :: "int option \<Rightarrow> pipe_segment \<Rightarrow> pipe_segment" where
  "set_limit l (PipeSegment t fs fl _ ob b) = PipeSegment t fs fl l ob b"

fun set_orderBy :: "order_by list option \<Rightarrow> pipe_segment \<Rightarrow> pipe_segment" where
  "set_orderBy ob (PipeSegment t fs fl l _ b) = PipeSegment t fs fl l ob b"

fun set_by :: "by_spec option \<Rightarrow> pipe_segment \<Rightarrow> pipe_segment" where
  "set_by b (PipeSegment t fs fl l ob _) = PipeSegment t fs fl l ob b"

subsection \<open>Names\<close>

fun fieldDefName :: "field_def \<Rightarrow> string" where
  "fieldDefName (FieldTypeDef _ n a _ _) = orElse a n"
| "fieldDefName (TurtleDef n a _) = orElse a n"
| "fieldDefName (StructField (StructDef n a _)) = orElse a n"

fun nameOf :: "query_field_def \<Rightarrow> string" where
  "nameOf (FieldRef s) = s"
| "nameOf (FilteredAliasedName n a _) = orElse a n"
| "nameOf (Definition d) = fieldDefName d"

subsection \<open>Addressing a stage\<close>

text \<open>
  \<open>stageAtPath\<close>. Each round of the loop pops the path; the pattern
  \<open>Hop stageIndex fieldIndex rest\<close> names the three results of \<open>stagePathPop\<close>.
  An index outside an array reads \<open>undefined\<close> in JavaScript; the next
  property access on it throws a \<open>TypeError\<close>. At the last hop the source returns
  \<open>current[stageIndex]\<close> itself, and every caller goes on to read a property of it, so
  the \<open>TypeError\<close> is raised here. (Where a caller tests or resolves something else
  first, \<open>addStage\<close> and \<open>removeStage\<close> the field index and \<open>insertField\<close> the new
  field, the source may report that failure instead; the tree is unchanged either way.)
\<close>

fun stageAtPath :: "pipe_segment list \<Rightarrow> stage_path \<Rightarrow> error + pipe_segment" where
  "stageAtPath current (Hop stageIndex None rest) =
     (if stageIndex < length current then Inr (current ! stageIndex) else Inl TypeError)"
| "stageAtPath current (Hop stageIndex (Some fieldIndex) rest) =
     (if stageIndex < length current \<and> fieldIndex < length (fields (current ! stageIndex))
      then (case fields (current ! stageIndex) ! fieldIndex of
              Definition (TurtleDef n a pl) \<Rightarrow>
                (case rest of
                   None \<Rightarrow> Inl (Error ''Invalid stage path'')
                 | Some newStagePath \<Rightarrow> stageAtPath pl newStagePath)
            | newField \<Rightarrow> Inl (NotAStageError newField))
      else Inl TypeError)"

text \<open>
  The source mutates the stage object that \<open>stageAtPath\<close> returned. Here the changed
  stage is written back at the same path.
\<close>

fun updateStageAtPath ::
  "(pipe_segment \<Rightarrow> pipe_segment) \<Rightarrow> pipe_segment list \<Rightarrow> stage_path \<Rightarrow> pipe_segment list" where
  "updateStageAtPath g current (Hop stageIndex None rest) =
     (if stageIndex < length current
      then current[stageIndex := g (current ! stageIndex)] else current)"
| "updateStageAtPath g current (Hop stageIndex (Some fieldIndex) rest) =
     (if stageIndex < length current \<and> fieldIndex < length (fields (current ! stageIndex))
      then (case fields (current ! stageIndex) ! fieldIndex of
              Definition (TurtleDef n a pl) \<Rightarrow>
                (case rest of
                   None \<Rightarrow> current
                 | Some newStagePath \<Rightarrow>
                     current[stageIndex :=
                       set_fields ((fields (current ! stageIndex))
                           [fieldIndex :=
                              Definition (TurtleDef n a (updateStageAtPath g pl newStagePath))])
                         (current ! stageIndex)])
            | _ \<Rightarrow> current)
      else current)"

subsection \<open>Schema navigation\<close>

text \<open>\<open>s.split(".")\<close>: the pieces between the dots; never an empty list.\<close>

fun split_dot :: "string \<Rightarrow> string list" where
  "split_dot [] = [[]]"
| "split_dot (c # cs) =
     (if c = CHR ''.'' then [] # split_dot cs
      else (case split_dot cs of [] \<Rightarrow> [[c]] | w # ws \<Rightarrow> (c # w) # ws))"

text \<open>
  \<open>QuerySegment.nextStructDef\<close> (the schema a stage produces) belongs to the query
  language's library; the functions that use it take it as the parameter \<open>nsd\<close>.
  \<open>modifySourceForStage(stage, source)\<close> is \<open>nsd source stage\<close>.
\<close>

type_synonym next_struct_def = "struct_def \<Rightarrow> pipe_segment \<Rightarrow> struct_def"

text \<open>
  The loop of \<open>getField\<close> over the remaining parts. A turtle in the middle of the path
  continues in the root source \<open>this.getSource()\<close> sent through the turtle's stages.
\<close>

fun getFieldParts ::
  "next_struct_def \<Rightarrow> struct_def \<Rightarrow> struct_def \<Rightarrow> string list \<Rightarrow> error + field_def" where
  "getFieldParts nsd root currentSource [] = Inl (Error ''Could not find undefined'')"
| "getFieldParts nsd root currentSource [part] =
     (case find (\<lambda>f. fieldDefName f = part) (sd_fields currentSource) of
        None \<Rightarrow> Inl (Error (''Could not find '' @ part))
      | Some found \<Rightarrow> Inr found)"
| "getFieldParts nsd root currentSource (part # parts) =
     (case find (\<lambda>f. fieldDefName f = part) (sd_fields currentSource) of
        None \<Rightarrow> Inl (Error (''Could not find (inner) '' @ part))
      | Some (StructField found) \<Rightarrow> getFieldParts nsd root found parts
      | Some (TurtleDef n a pl) \<Rightarrow> getFieldParts nsd root (foldl nsd root pl) parts
      | Some _ \<Rightarrow> Inl (Error ''Inner segment in path is not a source''))"

definition getField ::
  "next_struct_def \<Rightarrow> struct_def \<Rightarrow> struct_def \<Rightarrow> string \<Rightarrow> error + field_def" where
  "getField nsd root src fieldName = getFieldParts nsd root src (split_dot fieldName)"

fun fieldDefForQueryFieldDef ::
  "next_struct_def \<Rightarrow> struct_def \<Rightarrow> query_field_def \<Rightarrow> struct_def \<Rightarrow> error + field_def" where
  "fieldDefForQueryFieldDef nsd root (FieldRef field) src = getField nsd root src field"
| "fieldDefForQueryFieldDef nsd root (FilteredAliasedName n a fl) src = getField nsd root src n"
| "fieldDefForQueryFieldDef nsd root (Definition field) src = Inr field"

text \<open>
  \<open>sourceForStageAtPath\<close>: the schema the addressed stage reads. A stage index beyond the
  pipeline's length hands \<open>undefined\<close> to \<open>nextStructDef\<close>, which reads its fields.
\<close>

fun sourceForStageAtPath ::
  "next_struct_def \<Rightarrow> struct_def \<Rightarrow> pipe_segment list \<Rightarrow> stage_path \<Rightarrow> error + struct_def" where
  "sourceForStageAtPath nsd currentSource currentPipeline (Hop stageIndex None rest) =
     (if length currentPipeline < stageIndex then Inl TypeError
      else Inr (foldl nsd currentSource (take stageIndex currentPipeline)))"
| "sourceForStageAtPath nsd currentSource currentPipeline (Hop stageIndex (Some fieldIndex) rest) =
     (if stageIndex < length currentPipeline
         \<and> fieldIndex < length (fields (currentPipeline ! stageIndex))
      then (case fields (currentPipeline ! stageIndex) ! fieldIndex of
              Definition (TurtleDef n a pl) \<Rightarrow>
                (case rest of
                   None \<Rightarrow> Inl (Error ''Invalid stage path'')
                 | Some newStagePath \<Rightarrow>
                     sourceForStageAtPath nsd
                       (foldl nsd currentSource (take stageIndex currentPipeline)) pl newStagePath)
            | _ \<Rightarrow> Inl (Error ''Path does not refer to a stage correctly''))
      else Inl TypeError)"

subsection \<open>Promotion of a bare reference\<close>

text \<open>An operation on the stage at a path: read the stage, change it, write it back.\<close>

definition onStage ::
  "(pipe_segment \<Rightarrow> error + pipe_segment) \<Rightarrow> query_builder \<Rightarrow> stage_path
     \<Rightarrow> error + query_builder" where
  "onStage f b stagePath =
     (case stageAtPath (pipeline b) stagePath of
        Inl e \<Rightarrow> Inl e
      | Inr stage \<Rightarrow>
          (case f stage of
             Inl e \<Rightarrow> Inl e
           | Inr stage' \<Rightarrow>
               Inr (set_pipeline (updateStageAtPath (\<lambda>_. stage') (pipeline b) stagePath) b)))"

text \<open>
  \<open>replaceWithDefinition\<close> on the addressed stage, for the schema \<open>structDef\<close> in which
  the name is looked up; \<open>replaceWithDefinition\<close> below is the call without that argument,
  which takes the root source.
\<close>

definition replaceWithDefinitionStage ::
  "struct_def \<Rightarrow> nat \<Rightarrow> pipe_segment \<Rightarrow> error + pipe_segment" where
  "replaceWithDefinitionStage structDef fieldIndex stage =
     (if fieldIndex < length (fields stage)
      then (case fields stage ! fieldIndex of
              FieldRef field \<Rightarrow>
                (case find (\<lambda>d. fieldDefName d = field) (sd_fields structDef) of
                   None \<Rightarrow> Inl (Error ''Field is not defined..'')
                 | Some definition \<Rightarrow>
                     Inr (set_fields ((fields stage)[fieldIndex := Definition (jsonCopy definition)])
                            stage))
            | _ \<Rightarrow> Inl (Error ''Don't deal with this yet''))
      else Inl (Error ''Don't deal with this yet''))"

definition replaceWithDefinition ::
  "query_builder \<Rightarrow> stage_path \<Rightarrow> nat \<Rightarrow> error + query_builder" where
  "replaceWithDefinition b stagePath fieldIndex =
     onStage (replaceWithDefinitionStage (source b) fieldIndex) b stagePath"

text \<open>
  \<open>autoExpandStageAtPath\<close>: the builder after a possible promotion, and the stage.
  A \<open>NotAStageError\<close> comes from a hop with a field index, so \<open>fieldIndex\<close> is defined
  in the handler; a missing remaining path makes \<open>stagePathPop\<close> read \<open>undefined\<close>.
\<close>

definition autoExpandStageAtPath ::
  "next_struct_def \<Rightarrow> query_builder \<Rightarrow> stage_path \<Rightarrow> error + (query_builder \<times> pipe_segment)" where
  "autoExpandStageAtPath nsd b stagePath =
     (case stageAtPath (pipeline b) stagePath of
        Inr stage \<Rightarrow> Inr (b, stage)
      | Inl (NotAStageError field) \<Rightarrow>
          (case stagePathPop stagePath of
             (Some newStagePath, _, Some fieldIndex) \<Rightarrow>
               (case sourceForStageAtPath nsd (source b) (pipeline b) newStagePath of
                  Inl e \<Rightarrow> Inl e
                | Inr src \<Rightarrow>
                    (case fieldDefForQueryFieldDef nsd (source b) field src of
                       Inl e \<Rightarrow> Inl e
                     | Inr (TurtleDef n a pl) \<Rightarrow>
                         (case replaceWithDefinition b newStagePath fieldIndex of
                            Inl e \<Rightarrow> Inl e
                          | Inr b' \<Rightarrow>
                              (case stageAtPath (pipeline b') stagePath of
                                 Inl e \<Rightarrow> Inl e
                               | Inr stage \<Rightarrow> Inr (b', stage)))
                     | Inr _ \<Rightarrow> Inl (NotAStageError field)))
           | _ \<Rightarrow> Inl TypeError)
      | Inl e \<Rightarrow> Inl e)"

text \<open>An operation that auto-expands the stage first and then changes it.\<close>

definition onExpandedStage ::
  "next_struct_def \<Rightarrow> (pipe_segment \<Rightarrow> error + pipe_segment) \<Rightarrow> query_builder \<Rightarrow> stage_path
     \<Rightarrow> error + query_builder" where
  "onExpandedStage nsd f b stagePath =
     (case autoExpandStageAtPath nsd b stagePath of
        Inl e \<Rightarrow> Inl e
      | Inr (b', stage) \<Rightarrow>
          (case f stage of
             Inl e \<Rightarrow> Inl e
           | Inr stage' \<Rightarrow>
               Inr (set_pipeline (updateStageAtPath (\<lambda>_. stage') (pipeline b') stagePath) b')))"

subsection \<open>Fields, filters and limits\<close>

text \<open>
  \<open>removeField\<close> on the addressed stage. The callback of \<open>findIndex\<close> runs once per
  order-by entry and reads the name of \<open>stage.fields[fieldIndex]\<close>, which throws when
  that field is \<open>undefined\<close>.
\<close>

definition removeFieldStage :: "nat \<Rightarrow> pipe_segment \<Rightarrow> error + pipe_segment" where
  "removeFieldStage fieldIndex stage =
     (case (if seg_type stage = Reduce then orderBy stage else None) of
        None \<Rightarrow> Inr (set_fields (splice1 fieldIndex (fields stage)) stage)
      | Some obs \<Rightarrow>
          (if obs \<noteq> [] \<and> length (fields stage) \<le> fieldIndex then Inl TypeError
           else
             (let stage1 =
                (case findIndex (\<lambda>order. ob_field order
                                    = OrderName (nameOf (fields stage ! fieldIndex))) obs of
                   None \<Rightarrow> stage
                 | Some orderIndex \<Rightarrow> set_orderBy (Some (splice1 orderIndex obs)) stage)
              in Inr (set_fields (splice1 fieldIndex (fields stage1)) stage1))))"

definition removeField :: "query_builder \<Rightarrow> stage_path \<Rightarrow> nat \<Rightarrow> error + query_builder" where
  "removeField b stagePath fieldIndex = onStage (removeFieldStage fieldIndex) b stagePath"

text \<open>\<open>removeFilter\<close>; the field-level branch splices at \<open>fieldIndex\<close>.\<close>

definition removeFilterStage :: "nat \<Rightarrow> nat option \<Rightarrow> pipe_segment \<Rightarrow> error + pipe_segment" where
  "removeFilterStage filterIndex fieldIndexOpt stage =
     (case fieldIndexOpt of
        None \<Rightarrow>
          (case filterList stage of
             None \<Rightarrow> Inr stage
           | Some fl \<Rightarrow> Inr (set_filterList (Some (splice1 filterIndex fl)) stage))
      | Some fieldIndex \<Rightarrow>
          (if fieldIndex < length (fields stage)
           then (case fields stage ! fieldIndex of
                   FilteredAliasedName n a fl \<Rightarrow>
                     Inr (set_fields ((fields stage)
                            [fieldIndex :=
                               FilteredAliasedName n a (map_option (splice1 fieldIndex) fl)])
                          stage)
                 | _ \<Rightarrow> Inr stage)
           else Inl TypeError))"

definition removeFilter ::
  "query_builder \<Rightarrow> stage_path \<Rightarrow> nat \<Rightarrow> nat option \<Rightarrow> error + query_builder" where
  "removeFilter b stagePath filterIndex fieldIndex =
     onStage (removeFilterStage filterIndex fieldIndex) b stagePath"

text \<open>
  Modelled from the spec: \<open>SchemaField\<close> is declared in \<open>../types\<close>, which is not part
  of the source; \<open>addLimit\<close> reads only its \<open>path\<close>.
\<close>

datatype schema_field = SchemaField (sf_name: string) (sf_path: string)

definition addLimitStage ::
  "int \<Rightarrow> schema_field option \<Rightarrow> direction option \<Rightarrow> pipe_segment \<Rightarrow> error + pipe_segment" where
  "addLimitStage lim byField dir stage =
     (if seg_type stage \<noteq> Reduce then Inl (Error ''Don't know how to handle this yet'')
      else
        (let stage1 = set_limit (Some lim) stage
         in (case byField of
               None \<Rightarrow> Inr stage1
             | Some f \<Rightarrow> Inr (set_orderBy (Some [OrderBy (OrderName (sf_path f)) dir]) stage1))))"

definition addLimit ::
  "next_struct_def \<Rightarrow> query_builder \<Rightarrow> stage_path \<Rightarrow> int \<Rightarrow> schema_field option
     \<Rightarrow> direction option \<Rightarrow> error + query_builder" where
  "addLimit nsd b stagePath lim byField dir =
     onExpandedStage nsd (addLimitStage lim byField dir) b stagePath"


subsection \<open>Example values\<close>

definition f0 :: filter_expression where "f0 = FilterExpression ''x > 0'' ''e0''"
definition f1 :: filter_expression where "f1 = FilterExpression ''y > 1'' ''e1''"
definition f2 :: filter_expression where "f2 = FilterExpression ''z > 2'' ''e2''"

definition emptyStage :: pipe_segment where
  "emptyStage = PipeSegment Reduce [] None None None None"

definition rootPath :: stage_path where
  "rootPath = Hop 0 None None"

definition exSource :: struct_def where
  "exSource = StructDef ''flights'' None
     [FieldTypeDef TString ''a'' None None None,
      FieldTypeDef TString ''b'' None None None,
      FieldTypeDef TNumber ''total'' None None (Some Aggregate),
      TurtleDef ''q'' None [PipeSegment Reduce [FieldRef ''a''] None (Some 10) None None]]"

definition exNsd :: next_struct_def where
  "exNsd src stage = src"

definition fanStage :: pipe_segment where
  "fanStage = PipeSegment Reduce
     [FieldRef ''a'', FilteredAliasedName ''b'' None (Some [f0, f1, f2])]
     (Some [f0, f1]) None None None"

definition dupOrderStage :: pipe_segment where
  "dupOrderStage = PipeSegment Reduce [FieldRef ''a'']
     None None (Some [OrderBy (OrderName ''a'') (Some Asc), OrderBy (OrderName ''a'') (Some Desc)]) None"


subsection \<open>Rendering: fragments and layout\<close>

datatype fragment = Str string | INDENT | NEWLINE | OUTDENT

definition TAB_WIDTH :: int where
  "TAB_WIDTH = 2"

definition newline :: string where
  "newline = [CHR 0x0A]"

text \<open>The body of the loop of \<open>getFiltersString\<close>, from \<open>index\<close> on; \<open>n\<close> is \<open>filterList.length\<close>.\<close>

fun filterFragments :: "nat \<Rightarrow> nat \<Rightarrow> filter_expression list \<Rightarrow> fragment list" where
  "filterFragments index n [] = []"
| "filterFragments index n (f # rest) =
     Str (code f) # (if index \<noteq> n - 1 then [Str '',''] else [])
       @ NEWLINE # filterFragments (Suc index) n rest"

definition getFiltersString :: "filter_expression list \<Rightarrow> fragment list" where
  "getFiltersString fl =
     (if length fl = 1 then [Str '' ''] else [NEWLINE, INDENT])
     @ filterFragments 0 (length fl) fl
     @ (if 1 < length fl then [OUTDENT] else [])"

text \<open>
  The part of \<open>getMalloyStringForStage\<close> that writes the stage's filters: nothing for a
  missing or empty list.
\<close>

definition stageWhereFragments :: "pipe_segment \<Rightarrow> fragment list" where
  "stageWhereFragments stage =
     (case filterList stage of
        None \<Rightarrow> []
      | Some fl \<Rightarrow> if 0 < length fl then Str ''where:'' # getFiltersString fl else [])"

text \<open>
  The loop of \<open>codeFromFragments\<close> from a state \<open>(code, indent, isStartOfLine)\<close>.
  \<open>" ".repeat(k)\<close> throws a \<open>RangeError\<close> for a negative \<open>k\<close>.
\<close>

fun codeFromFragmentsLoop :: "string \<Rightarrow> int \<Rightarrow> bool \<Rightarrow> fragment list \<Rightarrow> error + string" where
  "codeFromFragmentsLoop out indent isStartOfLine [] = Inr out"
| "codeFromFragmentsLoop out indent isStartOfLine (NEWLINE # fs) =
     codeFromFragmentsLoop (out @ newline) indent True fs"
| "codeFromFragmentsLoop out indent isStartOfLine (OUTDENT # fs) =
     codeFromFragmentsLoop out (indent - 1) isStartOfLine fs"
| "codeFromFragmentsLoop out indent isStartOfLine (INDENT # fs) =
     codeFromFragmentsLoop out (indent + 1) isStartOfLine fs"
| "codeFromFragmentsLoop out indent isStartOfLine (Str s # fs) =
     (if isStartOfLine
      then (if indent * TAB_WIDTH < 0 then Inl RangeError
            else codeFromFragmentsLoop
                   (out @ replicate (nat (indent * TAB_WIDTH)) CHR '' '' @ s) indent False fs)
      else codeFromFragmentsLoop (out @ s) indent isStartOfLine fs)"

definition codeFromFragments :: "fragment list \<Rightarrow> error + string" where
  "codeFromFragments fragments = codeFromFragmentsLoop [] 0 True fragments"

text \<open>
  The layout the spec describes for two or more predicates: one predicate per line at
  the given depth, a comma after each but the last.
\<close>

definition indentedLine :: "int \<Rightarrow> string \<Rightarrow> string" where
  "indentedLine depth s = replicate (nat (depth * TAB_WIDTH)) CHR '' '' @ s @ newline"

fun predicateLines :: "int \<Rightarrow> filter_expression list \<Rightarrow> string" where
  "predicateLines depth [] = []"
| "predicateLines depth [f] = indentedLine depth (code f)"
| "predicateLines depth (f # fs) = indentedLine depth (code f @ '','') @ predicateLines depth fs"


definition oneFilterStage :: pipe_segment where
  "oneFilterStage = PipeSegment Reduce [FieldRef ''a''] (Some [f0]) None None None"


subsection \<open>Inserting a field\<close>

text \<open>
  Modelled from the spec: \<open>expressionIsCalculation\<close> belongs to the query language's
  library and is not part of the source. The spec's rank 1 is a calculation, which a field
  is when its expression type is aggregate or analytic.
\<close>

definition expressionIsCalculation :: "expression_type option \<Rightarrow> bool" where
  "expressionIsCalculation e = (e = Some Aggregate \<or> e = Some Analytic)"

fun sortOrder :: "field_def \<Rightarrow> nat" where
  "sortOrder (StructField s) = 3"
| "sortOrder (TurtleDef n a pl) = 2"
| "sortOrder (FieldTypeDef t n a c e) = (if expressionIsCalculation e then 1 else 0)"

text \<open>
  The scan of \<open>getIndexToInsertNewField\<close> from \<open>fieldIndex\<close> over the remaining fields.
  A field that does not resolve is caught, logged and passed over.
\<close>

fun indexToInsertLoop ::
  "next_struct_def \<Rightarrow> struct_def \<Rightarrow> struct_def \<Rightarrow> nat \<Rightarrow> nat \<Rightarrow> query_field_def list \<Rightarrow> nat" where
  "indexToInsertLoop nsd root stageSource so fieldIndex [] = fieldIndex"
| "indexToInsertLoop nsd root stageSource so fieldIndex (existingField # rest) =
     (case fieldDefForQueryFieldDef nsd root existingField stageSource of
        Inr existingFieldDef \<Rightarrow>
          (if so < sortOrder existingFieldDef then fieldIndex
           else indexToInsertLoop nsd root stageSource so (Suc fieldIndex) rest)
      | Inl e \<Rightarrow> indexToInsertLoop nsd root stageSource so (Suc fieldIndex) rest)"

definition getIndexToInsertNewField ::
  "next_struct_def \<Rightarrow> query_builder \<Rightarrow> stage_path \<Rightarrow> query_field_def \<Rightarrow> error + nat" where
  "getIndexToInsertNewField nsd b stagePath queryFieldDef =
     (case stageAtPath (pipeline b) stagePath of
        Inl e \<Rightarrow> Inl e
      | Inr stage \<Rightarrow>
          (case sourceForStageAtPath nsd (source b) (pipeline b) stagePath of
             Inl e \<Rightarrow> Inl e
           | Inr stageSource \<Rightarrow>
               (case fieldDefForQueryFieldDef nsd (source b) queryFieldDef stageSource of
                  Inl e \<Rightarrow> Inl e
                | Inr fieldDef \<Rightarrow>
                    Inr (indexToInsertLoop nsd (source b) stageSource (sortOrder fieldDef) 0
                           (fields stage)))))"

definition insertField ::
  "next_struct_def \<Rightarrow> query_builder \<Rightarrow> stage_path \<Rightarrow> query_field_def \<Rightarrow> error + query_builder" where
  "insertField nsd b stagePath field =
     (case autoExpandStageAtPath nsd b stagePath of
        Inl e \<Rightarrow> Inl e
      | Inr (b', stage) \<Rightarrow>
          (case getIndexToInsertNewField nsd b' stagePath field of
             Inl e \<Rightarrow> Inl e
           | Inr insertIndex \<Rightarrow>
               Inr (set_pipeline
                     (updateStageAtPath
                        (\<lambda>_. set_fields (spliceIn insertIndex field (fields stage)) stage)
                        (pipeline b') stagePath) b')))"

definition addField ::
  "next_struct_def \<Rightarrow> query_builder \<Rightarrow> stage_path \<Rightarrow> string \<Rightarrow> error + query_builder" where
  "addField nsd b stagePath fieldPath = insertField nsd b stagePath (FieldRef fieldPath)"

text \<open>The rank of an existing field in the scan, when the field resolves.\<close>

definition rankOf ::
  "next_struct_def \<Rightarrow> struct_def \<Rightarrow> struct_def \<Rightarrow> query_field_def \<Rightarrow> nat option" where
  "rankOf nsd root stageSource f =
     (case fieldDefForQueryFieldDef nsd root f stageSource of
        Inl e \<Rightarrow> None
      | Inr d \<Rightarrow> Some (sortOrder d))"

definition mixedStage :: pipe_segment where
  "mixedStage = PipeSegment Reduce [FieldRef ''missing'', FieldRef ''total''] None None None None"


subsection \<open>Toggling a field\<close>

definition getFieldIndex :: "query_builder \<Rightarrow> stage_path \<Rightarrow> string \<Rightarrow> error + nat option" where
  "getFieldIndex b stagePath fieldPath =
     (case stageAtPath (pipeline b) stagePath of
        Inl e \<Rightarrow> Inl e
      | Inr stage \<Rightarrow> Inr (findIndex (\<lambda>f. f = FieldRef fieldPath) (fields stage)))"

definition hasField :: "query_builder \<Rightarrow> stage_path \<Rightarrow> string \<Rightarrow> error + bool" where
  "hasField b stagePath fieldPath =
     (case getFieldIndex b stagePath fieldPath of
        Inl e \<Rightarrow> Inl e
      | Inr i \<Rightarrow> Inr (i \<noteq> None))"

definition toggleField ::
  "next_struct_def \<Rightarrow> query_builder \<Rightarrow> stage_path \<Rightarrow> string \<Rightarrow> error + query_builder" where
  "toggleField nsd b stagePath fieldPath =
     (case autoExpandStageAtPath nsd b stagePath of
        Inl e \<Rightarrow> Inl e
      | Inr (b', stage) \<Rightarrow>
          (case getFieldIndex b' stagePath fieldPath of
             Inl e \<Rightarrow> Inl e
           | Inr (Some fieldIndex) \<Rightarrow> removeField b' stagePath fieldIndex
           | Inr None \<Rightarrow> addField nsd b' stagePath fieldPath))"





subsection \<open>Loading a named query\<close>

text \<open>A bare name is a JavaScript string, and the empty string is falsy; objects are truthy.\<close>

fun truthyField :: "query_field_def \<Rightarrow> bool" where
  "truthyField (FieldRef s) = (s \<noteq> [])"
| "truthyField _ = True"

text \<open>
  The callback \<open>(field) => !stage.fields.find((otherField) => nameOf(otherField) === nameOf(field))\<close>:
  an existing field stays when \<open>find\<close> returns \<open>undefined\<close> or a falsy element.
\<close>

definition keepsExistingField :: "query_field_def list \<Rightarrow> query_field_def \<Rightarrow> bool" where
  "keepsExistingField loadedFields field =
     (case find (\<lambda>otherField. nameOf otherField = nameOf field) loadedFields of
        None \<Rightarrow> True
      | Some otherField \<Rightarrow> \<not> truthyField otherField)"

text \<open>
  The callback \<open>(filter) => !existingStage.filterList?.find((f) => f.code === filter.code)\<close>.
\<close>

definition keepsLoadedFilter :: "filter_expression list option \<Rightarrow> filter_expression \<Rightarrow> bool" where
  "keepsLoadedFilter existingFilters f =
     (case existingFilters of
        None \<Rightarrow> True
      | Some efs \<Rightarrow> find (\<lambda>existingFilter. code existingFilter = code f) efs = None)"

text \<open>
  The \<open>else\<close> branch of the loop body of \<open>loadQuery\<close> after its guard, statement by
  statement. \<open>if (stage.limit)\<close> is false for a missing limit and for the limit 0.
  The values are the source's. The source stores the loaded stage's own \<open>orderBy\<close> array
  (no copy), so that array is shared with the schema afterwards; the lists of this model
  are values and do not record that sharing.
\<close>

definition mergeReduce :: "pipe_segment \<Rightarrow> pipe_segment \<Rightarrow> pipe_segment" where
  "mergeReduce existingStage stage =
     (let e1 = (case seg_by stage of
                  None \<Rightarrow> existingStage
                | Some b \<Rightarrow> set_orderBy None (set_by (Some b) existingStage));
          e2 = (case filterList stage of
                  None \<Rightarrow> e1
                | Some lf \<Rightarrow>
                    set_filterList
                      (Some ((case filterList e1 of None \<Rightarrow> [] | Some efs \<Rightarrow> efs)
                             @ filter (keepsLoadedFilter (filterList e1)) lf)) e1);
          e3 = (case limit stage of
                  None \<Rightarrow> e2
                | Some n \<Rightarrow> if n \<noteq> 0 then set_limit (Some n) e2 else e2);
          e4 = (case orderBy stage of
                  None \<Rightarrow> e3
                | Some ob \<Rightarrow> set_by None (set_orderBy (Some ob) e3))
      in set_fields (map jsonCopy (fields stage)
                       @ filter (keepsExistingField (fields stage)) (fields e4)) e4)"

definition mergeStage :: "pipe_segment \<Rightarrow> pipe_segment \<Rightarrow> error + pipe_segment" where
  "mergeStage existingStage stage =
     (if seg_type existingStage \<noteq> Reduce \<or> seg_type stage \<noteq> Reduce
      then Inl (Error ''Cannot load query with non-reduce stages'')
      else Inr (mergeReduce existingStage stage))"

text \<open>
  The \<open>forEach\<close> of \<open>loadQuery\<close> from \<open>stageIndex\<close> on. The loop starts at index 0 and
  fills the pipeline as it goes, so a missing stage is always the next one.
\<close>

fun loadStages :: "pipe_segment list \<Rightarrow> nat \<Rightarrow> pipe_segment list \<Rightarrow> error + pipe_segment list" where
  "loadStages current stageIndex [] = Inr current"
| "loadStages current stageIndex (stage # rest) =
     (if stageIndex < length current
      then (case mergeStage (current ! stageIndex) stage of
              Inl e \<Rightarrow> Inl e
            | Inr merged \<Rightarrow> loadStages (current[stageIndex := merged]) (Suc stageIndex) rest)
      else loadStages (current @ [jsonCopy stage]) (Suc stageIndex) rest)"

definition loadQuery :: "next_struct_def \<Rightarrow> query_builder \<Rightarrow> string \<Rightarrow> error + query_builder" where
  "loadQuery nsd b queryPath =
     (case getField nsd (source b) (source b) queryPath of
        Inl e \<Rightarrow> Inl e
      | Inr (TurtleDef n a defPipeline) \<Rightarrow>
          (case loadStages (pipeline b) 0 defPipeline of
             Inl e \<Rightarrow> Inl e
           | Inr p \<Rightarrow> Inr (QueryBuilder (source b) (orElse a n) p))
      | Inr _ \<Rightarrow> Inl (Error ''Path does not refer to query.''))"

text \<open>
  The merge of two pipelines stage by stage, as the spec puts it for the first stage:
  common positions are merged, the longer pipeline's remaining stages are kept.
\<close>

fun mergePipelines :: "pipe_segment list \<Rightarrow> pipe_segment list \<Rightarrow> pipe_segment list" where
  "mergePipelines [] ys = ys"
| "mergePipelines xs [] = xs"
| "mergePipelines (x # xs) (y # ys) = mergeReduce x y # mergePipelines xs ys"


definition byRegion0 :: pipe_segment where
  "byRegion0 = PipeSegment Reduce [FieldRef ''a''] (Some [f0, f2]) (Some 10) None None"

definition byRegion1 :: pipe_segment where
  "byRegion1 = PipeSegment Reduce [FieldRef ''b''] None None None None"

definition projStage :: pipe_segment where
  "projStage = PipeSegment Project [FieldRef ''a''] None (Some 10) None None"

definition loadSource :: struct_def where
  "loadSource = StructDef ''sales'' None
     [FieldTypeDef TString ''a'' None None None,
      FieldTypeDef TString ''b'' None None None,
      FieldTypeDef TNumber ''total'' None None (Some Aggregate),
      TurtleDef ''by_region'' None [byRegion0, byRegion1],
      TurtleDef ''projected'' None [projStage]]"

definition current0 :: pipe_segment where
  "current0 = PipeSegment Reduce [FieldRef ''b'', FieldRef ''a'', FieldRef ''total'']
     (Some [f0, f1]) None None None"

definition current1 :: pipe_segment where
  "current1 = PipeSegment Reduce [FieldRef ''total''] None None None None"

definition merged0 :: pipe_segment where
  "merged0 = PipeSegment Reduce [FieldRef ''a'', FieldRef ''b'', FieldRef ''total'']
     (Some [f0, f1, f2]) (Some 10) None None"

definition merged1 :: pipe_segment where
  "merged1 = PipeSegment Reduce [FieldRef ''b'', FieldRef ''total''] None None None None"


subsection \<open>Adding a filter\<close>

definition addFilterStage :: "filter_expression \<Rightarrow> pipe_segment \<Rightarrow> error + pipe_segment" where
  "addFilterStage f stage =
     Inr (set_filterList
            (Some ((case filterList stage of None \<Rightarrow> [] | Some fl \<Rightarrow> fl) @ [f])) stage)"

definition addFilter ::
  "next_struct_def \<Rightarrow> query_builder \<Rightarrow> stage_path \<Rightarrow> filter_expression \<Rightarrow> error + query_builder" where
  "addFilter nsd b stagePath f = onExpandedStage nsd (addFilterStage f) b stagePath"

text \<open>The path to stage 0 of the nested query at field \<open>fieldIndex\<close> of the root's stage 0.\<close>

definition nestedPath :: "nat \<Rightarrow> stage_path" where
  "nestedPath fieldIndex = Hop 0 (Some fieldIndex) (Some (Hop 0 None None))"

definition qStage :: pipe_segment where
  "qStage = PipeSegment Reduce [FieldRef ''a''] None (Some 10) None None"

definition nestSource :: struct_def where
  "nestSource = StructDef ''flights'' None
     [FieldTypeDef TString ''a'' None None None,
      TurtleDef ''q'' None [qStage],
      StructField (StructDef ''s'' None [TurtleDef ''q'' None [qStage]])]"

definition refStage :: pipe_segment where
  "refStage = PipeSegment Reduce [FieldRef ''a'', FieldRef ''q''] None None None None"

definition dottedRefStage :: pipe_segment where
  "dottedRefStage = PipeSegment Reduce [FieldRef ''a'', FieldRef ''s.q''] None None None None"

definition innerRefStage :: pipe_segment where
  "innerRefStage = PipeSegment Reduce
     [FieldRef ''a'', Definition (TurtleDef ''mine'' None
        [PipeSegment Reduce [FieldRef ''q''] None None None None])] None None None None"


subsection \<open>The remaining editor operations\<close>

definition BLANK_QUERY_pipeline :: "pipe_segment list" where
  "BLANK_QUERY_pipeline = [PipeSegment Reduce [] None None None None]"

definition clearQuery :: "query_builder \<Rightarrow> query_builder" where
  "clearQuery b = QueryBuilder (source b) ''new_query'' (jsonCopy BLANK_QUERY_pipeline)"

text \<open>\<open>setQuery(query)\<close> with \<open>query = {pipeline, name, as}\<close>; the pipeline is taken as it is.\<close>

definition setQuery :: "query_builder \<Rightarrow> string \<Rightarrow> string option \<Rightarrow> pipe_segment list \<Rightarrow> query_builder" where
  "setQuery b n a p = QueryBuilder (source b) (orElse a n) p"

definition setName :: "query_builder \<Rightarrow> string \<Rightarrow> query_builder" where
  "setName b n = QueryBuilder (source b) n (pipeline b)"

definition updateSource :: "query_builder \<Rightarrow> struct_def \<Rightarrow> query_builder" where
  "updateSource b s = QueryBuilder s (query_name b) (pipeline b)"

text \<open>
  \<open>replaceQuery(field)\<close> with \<open>field = {name, as, pipeline}\<close>. Writing
  \<open>pipeline[0].filterList\<close> throws when the new pipeline is empty, before \<open>this.query\<close>
  is assigned.
\<close>

definition replaceQuery ::
  "query_builder \<Rightarrow> string \<Rightarrow> string option \<Rightarrow> pipe_segment list \<Rightarrow> error + query_builder" where
  "replaceQuery b n a fieldPipeline =
     (let filters =
        (case pipeline b of
           [stage] \<Rightarrow> if fields stage = []
                       then (case filterList stage of None \<Rightarrow> [] | Some fl \<Rightarrow> fl) else []
         | _ \<Rightarrow> [])
      in (case jsonCopy fieldPipeline of
            [] \<Rightarrow> Inl TypeError
          | first # rest \<Rightarrow>
              Inr (QueryBuilder (source b) (orElse a n)
                     (set_filterList
                        (Some (filters @ (case filterList first of None \<Rightarrow> [] | Some fl \<Rightarrow> fl)))
                        first # rest))))"

text \<open>\<open>stage.fields.splice(fieldIndex, 1, name)\<close>: past the end the name is appended.\<close>

definition replaceSavedFieldStage :: "nat \<Rightarrow> string \<Rightarrow> pipe_segment \<Rightarrow> error + pipe_segment" where
  "replaceSavedFieldStage fieldIndex n stage =
     Inr (set_fields (take fieldIndex (fields stage) @ FieldRef n # drop (Suc fieldIndex) (fields stage))
            stage)"

definition replaceSavedField ::
  "query_builder \<Rightarrow> stage_path \<Rightarrow> nat \<Rightarrow> string \<Rightarrow> error + query_builder" where
  "replaceSavedField b stagePath fieldIndex n =
     onStage (replaceSavedFieldStage fieldIndex n) b stagePath"

text \<open>
  \<open>reorderFields\<close>: an index outside the field list reads \<open>undefined\<close> into the new
  list, which the model reports as \<open>SparseArray\<close>.
\<close>

definition reorderFieldsStage :: "nat list \<Rightarrow> pipe_segment \<Rightarrow> error + pipe_segment" where
  "reorderFieldsStage order stage =
     (if \<forall>i\<in>set order. i < length (fields stage)
      then Inr (set_fields (map (\<lambda>index. fields stage ! index) order) stage)
      else Inl SparseArray)"

definition reorderFields :: "query_builder \<Rightarrow> stage_path \<Rightarrow> nat list \<Rightarrow> error + query_builder" where
  "reorderFields b stagePath order = onStage (reorderFieldsStage order) b stagePath"

text \<open>
  \<open>xs[i] = v\<close>: an update, an append when \<open>i\<close> is the length of \<open>xs\<close>, and beyond
  that an array with holes.
\<close>

definition assignAt :: "nat \<Rightarrow> 'a \<Rightarrow> 'a list \<Rightarrow> error + 'a list" where
  "assignAt i v xs =
     (if i < length xs then Inr (xs[i := v])
      else if i = length xs then Inr (xs @ [v])
      else Inl SparseArray)"

text \<open>
  \<open>editFilter\<close> tests the field with the library's \<open>isFilteredAliasedName\<close> alone, which
  accepts every value whose own keys are among \<open>name\<close>, \<open>as\<close> and \<open>filterList\<close>. The
  empty bare name has no keys and passes; it has no \<open>filterList\<close>.
\<close>

definition editFilterStage ::
  "nat option \<Rightarrow> nat \<Rightarrow> filter_expression \<Rightarrow> pipe_segment \<Rightarrow> error + pipe_segment" where
  "editFilterStage fieldIndexOpt filterIndex f stage =
     (case fieldIndexOpt of
        None \<Rightarrow>
          (case filterList stage of
             None \<Rightarrow> Inl (Error ''Stage has no filters.'')
           | Some fl \<Rightarrow>
               (case assignAt filterIndex f fl of
                  Inl e \<Rightarrow> Inl e
                | Inr fl' \<Rightarrow> Inr (set_filterList (Some fl') stage)))
      | Some fieldIndex \<Rightarrow>
          (if fieldIndex < length (fields stage)
           then (case fields stage ! fieldIndex of
                   FilteredAliasedName n a None \<Rightarrow> Inl (Error ''Field has no filters'')
                 | FieldRef [] \<Rightarrow> Inl (Error ''Field has no filters'')
                 | FilteredAliasedName n a (Some fl) \<Rightarrow>
                     (case assignAt filterIndex f fl of
                        Inl e \<Rightarrow> Inl e
                      | Inr fl' \<Rightarrow>
                          Inr (set_fields ((fields stage)
                                 [fieldIndex := FilteredAliasedName n a (Some fl')]) stage))
                 | _ \<Rightarrow> Inl (Error ''Cannot edit filter on non FAN.''))
           else Inl TypeError))"

definition editFilter ::
  "query_builder \<Rightarrow> stage_path \<Rightarrow> nat option \<Rightarrow> nat \<Rightarrow> filter_expression
     \<Rightarrow> error + query_builder" where
  "editFilter b stagePath fieldIndex filterIndex f =
     onStage (editFilterStage fieldIndex filterIndex f) b stagePath"

definition removeLimit :: "query_builder \<Rightarrow> stage_path \<Rightarrow> error + query_builder" where
  "removeLimit b stagePath = onStage (\<lambda>stage. Inr (set_limit None stage)) b stagePath"

definition removeOrderByStage :: "nat \<Rightarrow> pipe_segment \<Rightarrow> error + pipe_segment" where
  "removeOrderByStage orderingIndex stage =
     (if seg_type stage \<noteq> Reduce then Inl (Error ''Don't know how to handle this yet'')
      else (case orderBy stage of
              None \<Rightarrow> Inr stage
            | Some obs \<Rightarrow> Inr (set_orderBy (Some (splice1 orderingIndex obs)) stage)))"

definition removeOrderBy :: "query_builder \<Rightarrow> stage_path \<Rightarrow> nat \<Rightarrow> error + query_builder" where
  "removeOrderBy b stagePath orderingIndex = onStage (removeOrderByStage orderingIndex) b stagePath"

definition editFieldDefinitionStage :: "nat \<Rightarrow> query_field_def \<Rightarrow> pipe_segment \<Rightarrow> error + pipe_segment" where
  "editFieldDefinitionStage fieldIndex definition stage =
     (case assignAt fieldIndex definition (fields stage) of
        Inl e \<Rightarrow> Inl e
      | Inr fs \<Rightarrow> Inr (set_fields fs stage))"

definition editFieldDefinition ::
  "query_builder \<Rightarrow> stage_path \<Rightarrow> nat \<Rightarrow> query_field_def \<Rightarrow> error + query_builder" where
  "editFieldDefinition b stagePath fieldIndex definition =
     onStage (editFieldDefinitionStage fieldIndex definition) b stagePath"

definition addNewNestedQuery ::
  "next_struct_def \<Rightarrow> query_builder \<Rightarrow> stage_path \<Rightarrow> string \<Rightarrow> error + query_builder" where
  "addNewNestedQuery nsd b stagePath n =
     insertField nsd b stagePath
       (Definition (TurtleDef n None [PipeSegment Reduce [] None None None None]))"

definition addNewField ::
  "next_struct_def \<Rightarrow> query_builder \<Rightarrow> stage_path \<Rightarrow> query_field_def \<Rightarrow> error + query_builder" where
  "addNewField nsd b stagePath definition = insertField nsd b stagePath definition"


subsection \<open>Renaming, ordering, stages\<close>

fun set_as :: "string \<Rightarrow> field_def \<Rightarrow> field_def" where
  "set_as as (FieldTypeDef t n a c e) = FieldTypeDef t n (Some as) c e"
| "set_as as (TurtleDef n a pl) = TurtleDef n (Some as) pl"
| "set_as as (StructField (StructDef n a fs)) = StructField (StructDef n (Some as) fs)"

definition renameFieldStage :: "nat \<Rightarrow> string \<Rightarrow> pipe_segment \<Rightarrow> error + pipe_segment" where
  "renameFieldStage fieldIndex as stage =
     (if seg_type stage \<noteq> Reduce then Inl (Error ''Don't know how to handle this yet'')
      else if length (fields stage) \<le> fieldIndex then Inl TypeError
      else
        (let field = fields stage ! fieldIndex;
             fieldName = nameOf field;
             stage1 = (case orderBy stage of
                         None \<Rightarrow> stage
                       | Some obs \<Rightarrow>
                           set_orderBy
                             (Some (map (\<lambda>order. if ob_field order = OrderName fieldName
                                                   then OrderBy (OrderName as) (ob_dir order)
                                                   else order) obs)) stage)
         in Inr (set_fields
                   ((fields stage1)[fieldIndex :=
                      (case field of
                         FieldRef n \<Rightarrow> FilteredAliasedName n (Some as) None
                       | FilteredAliasedName n a fl \<Rightarrow> FilteredAliasedName n (Some as) fl
                       | Definition d \<Rightarrow> Definition (set_as as d))]) stage1)))"

definition renameField ::
  "query_builder \<Rightarrow> stage_path \<Rightarrow> nat \<Rightarrow> string \<Rightarrow> error + query_builder" where
  "renameField b stagePath fieldIndex as = onStage (renameFieldStage fieldIndex as) b stagePath"

text \<open>
  The part of \<open>addFilterToField\<close> after the renaming. A bare name is still there only when
  no new name was given.
\<close>

definition addFilterToFieldStage ::
  "nat \<Rightarrow> filter_expression \<Rightarrow> string option \<Rightarrow> pipe_segment \<Rightarrow> error + pipe_segment" where
  "addFilterToFieldStage fieldIndex f as stage =
     (if seg_type stage \<noteq> Reduce then Inl (Error ''Don't know how to handle this yet'')
      else if length (fields stage) \<le> fieldIndex then Inl TypeError
      else (case fields stage ! fieldIndex of
              FieldRef n \<Rightarrow>
                (if as = None
                 then Inl (Error ''As must be specified if field is not already renamed.'')
                 else Inr stage)
            | FilteredAliasedName n a fl \<Rightarrow>
                Inr (set_fields ((fields stage)
                       [fieldIndex := FilteredAliasedName n a
                          (Some ((case fl of None \<Rightarrow> [] | Some l \<Rightarrow> l) @ [f]))]) stage)
            | Definition d \<Rightarrow> Inr stage))"

definition addFilterToField ::
  "query_builder \<Rightarrow> stage_path \<Rightarrow> nat \<Rightarrow> filter_expression \<Rightarrow> string option
     \<Rightarrow> error + query_builder" where
  "addFilterToField b stagePath fieldIndex f as =
     (case (case as of None \<Rightarrow> Inr b | Some a \<Rightarrow> renameField b stagePath fieldIndex a) of
        Inl e \<Rightarrow> Inl e
      | Inr b1 \<Rightarrow> onStage (addFilterToFieldStage fieldIndex f as) b1 stagePath)"

text \<open>
  \<open>addOrderBy\<close> on the expanded stage. \<open>stage.orderBy = stage.orderBy || []\<close> is done
  before the field is read, so a field index outside the list throws with that
  assignment made: \<open>addOrderByThrownStage\<close>.
\<close>

definition addOrderByStage :: "nat \<Rightarrow> direction option \<Rightarrow> pipe_segment \<Rightarrow> error + pipe_segment" where
  "addOrderByStage byFieldIndex dir stage =
     (if seg_type stage \<noteq> Reduce then Inl (Error ''Don't know how to handle this yet'')
      else if length (fields stage) \<le> byFieldIndex then Inl TypeError
      else Inr (set_orderBy
                  (Some ((case orderBy stage of None \<Rightarrow> [] | Some obs \<Rightarrow> obs)
                         @ [OrderBy (OrderName (nameOf (fields stage ! byFieldIndex))) dir]))
                  stage))"

definition orderByOrEmptyStage :: "pipe_segment \<Rightarrow> pipe_segment" where
  "orderByOrEmptyStage stage =
     (if seg_type stage = Reduce
      then set_orderBy (Some (case orderBy stage of None \<Rightarrow> [] | Some obs \<Rightarrow> obs)) stage
      else stage)"

definition addOrderBy ::
  "next_struct_def \<Rightarrow> query_builder \<Rightarrow> stage_path \<Rightarrow> nat \<Rightarrow> direction option
     \<Rightarrow> error + query_builder" where
  "addOrderBy nsd b stagePath byFieldIndex dir =
     onExpandedStage nsd (addOrderByStage byFieldIndex dir) b stagePath"

definition editOrderByStage :: "nat \<Rightarrow> direction option \<Rightarrow> pipe_segment \<Rightarrow> error + pipe_segment" where
  "editOrderByStage orderByIndex dir stage =
     (if seg_type stage \<noteq> Reduce then Inl (Error ''Don't know how to handle this yet'')
      else
        (let obs = (case orderBy stage of None \<Rightarrow> [] | Some l \<Rightarrow> l)
         in if length obs \<le> orderByIndex then Inl TypeError
            else Inr (set_orderBy
                        (Some (obs[orderByIndex := OrderBy (ob_field (obs ! orderByIndex)) dir]))
                        stage)))"

definition editOrderBy ::
  "query_builder \<Rightarrow> stage_path \<Rightarrow> nat \<Rightarrow> direction option \<Rightarrow> error + query_builder" where
  "editOrderBy b stagePath orderByIndex dir = onStage (editOrderByStage orderByIndex dir) b stagePath"

text \<open>
  Modelled from the spec: \<open>stagePathParent\<close> (from \<open>../types\<close>, not part of the source)
  gives the path of the stage that holds the nested query, the index of the nested query
  among that stage's fields, and the index of the addressed stage in the nested query's
  pipeline; for a stage of the root pipeline there is no parent. A hop with a field index
  and nothing after it addresses no stage; it is given no field index, which
  \<open>removeStage\<close> rejects.
\<close>

fun stagePathParent :: "stage_path \<Rightarrow> stage_path option \<times> nat option \<times> nat" where
  "stagePathParent (Hop stageIndex None rest) = (None, None, stageIndex)"
| "stagePathParent (Hop stageIndex (Some fieldIndex) None) =
     (Some (Hop stageIndex None None), None, stageIndex)"
| "stagePathParent (Hop stageIndex (Some fieldIndex) (Some rest)) =
     (case stagePathParent rest of
        (None, _, k) \<Rightarrow> (Some (Hop stageIndex None None), Some fieldIndex, k)
      | (Some p, fo, k) \<Rightarrow> (Some (Hop stageIndex (Some fieldIndex) (Some p)), fo, k))"

text \<open>\<open>query.pipeline.splice(stageIndex, 1)\<close> and the refill of an emptied pipeline.\<close>

definition removeStageFrom :: "nat \<Rightarrow> pipe_segment list \<Rightarrow> pipe_segment list" where
  "removeStageFrom stageIndex p =
     (let p' = splice1 stageIndex p
      in if length p' = 0 then p' @ [PipeSegment Reduce [] None None None None] else p')"

definition removeStageParent :: "nat \<Rightarrow> nat \<Rightarrow> pipe_segment \<Rightarrow> error + pipe_segment" where
  "removeStageParent fieldIndex stageIndex parentStage =
     (if length (fields parentStage) \<le> fieldIndex then Inl TypeError
      else (case fields parentStage ! fieldIndex of
              Definition (TurtleDef n a pl) \<Rightarrow>
                Inr (set_fields ((fields parentStage)
                       [fieldIndex := Definition (TurtleDef n a (removeStageFrom stageIndex pl))])
                     parentStage)
            | _ \<Rightarrow> Inl (Error ''Invalid field to add stage to.'')))"

definition removeStage :: "query_builder \<Rightarrow> stage_path \<Rightarrow> error + query_builder" where
  "removeStage b stagePath =
     (case stagePathParent stagePath of
        (None, _, stageIndex) \<Rightarrow> Inr (set_pipeline (removeStageFrom stageIndex (pipeline b)) b)
      | (Some parentStagePath, fieldIndexOpt, stageIndex) \<Rightarrow>
          (case stageAtPath (pipeline b) parentStagePath of
             Inl e \<Rightarrow> Inl e
           | Inr parentStage \<Rightarrow>
               (case fieldIndexOpt of
                  None \<Rightarrow> Inl (Error ''Invalid stage path'')
                | Some fieldIndex \<Rightarrow>
                    onStage (removeStageParent fieldIndex stageIndex) b parentStagePath)))"


text \<open>
  \<open>query.pipeline.push({type: "reduce", fields: []})\<close> on the field of the parent stage;
  a field without a pipeline makes \<open>push\<close> throw.
\<close>

definition pushStageParent :: "nat \<Rightarrow> pipe_segment \<Rightarrow> error + pipe_segment" where
  "pushStageParent fieldIndex parentStage =
     (if length (fields parentStage) \<le> fieldIndex then Inl TypeError
      else (case fields parentStage ! fieldIndex of
              Definition (TurtleDef n a pl) \<Rightarrow>
                Inr (set_fields ((fields parentStage)
                       [fieldIndex := Definition
                          (TurtleDef n a (pl @ [PipeSegment Reduce [] None None None None]))])
                     parentStage)
            | _ \<Rightarrow> Inl TypeError))"

text \<open>
  \<open>addStage\<close>. The first component is the builder after a promotion by
  \<open>replaceWithDefinition\<close> (the builder itself when there was none), which is the state
  the call leaves when it throws.
\<close>

definition addStagePromote ::
  "next_struct_def \<Rightarrow> query_builder \<Rightarrow> stage_path \<Rightarrow> nat \<Rightarrow> error + query_builder" where
  "addStagePromote nsd b stagePath fieldIndex =
     (case stageAtPath (pipeline b) stagePath of
        Inl e \<Rightarrow> Inl e
      | Inr parentStage \<Rightarrow>
          (case sourceForStageAtPath nsd (source b) (pipeline b) stagePath of
             Inl e \<Rightarrow> Inl e
           | Inr src \<Rightarrow>
               (if length (fields parentStage) \<le> fieldIndex then Inl TypeError
                else (case fieldDefForQueryFieldDef nsd (source b)
                             (fields parentStage ! fieldIndex) src of
                        Inl e \<Rightarrow> Inl e
                      | Inr (TurtleDef n a pl) \<Rightarrow>
                          (case fields parentStage ! fieldIndex of
                             Definition d \<Rightarrow> Inr b
                           | _ \<Rightarrow> replaceWithDefinition b stagePath fieldIndex)
                      | Inr _ \<Rightarrow> Inl (Error ''Invalid field to add stage to.'')))))"

definition addStage ::
  "next_struct_def \<Rightarrow> query_builder \<Rightarrow> stage_path option \<Rightarrow> nat option \<Rightarrow> error + query_builder" where
  "addStage nsd b stagePathOpt fieldIndexOpt =
     (case stagePathOpt of
        None \<Rightarrow> Inr (set_pipeline (pipeline b @ [PipeSegment Reduce [] None None None None]) b)
      | Some stagePath \<Rightarrow>
          (case stageAtPath (pipeline b) stagePath of
             Inl e \<Rightarrow> Inl e
           | Inr parentStage \<Rightarrow>
               (case fieldIndexOpt of
                  None \<Rightarrow> Inl (Error ''fieldIndex must be provided if stagePath is'')
                | Some fieldIndex \<Rightarrow>
                    (case addStagePromote nsd b stagePath fieldIndex of
                       Inl e \<Rightarrow> Inl e
                     | Inr b1 \<Rightarrow> onStage (pushStageParent fieldIndex) b1 stagePath))))"

text \<open>\<open>replaceWithDefinition(stagePath, fieldIndex, structDef?)\<close> as a public operation.\<close>

definition replaceWithDefinitionIn ::
  "query_builder \<Rightarrow> stage_path \<Rightarrow> nat \<Rightarrow> struct_def option \<Rightarrow> error + query_builder" where
  "replaceWithDefinitionIn b stagePath fieldIndex structDefOpt =
     onStage (replaceWithDefinitionStage
                (case structDefOpt of None \<Rightarrow> source b | Some structDef \<Rightarrow> structDef) fieldIndex)
       b stagePath"

subsection \<open>Calls and the state they leave\<close>

datatype operation =
    ClearQuery
  | SetQuery string "string option" "pipe_segment list"
  | AddField stage_path string
  | LoadQuery string
  | ReplaceQuery string "string option" "pipe_segment list"
  | ReplaceSavedField stage_path nat string
  | RemoveField stage_path nat
  | ReorderFields stage_path "nat list"
  | ToggleField stage_path string
  | AddFilter stage_path filter_expression
  | EditFilter stage_path "nat option" nat filter_expression
  | RemoveFilter stage_path nat "nat option"
  | AddLimit stage_path int "schema_field option" "direction option"
  | AddOrderBy stage_path nat "direction option"
  | EditOrderBy stage_path nat "direction option"
  | RemoveLimit stage_path
  | AddStage "stage_path option" "nat option"
  | RemoveStage stage_path
  | RemoveOrderBy stage_path nat
  | RenameField stage_path nat string
  | AddFilterToField stage_path nat filter_expression "string option"
  | AddNewNestedQuery stage_path string
  | AddNewField stage_path query_field_def
  | EditFieldDefinition stage_path nat query_field_def
  | ReplaceWithDefinition stage_path nat "struct_def option"
  | SetName string
  | UpdateSource struct_def

fun exec :: "next_struct_def \<Rightarrow> operation \<Rightarrow> query_builder \<Rightarrow> error + query_builder" where
  "exec nsd ClearQuery b = Inr (clearQuery b)"
| "exec nsd (SetQuery n a p) b = Inr (setQuery b n a p)"
| "exec nsd (AddField sp fieldPath) b = addField nsd b sp fieldPath"
| "exec nsd (LoadQuery queryPath) b = loadQuery nsd b queryPath"
| "exec nsd (ReplaceQuery n a p) b = replaceQuery b n a p"
| "exec nsd (ReplaceSavedField sp i n) b = replaceSavedField b sp i n"
| "exec nsd (RemoveField sp i) b = removeField b sp i"
| "exec nsd (ReorderFields sp order) b = reorderFields b sp order"
| "exec nsd (ToggleField sp fieldPath) b = toggleField nsd b sp fieldPath"
| "exec nsd (AddFilter sp f) b = addFilter nsd b sp f"
| "exec nsd (EditFilter sp fi i f) b = editFilter b sp fi i f"
| "exec nsd (RemoveFilter sp i fi) b = removeFilter b sp i fi"
| "exec nsd (AddLimit sp n byField dir) b = addLimit nsd b sp n byField dir"
| "exec nsd (AddOrderBy sp i dir) b = addOrderBy nsd b sp i dir"
| "exec nsd (EditOrderBy sp i dir) b = editOrderBy b sp i dir"
| "exec nsd (RemoveLimit sp) b = removeLimit b sp"
| "exec nsd (AddStage spo fio) b = addStage nsd b spo fio"
| "exec nsd (RemoveStage sp) b = removeStage b sp"
| "exec nsd (RemoveOrderBy sp i) b = removeOrderBy b sp i"
| "exec nsd (RenameField sp i as) b = renameField b sp i as"
| "exec nsd (AddFilterToField sp i f as) b = addFilterToField b sp i f as"
| "exec nsd (AddNewNestedQuery sp n) b = addNewNestedQuery nsd b sp n"
| "exec nsd (AddNewField sp d) b = addNewField nsd b sp d"
| "exec nsd (EditFieldDefinition sp i d) b = editFieldDefinition b sp i d"
| "exec nsd (ReplaceWithDefinition sp i sdo) b = replaceWithDefinitionIn b sp i sdo"
| "exec nsd (SetName n) b = Inr (setName b n)"
| "exec nsd (UpdateSource s) b = Inr (updateSource b s)"

text \<open>
  The builder as \<open>autoExpandStageAtPath\<close> leaves it when it throws: promoted if the
  handler got past \<open>replaceWithDefinition\<close>, unchanged otherwise.
\<close>

definition autoExpandThrown :: "next_struct_def \<Rightarrow> query_builder \<Rightarrow> stage_path \<Rightarrow> query_builder" where
  "autoExpandThrown nsd b stagePath =
     (case stageAtPath (pipeline b) stagePath of
        Inl (NotAStageError field) \<Rightarrow>
          (case stagePathPop stagePath of
             (Some newStagePath, _, Some fieldIndex) \<Rightarrow>
               (case sourceForStageAtPath nsd (source b) (pipeline b) newStagePath of
                  Inr src \<Rightarrow>
                    (case fieldDefForQueryFieldDef nsd (source b) field src of
                       Inr (TurtleDef n a pl) \<Rightarrow>
                         (case replaceWithDefinition b newStagePath fieldIndex of
                            Inr b' \<Rightarrow> b'
                          | Inl e \<Rightarrow> b)
                     | _ \<Rightarrow> b)
                | Inl e \<Rightarrow> b)
           | _ \<Rightarrow> b)
      | _ \<Rightarrow> b)"

text \<open>
  The builder an auto-expanding operation leaves when it throws: the failed expansion's,
  or the expanded one when a later step threw before changing the stage.
\<close>

definition expandedThrown :: "next_struct_def \<Rightarrow> query_builder \<Rightarrow> stage_path \<Rightarrow> query_builder" where
  "expandedThrown nsd b stagePath =
     (case autoExpandStageAtPath nsd b stagePath of
        Inr (b', stage) \<Rightarrow> b'
      | Inl e \<Rightarrow> autoExpandThrown nsd b stagePath)"

text \<open>The pipeline as the loop of \<open>loadQuery\<close> leaves it when a merge throws.\<close>

fun loadStagesThrown :: "pipe_segment list \<Rightarrow> nat \<Rightarrow> pipe_segment list \<Rightarrow> pipe_segment list" where
  "loadStagesThrown current stageIndex [] = current"
| "loadStagesThrown current stageIndex (stage # rest) =
     (if stageIndex < length current
      then (case mergeStage (current ! stageIndex) stage of
              Inl e \<Rightarrow> current
            | Inr merged \<Rightarrow> loadStagesThrown (current[stageIndex := merged]) (Suc stageIndex) rest)
      else loadStagesThrown (current @ [jsonCopy stage]) (Suc stageIndex) rest)"

text \<open>The builder a call leaves behind when it throws.\<close>

fun thrown :: "next_struct_def \<Rightarrow> operation \<Rightarrow> query_builder \<Rightarrow> query_builder" where
  "thrown nsd (AddField sp fieldPath) b = expandedThrown nsd b sp"
| "thrown nsd (AddNewNestedQuery sp n) b = expandedThrown nsd b sp"
| "thrown nsd (AddNewField sp d) b = expandedThrown nsd b sp"
| "thrown nsd (ToggleField sp fieldPath) b = expandedThrown nsd b sp"
| "thrown nsd (AddFilter sp f) b = expandedThrown nsd b sp"
| "thrown nsd (AddLimit sp n byField dir) b = expandedThrown nsd b sp"
| "thrown nsd (AddOrderBy sp i dir) b =
     (case autoExpandStageAtPath nsd b sp of
        Inr (b', stage) \<Rightarrow>
          set_pipeline (updateStageAtPath (\<lambda>_. orderByOrEmptyStage stage) (pipeline b') sp) b'
      | Inl e \<Rightarrow> autoExpandThrown nsd b sp)"
| "thrown nsd (EditOrderBy sp i dir) b =
     (case stageAtPath (pipeline b) sp of
        Inr stage \<Rightarrow>
          set_pipeline (updateStageAtPath (\<lambda>_. orderByOrEmptyStage stage) (pipeline b) sp) b
      | Inl e \<Rightarrow> b)"
| "thrown nsd (LoadQuery queryPath) b =
     (case getField nsd (source b) (source b) queryPath of
        Inr (TurtleDef n a defPipeline) \<Rightarrow>
          set_pipeline (loadStagesThrown (pipeline b) 0 defPipeline) b
      | _ \<Rightarrow> b)"
| "thrown nsd (AddStage (Some sp) (Some i)) b =
     (case addStagePromote nsd b sp i of Inr b1 \<Rightarrow> b1 | Inl e \<Rightarrow> b)"
| "thrown nsd (AddFilterToField sp i f (Some as)) b =
     (case renameField b sp i as of Inr b1 \<Rightarrow> b1 | Inl e \<Rightarrow> b)"
| "thrown nsd opn b = b"

text \<open>
  The builder after a call, whether it returned or threw; nothing when the call leaves an
  array with holes. Such a call returns normally in the source; \<open>writesPastEnd\<close> below
  tells from its arguments and the addressed stage when a call is one.
\<close>

definition after :: "next_struct_def \<Rightarrow> operation \<Rightarrow> query_builder \<Rightarrow> query_builder option" where
  "after nsd opn b =
     (case exec nsd opn b of
        Inr b' \<Rightarrow> Some b'
      | Inl SparseArray \<Rightarrow> None
      | Inl e \<Rightarrow> Some (thrown nsd opn b))"

fun runOps :: "next_struct_def \<Rightarrow> operation list \<Rightarrow> query_builder \<Rightarrow> query_builder option" where
  "runOps nsd [] b = Some b"
| "runOps nsd (opn # ops) b =
     (case after nsd opn b of None \<Rightarrow> None | Some b' \<Rightarrow> runOps nsd ops b')"

definition newBuilder :: "struct_def \<Rightarrow> query_builder" where
  "newBuilder src = QueryBuilder src ''new_query'' (jsonCopy BLANK_QUERY_pipeline)"


subsection \<open>The invariant: no empty pipeline\<close>

text \<open>
  Every pipeline inside a definition, a schema, a field or a stage is non-empty.
\<close>

fun pipelinesOfDef :: "field_def \<Rightarrow> bool"
  and pipelinesOfStruct :: "struct_def \<Rightarrow> bool"
  and pipelinesOfField :: "query_field_def \<Rightarrow> bool"
  and pipelinesOfStage :: "pipe_segment \<Rightarrow> bool" where
  "pipelinesOfDef (FieldTypeDef t n a c e) = True"
| "pipelinesOfDef (TurtleDef n a pl) = (pl \<noteq> [] \<and> (\<forall>stage\<in>set pl. pipelinesOfStage stage))"
| "pipelinesOfDef (StructField s) = pipelinesOfStruct s"
| "pipelinesOfStruct (StructDef n a fs) = (\<forall>d\<in>set fs. pipelinesOfDef d)"
| "pipelinesOfField (FieldRef n) = True"
| "pipelinesOfField (FilteredAliasedName n a fl) = True"
| "pipelinesOfField (Definition d) = pipelinesOfDef d"
| "pipelinesOfStage (PipeSegment t fs fl l ob b) = (\<forall>f\<in>set fs. pipelinesOfField f)"

definition pipelinesNonEmpty :: "pipe_segment list \<Rightarrow> bool" where
  "pipelinesNonEmpty p = (p \<noteq> [] \<and> (\<forall>stage\<in>set p. pipelinesOfStage stage))"





definition projNoLimit :: pipe_segment where
  "projNoLimit = PipeSegment Project [FieldRef ''a''] None None None None"

definition mixedSource :: struct_def where
  "mixedSource = StructDef ''sales'' None
     [FieldTypeDef TString ''a'' None None None,
      TurtleDef ''top_then_list'' None [byRegion0, projNoLimit]]"


subsection \<open>Calls that write past the end of an array\<close>




subsection \<open>Objects with identity\<close>

text \<open>
  The editor works on JavaScript objects: \<open>stageAtPath\<close> returns a reference to a stage,
  and a write to that stage is seen wherever the same object is held, in the tree or in
  the schema. To tell a copy from a second reference, the stages and the nested queries
  carry an identity here. An object held in two places occurs twice with the same
  identity; a new object gets the next identity of the allocation counter \<open>next_id\<close>.
  The \<open>fields\<close> array of a stage and the \<open>pipeline\<close> array of a nested query are taken
  with the object that holds them.
\<close>

datatype field_def_obj =
    FieldTypeDefObj atomic_type string "string option" "string option" "expression_type option"
  | TurtleDefObj (turtle_id: nat) string "string option" "stage_obj list"
  | StructFieldObj struct_def_obj
and struct_def_obj =
    StructDefObj string "string option" (sd_fields_obj: "field_def_obj list")
and query_field_obj =
    FieldRefObj string
  | FilteredAliasedNameObj string "string option" "filter_expression list option"
  | DefinitionObj field_def_obj
and stage_obj =
    StageObj (stage_id: nat) segment_type (fields_obj: "query_field_obj list")
      (filterList_obj: "filter_expression list option") "int option"
      "order_by list option" "by_spec option"

datatype builder_obj =
  BuilderObj (source_obj: struct_def_obj) (name_obj: string) (pipeline_obj: "stage_obj list")
    (next_id: nat)

text \<open>The value of an object: the same tree without the identities.\<close>

fun eraseDef :: "field_def_obj \<Rightarrow> field_def"
  and eraseStruct :: "struct_def_obj \<Rightarrow> struct_def"
  and eraseField :: "query_field_obj \<Rightarrow> query_field_def"
  and eraseStage :: "stage_obj \<Rightarrow> pipe_segment" where
  "eraseDef (FieldTypeDefObj t n a c e) = FieldTypeDef t n a c e"
| "eraseDef (TurtleDefObj i n a pl) = TurtleDef n a (map eraseStage pl)"
| "eraseDef (StructFieldObj s) = StructField (eraseStruct s)"
| "eraseStruct (StructDefObj n a fs) = StructDef n a (map eraseDef fs)"
| "eraseField (FieldRefObj s) = FieldRef s"
| "eraseField (FilteredAliasedNameObj n a fl) = FilteredAliasedName n a fl"
| "eraseField (DefinitionObj d) = Definition (eraseDef d)"
| "eraseStage (StageObj i t fs fl l ob b) = PipeSegment t (map eraseField fs) fl l ob b"

text \<open>The identities of the objects reachable from an object, itself included.\<close>

fun idsDef :: "field_def_obj \<Rightarrow> nat set"
  and idsStruct :: "struct_def_obj \<Rightarrow> nat set"
  and idsField :: "query_field_obj \<Rightarrow> nat set"
  and idsStage :: "stage_obj \<Rightarrow> nat set" where
  "idsDef (FieldTypeDefObj t n a c e) = {}"
| "idsDef (TurtleDefObj i n a pl) = insert i (\<Union>(set (map idsStage pl)))"
| "idsDef (StructFieldObj s) = idsStruct s"
| "idsStruct (StructDefObj n a fs) = \<Union>(set (map idsDef fs))"
| "idsField (FieldRefObj s) = {}"
| "idsField (FilteredAliasedNameObj n a fl) = {}"
| "idsField (DefinitionObj d) = idsDef d"
| "idsStage (StageObj i t fs fl l ob b) = insert i (\<Union>(set (map idsField fs)))"

text \<open>
  A write to the stage object \<open>i\<close>: its new content \<open>v\<close> is what every holder of the
  object reads afterwards.
\<close>

fun storeStageDef :: "nat \<Rightarrow> stage_obj \<Rightarrow> field_def_obj \<Rightarrow> field_def_obj"
  and storeStageStruct :: "nat \<Rightarrow> stage_obj \<Rightarrow> struct_def_obj \<Rightarrow> struct_def_obj"
  and storeStageField :: "nat \<Rightarrow> stage_obj \<Rightarrow> query_field_obj \<Rightarrow> query_field_obj"
  and storeStage :: "nat \<Rightarrow> stage_obj \<Rightarrow> stage_obj \<Rightarrow> stage_obj" where
  "storeStageDef i v (FieldTypeDefObj t n a c e) = FieldTypeDefObj t n a c e"
| "storeStageDef i v (TurtleDefObj j n a pl) = TurtleDefObj j n a (map (storeStage i v) pl)"
| "storeStageDef i v (StructFieldObj s) = StructFieldObj (storeStageStruct i v s)"
| "storeStageStruct i v (StructDefObj n a fs) = StructDefObj n a (map (storeStageDef i v) fs)"
| "storeStageField i v (FieldRefObj s) = FieldRefObj s"
| "storeStageField i v (FilteredAliasedNameObj n a fl) = FilteredAliasedNameObj n a fl"
| "storeStageField i v (DefinitionObj d) = DefinitionObj (storeStageDef i v d)"
| "storeStage i v (StageObj j t fs fl l ob b) =
     (if j = i then v else StageObj j t (map (storeStageField i v) fs) fl l ob b)"

definition writeStage :: "nat \<Rightarrow> stage_obj \<Rightarrow> builder_obj \<Rightarrow> builder_obj" where
  "writeStage i v b =
     BuilderObj (storeStageStruct i v (source_obj b)) (name_obj b)
       (map (storeStage i v) (pipeline_obj b)) (next_id b)"

text \<open>A write to the nested query object \<open>i\<close>, in the same way.\<close>

fun storeTurtleDef :: "nat \<Rightarrow> field_def_obj \<Rightarrow> field_def_obj \<Rightarrow> field_def_obj"
  and storeTurtleStruct :: "nat \<Rightarrow> field_def_obj \<Rightarrow> struct_def_obj \<Rightarrow> struct_def_obj"
  and storeTurtleField :: "nat \<Rightarrow> field_def_obj \<Rightarrow> query_field_obj \<Rightarrow> query_field_obj"
  and storeTurtle :: "nat \<Rightarrow> field_def_obj \<Rightarrow> stage_obj \<Rightarrow> stage_obj" where
  "storeTurtleDef i v (FieldTypeDefObj t n a c e) = FieldTypeDefObj t n a c e"
| "storeTurtleDef i v (TurtleDefObj j n a pl) =
     (if j = i then v else TurtleDefObj j n a (map (storeTurtle i v) pl))"
| "storeTurtleDef i v (StructFieldObj s) = StructFieldObj (storeTurtleStruct i v s)"
| "storeTurtleStruct i v (StructDefObj n a fs) = StructDefObj n a (map (storeTurtleDef i v) fs)"
| "storeTurtleField i v (FieldRefObj s) = FieldRefObj s"
| "storeTurtleField i v (FilteredAliasedNameObj n a fl) = FilteredAliasedNameObj n a fl"
| "storeTurtleField i v (DefinitionObj d) = DefinitionObj (storeTurtleDef i v d)"
| "storeTurtle i v (StageObj j t fs fl l ob b) =
     StageObj j t (map (storeTurtleField i v) fs) fl l ob b"

definition writeTurtle :: "nat \<Rightarrow> field_def_obj \<Rightarrow> builder_obj \<Rightarrow> builder_obj" where
  "writeTurtle i v b =
     BuilderObj (storeTurtleStruct i v (source_obj b)) (name_obj b)
       (map (storeTurtle i v) (pipeline_obj b)) (next_id b)"

text \<open>
  \<open>JSON.parse(JSON.stringify(x))\<close> on objects: the same value, every stage and nested
  query in it a new object. The copies take the identities from \<open>k\<close> on, one after the
  other; the second component is the counter afterwards.
\<close>

fun traverse :: "(nat \<Rightarrow> 'a \<times> nat) list \<Rightarrow> nat \<Rightarrow> 'a list \<times> nat" where
  "traverse [] k = ([], k)"
| "traverse (c # cs) k =
     (case c k of (x, k1) \<Rightarrow> (case traverse cs k1 of (xs, k2) \<Rightarrow> (x # xs, k2)))"

primrec copyDef :: "field_def_obj \<Rightarrow> nat \<Rightarrow> field_def_obj \<times> nat"
  and copyStruct :: "struct_def_obj \<Rightarrow> nat \<Rightarrow> struct_def_obj \<times> nat"
  and copyField :: "query_field_obj \<Rightarrow> nat \<Rightarrow> query_field_obj \<times> nat"
  and copyStage :: "stage_obj \<Rightarrow> nat \<Rightarrow> stage_obj \<times> nat" where
  "copyDef (FieldTypeDefObj t n a c e) = (\<lambda>k. (FieldTypeDefObj t n a c e, k))"
| "copyDef (TurtleDefObj i n a pl) =
     (\<lambda>k. case traverse (map copyStage pl) (Suc k) of (pl', k') \<Rightarrow> (TurtleDefObj k n a pl', k'))"
| "copyDef (StructFieldObj s) = (\<lambda>k. case copyStruct s k of (s', k') \<Rightarrow> (StructFieldObj s', k'))"
| "copyStruct (StructDefObj n a fs) =
     (\<lambda>k. case traverse (map copyDef fs) k of (fs', k') \<Rightarrow> (StructDefObj n a fs', k'))"
| "copyField (FieldRefObj s) = (\<lambda>k. (FieldRefObj s, k))"
| "copyField (FilteredAliasedNameObj n a fl) = (\<lambda>k. (FilteredAliasedNameObj n a fl, k))"
| "copyField (DefinitionObj d) = (\<lambda>k. case copyDef d k of (d', k') \<Rightarrow> (DefinitionObj d', k'))"
| "copyStage (StageObj i t fs fl l ob b) =
     (\<lambda>k. case traverse (map copyField fs) (Suc k) of (fs', k') \<Rightarrow> (StageObj k t fs' fl l ob b, k'))"

definition jsonCopyObj :: "field_def_obj \<Rightarrow> nat \<Rightarrow> field_def_obj \<times> nat" where
  "jsonCopyObj definition k = copyDef definition k"

fun set_fields_obj :: "query_field_obj list \<Rightarrow> stage_obj \<Rightarrow> stage_obj" where
  "set_fields_obj fs (StageObj i t _ fl l ob b) = StageObj i t fs fl l ob b"

fun set_filterList_obj :: "filter_expression list option \<Rightarrow> stage_obj \<Rightarrow> stage_obj" where
  "set_filterList_obj fl (StageObj i t fs _ l ob b) = StageObj i t fs fl l ob b"

fun set_next_id :: "nat \<Rightarrow> builder_obj \<Rightarrow> builder_obj" where
  "set_next_id k (BuilderObj s n p _) = BuilderObj s n p k"

text \<open>\<open>stageAtPath\<close>, returning the stage object.\<close>

fun stageAtPathObj :: "stage_obj list \<Rightarrow> stage_path \<Rightarrow> error + stage_obj" where
  "stageAtPathObj current (Hop stageIndex None rest) =
     (if stageIndex < length current then Inr (current ! stageIndex) else Inl TypeError)"
| "stageAtPathObj current (Hop stageIndex (Some fieldIndex) rest) =
     (if stageIndex < length current \<and> fieldIndex < length (fields_obj (current ! stageIndex))
      then (case fields_obj (current ! stageIndex) ! fieldIndex of
              DefinitionObj (TurtleDefObj i n a pl) \<Rightarrow>
                (case rest of
                   None \<Rightarrow> Inl (Error ''Invalid stage path'')
                 | Some newStagePath \<Rightarrow> stageAtPathObj pl newStagePath)
            | newField \<Rightarrow> Inl (NotAStageError (eraseField newField)))
      else Inl TypeError)"

text \<open>
  \<open>replaceWithDefinition(stagePath, fieldIndex)\<close>, as \<open>autoExpandStageAtPath\<close> calls it
  (no \<open>structDef\<close>, so the root schema): the definition found in the schema is copied,
  and the copy is written into the field array of the stage object.
\<close>

definition replaceWithDefinitionObj ::
  "builder_obj \<Rightarrow> stage_path \<Rightarrow> nat \<Rightarrow> error + builder_obj" where
  "replaceWithDefinitionObj b stagePath fieldIndex =
     (case stageAtPathObj (pipeline_obj b) stagePath of
        Inl e \<Rightarrow> Inl e
      | Inr stage \<Rightarrow>
          (if fieldIndex < length (fields_obj stage)
           then (case fields_obj stage ! fieldIndex of
                   FieldRefObj field \<Rightarrow>
                     (case find (\<lambda>d. fieldDefName (eraseDef d) = field)
                             (sd_fields_obj (source_obj b)) of
                        None \<Rightarrow> Inl (Error ''Field is not defined..'')
                      | Some definition \<Rightarrow>
                          (case jsonCopyObj definition (next_id b) of
                             (copy, k) \<Rightarrow>
                               Inr (set_next_id k
                                      (writeStage (stage_id stage)
                                         (set_fields_obj
                                            ((fields_obj stage)[fieldIndex := DefinitionObj copy])
                                            stage) b))))
                 | _ \<Rightarrow> Inl (Error ''Don't deal with this yet''))
           else Inl (Error ''Don't deal with this yet'')))"

text \<open>
  \<open>autoExpandStageAtPath\<close> on objects. What the handler reads (the schema the parent stage
  sees and the definition the field resolves to) depends on values only and is read
  from the values.
\<close>

definition autoExpandStageAtPathObj ::
  "next_struct_def \<Rightarrow> builder_obj \<Rightarrow> stage_path \<Rightarrow> error + (builder_obj \<times> stage_obj)" where
  "autoExpandStageAtPathObj nsd b stagePath =
     (case stageAtPathObj (pipeline_obj b) stagePath of
        Inr stage \<Rightarrow> Inr (b, stage)
      | Inl (NotAStageError field) \<Rightarrow>
          (case stagePathPop stagePath of
             (Some newStagePath, _, Some fieldIndex) \<Rightarrow>
               (case sourceForStageAtPath nsd (eraseStruct (source_obj b))
                       (map eraseStage (pipeline_obj b)) newStagePath of
                  Inl e \<Rightarrow> Inl e
                | Inr src \<Rightarrow>
                    (case fieldDefForQueryFieldDef nsd (eraseStruct (source_obj b)) field src of
                       Inl e \<Rightarrow> Inl e
                     | Inr (TurtleDef n a pl) \<Rightarrow>
                         (case replaceWithDefinitionObj b newStagePath fieldIndex of
                            Inl e \<Rightarrow> Inl e
                          | Inr b' \<Rightarrow>
                              (case stageAtPathObj (pipeline_obj b') stagePath of
                                 Inl e \<Rightarrow> Inl e
                               | Inr stage \<Rightarrow> Inr (b', stage)))
                     | Inr _ \<Rightarrow> Inl (NotAStageError field)))
           | _ \<Rightarrow> Inl TypeError)
      | Inl e \<Rightarrow> Inl e)"

text \<open>\<open>addFilter\<close>: \<open>stage.filterList = [...(stage.filterList || []), filter]\<close> on the object.\<close>

definition addFilterObj ::
  "next_struct_def \<Rightarrow> builder_obj \<Rightarrow> stage_path \<Rightarrow> filter_expression \<Rightarrow> error + builder_obj" where
  "addFilterObj nsd b stagePath f =
     (case autoExpandStageAtPathObj nsd b stagePath of
        Inl e \<Rightarrow> Inl e
      | Inr (b', stage) \<Rightarrow>
          Inr (writeStage (stage_id stage)
                 (set_filterList_obj
                    (Some ((case filterList_obj stage of None \<Rightarrow> [] | Some fl \<Rightarrow> fl) @ [f]))
                    stage) b'))"

text \<open>\<open>setQuery(query)\<close>: the builder holds the pipeline of its argument, the same objects.\<close>

definition setQueryObj ::
  "builder_obj \<Rightarrow> string \<Rightarrow> string option \<Rightarrow> stage_obj list \<Rightarrow> builder_obj" where
  "setQueryObj b n a p = BuilderObj (source_obj b) (orElse a n) p (next_id b)"

text \<open>Every object of the schema and of the tree has an identity below the counter.\<close>

definition allocated :: "builder_obj \<Rightarrow> bool" where
  "allocated b =
     ((\<forall>i\<in>idsStruct (source_obj b). i < next_id b)
      \<and> (\<forall>stage\<in>set (pipeline_obj b). \<forall>i\<in>idsStage stage. i < next_id b))"

definition qStageObj :: stage_obj where
  "qStageObj = StageObj 2 Reduce [FieldRefObj ''a''] None (Some 10) None None"

definition nestSourceObj :: struct_def_obj where
  "nestSourceObj = StructDefObj ''flights'' None
     [FieldTypeDefObj TString ''a'' None None None,
      TurtleDefObj 1 ''q'' None [qStageObj]]"

definition refStageObj :: stage_obj where
  "refStageObj = StageObj 0 Reduce [FieldRefObj ''a'', FieldRefObj ''q''] None None None None"


section \<open>Verified properties\<close>

subsection \<open>Selectors and setters of a stage\<close>

lemma set_fields_sel [simp]:
  "fields (set_fields fs st) = fs" "seg_type (set_fields fs st) = seg_type st"
  "filterList (set_fields fs st) = filterList st" "limit (set_fields fs st) = limit st"
  "orderBy (set_fields fs st) = orderBy st" "seg_by (set_fields fs st) = seg_by st"
  by (cases st; simp)+

lemma set_filterList_sel [simp]:
  "fields (set_filterList x st) = fields st" "seg_type (set_filterList x st) = seg_type st"
  "filterList (set_filterList x st) = x" "limit (set_filterList x st) = limit st"
  "orderBy (set_filterList x st) = orderBy st" "seg_by (set_filterList x st) = seg_by st"
  by (cases st; simp)+

lemma set_limit_sel [simp]:
  "fields (set_limit x st) = fields st" "seg_type (set_limit x st) = seg_type st"
  "filterList (set_limit x st) = filterList st" "limit (set_limit x st) = x"
  "orderBy (set_limit x st) = orderBy st" "seg_by (set_limit x st) = seg_by st"
  by (cases st; simp)+

lemma set_orderBy_sel [simp]:
  "fields (set_orderBy x st) = fields st" "seg_type (set_orderBy x st) = seg_type st"
  "filterList (set_orderBy x st) = filterList st" "limit (set_orderBy x st) = limit st"
  "orderBy (set_orderBy x st) = x" "seg_by (set_orderBy x st) = seg_by st"
  by (cases st; simp)+

lemma set_by_sel [simp]:
  "fields (set_by x st) = fields st" "seg_type (set_by x st) = seg_type st"
  "filterList (set_by x st) = filterList st" "limit (set_by x st) = limit st"
  "orderBy (set_by x st) = orderBy st" "seg_by (set_by x st) = x"
  by (cases st; simp)+

lemma set_pipeline_sel [simp]:
  "pipeline (set_pipeline p b) = p" "source (set_pipeline p b) = source b"
  "query_name (set_pipeline p b) = query_name b"
  by (cases b; simp)+

subsection \<open>Reading a stage after writing it\<close>

lemma stageAtPath_update:
  "stageAtPath p path = Inr st \<Longrightarrow> stageAtPath (updateStageAtPath g p path) path = Inr (g st)"
proof (induction p path arbitrary: st rule: stageAtPath.induct)
  case (1 current stageIndex rest)
  then show ?case by (auto split: if_splits)
next
  case (2 current stageIndex fieldIndex rest)
  then show ?case
    by (auto split: if_splits query_field_def.splits field_def.splits option.splits)
qed

lemma onStage_result:
  assumes "stageAtPath (pipeline b) path = Inr st" and "f st = Inr st'"
  shows "\<exists>b'. onStage f b path = Inr b' \<and> stageAtPath (pipeline b') path = Inr st'
           \<and> source b' = source b \<and> query_name b' = query_name b"
  using assms stageAtPath_update [of "pipeline b" path st "\<lambda>_. st'"]
  by (simp add: onStage_def)

lemma autoExpand_stage:
  "autoExpandStageAtPath nsd b path = Inr (b1, st) \<Longrightarrow> stageAtPath (pipeline b1) path = Inr st"
  by (auto simp: autoExpandStageAtPath_def
      split: sum.splits error.splits option.splits prod.splits field_def.splits)


lemma onExpandedStage_result:
  assumes "autoExpandStageAtPath nsd b path = Inr (b1, st)" and "f st = Inr st'"
  shows "\<exists>b'. onExpandedStage nsd f b path = Inr b' \<and> stageAtPath (pipeline b') path = Inr st'"
  using assms autoExpand_stage [OF assms(1)]
    stageAtPath_update [of "pipeline b1" path st "\<lambda>_. st'"]
  by (simp add: onExpandedStage_def)


subsection \<open>Removing a filter\<close>

text \<open>
  C9. On a stage whose field at position \<open>fieldIndex\<close> is a refined reference with a
  private filter list, \<open>removeFilter(path, filterIndex, fieldIndex)\<close> removes the entry at
  position \<open>fieldIndex\<close> of that list, whatever \<open>filterIndex\<close> is; with \<open>fieldIndex\<close>
  absent it removes the entry at \<open>filterIndex\<close> of the stage's own filter list.
\<close>

theorem removeFilter_field_branch_uses_fieldIndex:
  assumes "stageAtPath (pipeline b) path = Inr stage"
  shows "(fieldIndex < length (fields stage)
            \<and> fields stage ! fieldIndex = FilteredAliasedName n a (Some fl) \<longrightarrow>
            (\<exists>b'. removeFilter b path filterIndex (Some fieldIndex) = Inr b'
               \<and> stageAtPath (pipeline b') path =
                   Inr (set_fields ((fields stage)[fieldIndex :=
                          FilteredAliasedName n a
                            (Some (take fieldIndex fl @ drop (Suc fieldIndex) fl))]) stage)))
       \<and> (filterList stage = Some sl \<longrightarrow>
            (\<exists>b'. removeFilter b path filterIndex None = Inr b'
               \<and> stageAtPath (pipeline b') path =
                   Inr (set_filterList (Some (take filterIndex sl @ drop (Suc filterIndex) sl))
                          stage)))"
proof (intro conjI impI)
  assume h: "fieldIndex < length (fields stage)
             \<and> fields stage ! fieldIndex = FilteredAliasedName n a (Some fl)"
  then have "removeFilterStage filterIndex (Some fieldIndex) stage =
        Inr (set_fields ((fields stage)[fieldIndex :=
               FilteredAliasedName n a (Some (take fieldIndex fl @ drop (Suc fieldIndex) fl))])
             stage)"
    by (simp add: removeFilterStage_def splice1_def)
  from onStage_result [where f = "removeFilterStage filterIndex (Some fieldIndex)", OF assms this]
  show "\<exists>b'. removeFilter b path filterIndex (Some fieldIndex) = Inr b'
          \<and> stageAtPath (pipeline b') path =
              Inr (set_fields ((fields stage)[fieldIndex :=
                     FilteredAliasedName n a
                       (Some (take fieldIndex fl @ drop (Suc fieldIndex) fl))]) stage)"
    by (auto simp: removeFilter_def)
next
  assume "filterList stage = Some sl"
  then have "removeFilterStage filterIndex None stage =
        Inr (set_filterList (Some (take filterIndex sl @ drop (Suc filterIndex) sl)) stage)"
    by (simp add: removeFilterStage_def splice1_def)
  from onStage_result [where f = "removeFilterStage filterIndex None", OF assms this]
  show "\<exists>b'. removeFilter b path filterIndex None = Inr b'
          \<and> stageAtPath (pipeline b') path =
              Inr (set_filterList (Some (take filterIndex sl @ drop (Suc filterIndex) sl)) stage)"
    by (auto simp: removeFilter_def)
qed

text \<open>
  At a stage with the private filters \<open>[f0, f1, f2]\<close> on field 1, asking for filter 0 of
  field 1 removes \<open>f1\<close>; asking for filter 0 of the stage removes the stage's \<open>f0\<close>.
\<close>

theorem removeFilter_field_branch_uses_fieldIndex_witness:
  "stageAtPath (pipeline (QueryBuilder exSource ''new_query'' [fanStage])) rootPath = Inr fanStage
   \<and> (\<exists>b'. removeFilter (QueryBuilder exSource ''new_query'' [fanStage]) rootPath 0 (Some 1) = Inr b'
         \<and> stageAtPath (pipeline b') rootPath =
             Inr (PipeSegment Reduce
                    [FieldRef ''a'', FilteredAliasedName ''b'' None (Some [f0, f2])]
                    (Some [f0, f1]) None None None))
   \<and> (\<exists>b'. removeFilter (QueryBuilder exSource ''new_query'' [fanStage]) rootPath 0 None = Inr b'
         \<and> stageAtPath (pipeline b') rootPath =
             Inr (PipeSegment Reduce
                    [FieldRef ''a'', FilteredAliasedName ''b'' None (Some [f0, f1, f2])]
                    (Some [f1]) None None None))"
proof -
  have h: "stageAtPath (pipeline (QueryBuilder exSource ''new_query'' [fanStage])) rootPath
             = Inr fanStage"
    by (simp add: rootPath_def)
  have f: "fields fanStage ! 1 = FilteredAliasedName ''b'' None (Some [f0, f1, f2])"
          "(1::nat) < length (fields fanStage)" "filterList fanStage = Some [f0, f1]"
    by (simp_all add: fanStage_def)
  have e1: "set_fields ((fields fanStage)[1 :=
                          FilteredAliasedName ''b'' None
                            (Some (take 1 [f0, f1, f2] @ drop (Suc 1) [f0, f1, f2]))]) fanStage
        = PipeSegment Reduce
                    [FieldRef ''a'', FilteredAliasedName ''b'' None (Some [f0, f2])]
                    (Some [f0, f1]) None None None"
    by (simp add: fanStage_def)
  have e2: "set_filterList (Some (take 0 [f0, f1] @ drop (Suc 0) [f0, f1])) fanStage
        = PipeSegment Reduce
                    [FieldRef ''a'', FilteredAliasedName ''b'' None (Some [f0, f1, f2])]
                    (Some [f1]) None None None"
    by (simp add: fanStage_def)
  from removeFilter_field_branch_uses_fieldIndex [OF h, where fieldIndex = 1 and filterIndex = 0
      and n = "''b''" and a = None and fl = "[f0, f1, f2]" and sl = "[f0, f1]"]
  show ?thesis unfolding e1 e2 using h f by blast
qed


subsection \<open>Setting a limit\<close>

text \<open>
  C10. On a reduce stage, \<open>addLimit(path, n, byField, dir)\<close> with a \<open>byField\<close> sets the limit
  and replaces the whole order-by list by the single entry for \<open>byField.path\<close>; without a
  \<open>byField\<close> it sets the limit and changes nothing else, so the order-by list stays. On a
  stage of another kind the call throws and leaves the builder as the expansion left it.
\<close>

theorem addLimit_replaces_orderBy:
  assumes "autoExpandStageAtPath nsd b path = Inr (b1, stage)"
  shows "(seg_type stage = Reduce \<longrightarrow>
            (\<exists>b'. addLimit nsd b path n (Some byField) dir = Inr b'
               \<and> stageAtPath (pipeline b') path =
                   Inr (set_orderBy (Some [OrderBy (OrderName (sf_path byField)) dir])
                          (set_limit (Some n) stage)))
          \<and> (\<exists>b' stage'. addLimit nsd b path n None dir = Inr b'
               \<and> stageAtPath (pipeline b') path = Inr stage'
               \<and> stage' = set_limit (Some n) stage
               \<and> orderBy stage' = orderBy stage))
       \<and> (seg_type stage \<noteq> Reduce \<longrightarrow>
            addLimit nsd b path n byFieldOpt dir = Inl (Error ''Don't know how to handle this yet'')
          \<and> thrown nsd (AddLimit path n byFieldOpt dir) b = b1
          \<and> stageAtPath (pipeline b1) path = Inr stage)"
proof (intro conjI impI)
  assume r: "seg_type stage = Reduce"
  have s1: "addLimitStage n (Some byField) dir stage =
        Inr (set_orderBy (Some [OrderBy (OrderName (sf_path byField)) dir])
               (set_limit (Some n) stage))"
    using r by (simp add: addLimitStage_def)
  from onExpandedStage_result [where f = "addLimitStage n (Some byField) dir", OF assms s1]
  show "\<exists>b'. addLimit nsd b path n (Some byField) dir = Inr b'
               \<and> stageAtPath (pipeline b') path =
                   Inr (set_orderBy (Some [OrderBy (OrderName (sf_path byField)) dir])
                          (set_limit (Some n) stage))"
    by (auto simp: addLimit_def)
  have s2: "addLimitStage n None dir stage = Inr (set_limit (Some n) stage)"
    using r by (simp add: addLimitStage_def)
  from onExpandedStage_result [where f = "addLimitStage n None dir", OF assms s2]
  show "\<exists>b' stage'. addLimit nsd b path n None dir = Inr b'
               \<and> stageAtPath (pipeline b') path = Inr stage'
               \<and> stage' = set_limit (Some n) stage
               \<and> orderBy stage' = orderBy stage"
    by (auto simp: addLimit_def)
next
  assume r: "seg_type stage \<noteq> Reduce"
  then show "addLimit nsd b path n byFieldOpt dir = Inl (Error ''Don't know how to handle this yet'')"
    using assms by (simp add: addLimit_def onExpandedStage_def addLimitStage_def)
  show "thrown nsd (AddLimit path n byFieldOpt dir) b = b1"
    using assms by (simp add: expandedThrown_def)
  show "stageAtPath (pipeline b1) path = Inr stage"
    by (rule autoExpand_stage [OF assms])
qed

text \<open>
  A stage ordered by two entries: a limit by field \<open>b\<close> leaves the one entry for \<open>b\<close>;
  a limit without a field keeps both entries.
\<close>

theorem addLimit_replaces_orderBy_witness:
  "autoExpandStageAtPath exNsd (QueryBuilder exSource ''new_query'' [dupOrderStage]) rootPath
     = Inr (QueryBuilder exSource ''new_query'' [dupOrderStage], dupOrderStage)
   \<and> seg_type dupOrderStage = Reduce
   \<and> (\<exists>b'. addLimit exNsd (QueryBuilder exSource ''new_query'' [dupOrderStage]) rootPath 5
              (Some (SchemaField ''b'' ''b'')) (Some Desc) = Inr b'
         \<and> stageAtPath (pipeline b') rootPath =
             Inr (PipeSegment Reduce [FieldRef ''a''] None (Some 5)
                    (Some [OrderBy (OrderName ''b'') (Some Desc)]) None))
   \<and> (\<exists>b'. addLimit exNsd (QueryBuilder exSource ''new_query'' [dupOrderStage]) rootPath 5
              None None = Inr b'
         \<and> stageAtPath (pipeline b') rootPath =
             Inr (PipeSegment Reduce [FieldRef ''a''] None (Some 5)
                    (Some [OrderBy (OrderName ''a'') (Some Asc),
                           OrderBy (OrderName ''a'') (Some Desc)]) None))"
proof -
  have h: "autoExpandStageAtPath exNsd (QueryBuilder exSource ''new_query'' [dupOrderStage]) rootPath
     = Inr (QueryBuilder exSource ''new_query'' [dupOrderStage], dupOrderStage)"
    by (simp add: autoExpandStageAtPath_def rootPath_def)
  have r: "seg_type dupOrderStage = Reduce"
    by (simp add: dupOrderStage_def)
  have e1: "set_orderBy (Some [OrderBy (OrderName (sf_path (SchemaField ''b'' ''b''))) (Some Desc)])
              (set_limit (Some 5) dupOrderStage)
            = PipeSegment Reduce [FieldRef ''a''] None (Some 5)
                    (Some [OrderBy (OrderName ''b'') (Some Desc)]) None"
    by (simp add: dupOrderStage_def)
  have e2: "set_limit (Some 5) dupOrderStage
            = PipeSegment Reduce [FieldRef ''a''] None (Some 5)
                    (Some [OrderBy (OrderName ''a'') (Some Asc),
                           OrderBy (OrderName ''a'') (Some Desc)]) None"
    by (simp add: dupOrderStage_def)
  from addLimit_replaces_orderBy [OF h, where n = 5 and byField = "SchemaField ''b'' ''b''"
      and dir = "Some Desc"] r
  have a: "\<exists>b'. addLimit exNsd (QueryBuilder exSource ''new_query'' [dupOrderStage]) rootPath 5
              (Some (SchemaField ''b'' ''b'')) (Some Desc) = Inr b'
         \<and> stageAtPath (pipeline b') rootPath =
             Inr (PipeSegment Reduce [FieldRef ''a''] None (Some 5)
                    (Some [OrderBy (OrderName ''b'') (Some Desc)]) None)"
    unfolding e1 by blast
  from addLimit_replaces_orderBy [OF h, where n = 5 and dir = None] r
  have b: "\<exists>b'. addLimit exNsd (QueryBuilder exSource ''new_query'' [dupOrderStage]) rootPath 5
              None None = Inr b'
         \<and> stageAtPath (pipeline b') rootPath =
             Inr (PipeSegment Reduce [FieldRef ''a''] None (Some 5)
                    (Some [OrderBy (OrderName ''a'') (Some Asc),
                           OrderBy (OrderName ''a'') (Some Desc)]) None)"
    unfolding e2 by blast
  show ?thesis using h r a b by blast
qed

text \<open>
  C10 as stated fails on a stage that is not a reduce stage. Loading \<open>top_then_list\<close>
  into a new builder copies its project stage as stage 1; \<open>addLimit\<close> on that stage throws
  and the stage has no limit afterwards.
\<close>

theorem addLimit_project_stage_counterexample:
  "runOps exNsd [LoadQuery ''top_then_list''] (newBuilder mixedSource)
     = Some (QueryBuilder mixedSource ''top_then_list'' [byRegion0, projNoLimit])
   \<and> addLimit exNsd (QueryBuilder mixedSource ''top_then_list'' [byRegion0, projNoLimit])
        (Hop 1 None None) 5 None None
       = Inl (Error ''Don't know how to handle this yet'')
   \<and> after exNsd (AddLimit (Hop 1 None None) 5 None None)
        (QueryBuilder mixedSource ''top_then_list'' [byRegion0, projNoLimit])
       = Some (QueryBuilder mixedSource ''top_then_list'' [byRegion0, projNoLimit])
   \<and> limit projNoLimit = None"
proof -
  let ?b = "QueryBuilder mixedSource ''top_then_list'' [byRegion0, projNoLimit]"
  have g: "getField exNsd mixedSource mixedSource ''top_then_list''
             = Inr (TurtleDef ''top_then_list'' None [byRegion0, projNoLimit])"
    by (simp add: getField_def mixedSource_def orElse_def)
  have m: "mergeStage (PipeSegment Reduce [] None None None None) byRegion0 = Inr byRegion0"
    by (simp add: mergeStage_def mergeReduce_def byRegion0_def keepsLoadedFilter_def
        keepsExistingField_def jsonCopy_def)
  have l: "after exNsd (LoadQuery ''top_then_list'') (newBuilder mixedSource) = Some ?b"
    using g m
    by (simp add: after_def loadQuery_def newBuilder_def jsonCopy_def BLANK_QUERY_pipeline_def
        orElse_def)
  have a: "addLimit exNsd ?b (Hop 1 None None) 5 None None
             = Inl (Error ''Don't know how to handle this yet'')"
    by (simp add: addLimit_def onExpandedStage_def autoExpandStageAtPath_def addLimitStage_def
        projNoLimit_def)
  have t: "after exNsd (AddLimit (Hop 1 None None) 5 None None) ?b = Some ?b"
    using a by (simp add: after_def expandedThrown_def autoExpandStageAtPath_def)
  show ?thesis using l a t by (simp add: projNoLimit_def)
qed

subsection \<open>Removing a field\<close>

text \<open>
  C2. \<open>removeField\<close> looks for the first order-by entry that names the removed field and
  deletes that one entry. On a new builder: add the field \<open>a\<close>, order by it twice
  (\<open>addOrderBy\<close> appends without looking for an entry of the same field), and remove the
  field. The second order-by entry for \<open>a\<close> is left behind, with no field \<open>a\<close>.
\<close>

theorem removeField_keeps_second_orderBy_entry:
  "runOps exNsd [AddField rootPath ''a'', AddOrderBy rootPath 0 (Some Asc),
                 AddOrderBy rootPath 0 (Some Desc)] (newBuilder exSource)
     = Some (QueryBuilder exSource ''new_query'' [dupOrderStage])
   \<and> removeField (QueryBuilder exSource ''new_query'' [dupOrderStage]) rootPath 0 =
       Inr (QueryBuilder exSource ''new_query''
              [PipeSegment Reduce [] None None (Some [OrderBy (OrderName ''a'') (Some Desc)]) None])"
proof -
  let ?b1 = "QueryBuilder exSource ''new_query'' [PipeSegment Reduce [FieldRef ''a''] None None None None]"
  let ?b2 = "QueryBuilder exSource ''new_query''
     [PipeSegment Reduce [FieldRef ''a''] None None (Some [OrderBy (OrderName ''a'') (Some Asc)]) None]"
  have a1: "after exNsd (AddField rootPath ''a'') (newBuilder exSource) = Some ?b1"
    by (simp add: after_def addField_def insertField_def autoExpandStageAtPath_def
        getIndexToInsertNewField_def getField_def exSource_def orElse_def spliceIn_def
        newBuilder_def jsonCopy_def BLANK_QUERY_pipeline_def rootPath_def)
  have a2: "after exNsd (AddOrderBy rootPath 0 (Some Asc)) ?b1 = Some ?b2"
    by (simp add: after_def addOrderBy_def onExpandedStage_def autoExpandStageAtPath_def
        addOrderByStage_def rootPath_def)
  have a3: "after exNsd (AddOrderBy rootPath 0 (Some Desc)) ?b2
              = Some (QueryBuilder exSource ''new_query'' [dupOrderStage])"
    by (simp add: after_def addOrderBy_def onExpandedStage_def autoExpandStageAtPath_def
        addOrderByStage_def rootPath_def dupOrderStage_def)
  have r: "removeField (QueryBuilder exSource ''new_query'' [dupOrderStage]) rootPath 0 =
       Inr (QueryBuilder exSource ''new_query''
              [PipeSegment Reduce [] None None (Some [OrderBy (OrderName ''a'') (Some Desc)]) None])"
    by (simp add: removeField_def onStage_def removeFieldStage_def rootPath_def dupOrderStage_def
        splice1_def)
  show ?thesis using a1 a2 a3 r by simp
qed

subsection \<open>Rendering of filters\<close>

lemma filterFragments_render:
  assumes "0 \<le> depth" and "index + length fs = n"
  shows "codeFromFragmentsLoop out depth True (filterFragments index n fs @ rest)
         = codeFromFragmentsLoop (out @ predicateLines depth fs) depth True rest"
  using assms
proof (induction fs arbitrary: index out)
  case Nil
  then show ?case by simp
next
  case (Cons f fs)
  show ?case
  proof (cases fs)
    case Nil
    with Cons.prems show ?thesis
      by (auto simp: indentedLine_def TAB_WIDTH_def)
  next
    case (Cons g gs)
    with Cons.prems have ne: "index \<noteq> n - 1" by auto
    have len: "Suc index + length fs = n" using Cons.prems by simp
    have pl: "predicateLines depth (f # fs)
              = indentedLine depth (code f @ '','') @ predicateLines depth fs"
      using Cons by simp
    have "codeFromFragmentsLoop out depth True (filterFragments index n (f # fs) @ rest)
          = codeFromFragmentsLoop (out @ indentedLine depth (code f @ '','')) depth True
              (filterFragments (Suc index) n fs @ rest)"
      using ne Cons.prems(1) by (simp add: indentedLine_def TAB_WIDTH_def)
    also have "\<dots> = codeFromFragmentsLoop
              ((out @ indentedLine depth (code f @ '','')) @ predicateLines depth fs) depth True rest"
      by (rule Cons.IH [OF Cons.prems(1) len])
    finally show ?thesis by (simp only: pl append_assoc)
  qed
qed

text \<open>
  C8. In the rendered text the filter list of a stage is a \<open>where:\<close> clause. With exactly
  one predicate the predicate follows \<open>where: \<close> on the same line. With two or more, the
  line ends after \<open>where:\<close> and each predicate has its own line, one level deeper, with a
  comma after each but the last; the indentation is back at the stage's level afterwards.
  An empty list writes nothing.
\<close>

theorem where_clause_layout:
  assumes "0 \<le> indent" and "filterList stage = Some fl"
  shows "(length fl = 1 \<longrightarrow>
            codeFromFragmentsLoop out indent sol (stageWhereFragments stage @ rest)
            = codeFromFragmentsLoop
                (out @ (if sol then replicate (nat (indent * TAB_WIDTH)) CHR '' '' else [])
                     @ ''where: '' @ code (hd fl) @ newline) indent True rest)
       \<and> (1 < length fl \<longrightarrow>
            codeFromFragmentsLoop out indent sol (stageWhereFragments stage @ rest)
            = codeFromFragmentsLoop
                (out @ (if sol then replicate (nat (indent * TAB_WIDTH)) CHR '' '' else [])
                     @ ''where:'' @ newline @ predicateLines (indent + 1) fl) indent True rest)
       \<and> (length fl = 0 \<longrightarrow> stageWhereFragments stage = [])"
proof (intro conjI impI)
  assume "length fl = 1"
  then obtain f where fl: "fl = [f]" by (cases fl) auto
  show "codeFromFragmentsLoop out indent sol (stageWhereFragments stage @ rest)
        = codeFromFragmentsLoop
            (out @ (if sol then replicate (nat (indent * TAB_WIDTH)) CHR '' '' else [])
                 @ ''where: '' @ code (hd fl) @ newline) indent True rest"
    using assms fl by (simp add: stageWhereFragments_def getFiltersString_def TAB_WIDTH_def)
next
  assume len: "1 < length fl"
  have d: "0 \<le> indent + 1" using assms(1) by simp
  have "codeFromFragmentsLoop out indent sol (stageWhereFragments stage @ rest)
        = codeFromFragmentsLoop
            (out @ (if sol then replicate (nat (indent * TAB_WIDTH)) CHR '' '' else [])
                 @ ''where:'' @ newline) (indent + 1) True
            (filterFragments 0 (length fl) fl @ OUTDENT # rest)"
    using assms len by (auto simp: stageWhereFragments_def getFiltersString_def TAB_WIDTH_def)
  also have "\<dots> = codeFromFragmentsLoop
            ((out @ (if sol then replicate (nat (indent * TAB_WIDTH)) CHR '' '' else [])
                 @ ''where:'' @ newline) @ predicateLines (indent + 1) fl) (indent + 1) True
            (OUTDENT # rest)"
    by (rule filterFragments_render [OF d]) simp
  finally show "codeFromFragmentsLoop out indent sol (stageWhereFragments stage @ rest)
        = codeFromFragmentsLoop
            (out @ (if sol then replicate (nat (indent * TAB_WIDTH)) CHR '' '' else [])
                 @ ''where:'' @ newline @ predicateLines (indent + 1) fl) indent True rest"
    by simp
next
  assume "length fl = 0"
  then show "stageWhereFragments stage = []"
    using assms(2) by (simp add: stageWhereFragments_def)
qed

text \<open>One filter \<open>x > 0\<close> renders inline; the filters \<open>x > 0\<close>, \<open>y > 1\<close> render on two lines.\<close>

theorem where_clause_layout_witness:
  "(0::int) \<le> 0 \<and> filterList oneFilterStage = Some [f0] \<and> filterList fanStage = Some [f0, f1]
   \<and> codeFromFragments (stageWhereFragments oneFilterStage) = Inr (''where: x > 0'' @ newline)
   \<and> codeFromFragments (stageWhereFragments fanStage)
       = Inr (''where:'' @ newline @ ''  x > 0,'' @ newline @ ''  y > 1'' @ newline)"
proof -
  have h1: "filterList oneFilterStage = Some [f0]" by (simp add: oneFilterStage_def)
  have h2: "filterList fanStage = Some [f0, f1]" by (simp add: fanStage_def)
  have z: "(0::int) \<le> 0" by simp
  from where_clause_layout [OF z h1, of "[]" True "[]"]
  have a: "codeFromFragments (stageWhereFragments oneFilterStage) = Inr (''where: x > 0'' @ newline)"
    by (simp add: codeFromFragments_def f0_def)
  from where_clause_layout [OF z h2, of "[]" True "[]"]
  have b: "codeFromFragments (stageWhereFragments fanStage)
       = Inr (''where:'' @ newline @ ''  x > 0,'' @ newline @ ''  y > 1'' @ newline)"
    by (simp add: codeFromFragments_def f0_def f1_def indentedLine_def TAB_WIDTH_def
        numeral_2_eq_2)
  show ?thesis using h1 h2 a b by simp
qed


subsection \<open>Position of an inserted field\<close>

lemma indexToInsertLoop_spec:
  "\<exists>k. indexToInsertLoop nsd root src so i fs = i + k \<and> k \<le> length fs
       \<and> (\<forall>j<k. \<forall>r. rankOf nsd root src (fs ! j) = Some r \<longrightarrow> r \<le> so)
       \<and> (k < length fs \<longrightarrow> (\<exists>r. rankOf nsd root src (fs ! k) = Some r \<and> so < r))"
proof (induction fs arbitrary: i)
  case Nil
  then show ?case by simp
next
  case (Cons f fs)
  show ?case
  proof (cases "\<exists>d. fieldDefForQueryFieldDef nsd root f src = Inr d \<and> so < sortOrder d")
    case True
    then have "indexToInsertLoop nsd root src so i (f # fs) = i + 0"
      and "\<exists>r. rankOf nsd root src ((f # fs) ! 0) = Some r \<and> so < r"
      by (auto simp: rankOf_def)
    then show ?thesis by (intro exI [of _ 0]) simp
  next
    case False
    then have step: "indexToInsertLoop nsd root src so i (f # fs)
                     = indexToInsertLoop nsd root src so (Suc i) fs"
      and low: "\<forall>r. rankOf nsd root src f = Some r \<longrightarrow> r \<le> so"
      by (auto simp: rankOf_def split: sum.splits)
    from Cons.IH [of "Suc i"] obtain k where
      k: "indexToInsertLoop nsd root src so (Suc i) fs = Suc i + k" "k \<le> length fs"
         "\<forall>j<k. \<forall>r. rankOf nsd root src (fs ! j) = Some r \<longrightarrow> r \<le> so"
         "k < length fs \<longrightarrow> (\<exists>r. rankOf nsd root src (fs ! k) = Some r \<and> so < r)"
      by blast
    have "\<forall>j<Suc k. \<forall>r. rankOf nsd root src ((f # fs) ! j) = Some r \<longrightarrow> r \<le> so"
      using low k(3) by (auto simp: nth_Cons split: nat.splits)
    with step k show ?thesis
      by (intro exI [of _ "Suc k"]) simp
  qed
qed

text \<open>
  C5. \<open>insertField(path, fieldRef)\<close>, once the stage, its live schema and the new field
  resolve: the new field of rank \<open>sortOrder d\<close> (0 dimension, 1 calculation, 2 nested query,
  3 structure) goes to an index \<open>i\<close> such that every earlier field either does not resolve
  or has a rank not above it, and the field at \<open>i\<close>, if any, resolves with a strictly greater
  rank (so \<open>i\<close> is the end of the list when no field qualifies). Fields that do not resolve
  do not abort the insert. A dimension goes before any calculation present.
\<close>

theorem insertField_position:
  assumes "autoExpandStageAtPath nsd b path = Inr (b1, stage)"
    and "sourceForStageAtPath nsd (source b1) (pipeline b1) path = Inr src"
    and "fieldDefForQueryFieldDef nsd (source b1) field src = Inr d"
  shows "\<exists>b' i. insertField nsd b path field = Inr b'
           \<and> stageAtPath (pipeline b') path =
               Inr (set_fields (take i (fields stage) @ field # drop i (fields stage)) stage)
           \<and> i \<le> length (fields stage)
           \<and> (\<forall>j<i. \<forall>r. rankOf nsd (source b1) src (fields stage ! j) = Some r
                        \<longrightarrow> r \<le> sortOrder d)
           \<and> (i < length (fields stage) \<longrightarrow>
                 (\<exists>r. rankOf nsd (source b1) src (fields stage ! i) = Some r \<and> sortOrder d < r))
           \<and> (\<forall>j<length (fields stage).
                 sortOrder d = 0 \<and> rankOf nsd (source b1) src (fields stage ! j) = Some 1
                 \<longrightarrow> i \<le> j)
           \<and> sortOrder d =
               (case d of FieldTypeDef t n a c e \<Rightarrow> if expressionIsCalculation e then 1 else 0
                | TurtleDef n a pl \<Rightarrow> 2 | StructField s \<Rightarrow> 3)"
proof -
  have st: "stageAtPath (pipeline b1) path = Inr stage"
    by (rule autoExpand_stage [OF assms(1)])
  from indexToInsertLoop_spec [of nsd "source b1" src "sortOrder d" 0 "fields stage"]
  obtain i where
    i: "indexToInsertLoop nsd (source b1) src (sortOrder d) 0 (fields stage) = i"
       "i \<le> length (fields stage)"
       "\<forall>j<i. \<forall>r. rankOf nsd (source b1) src (fields stage ! j) = Some r \<longrightarrow> r \<le> sortOrder d"
       "i < length (fields stage) \<longrightarrow>
          (\<exists>r. rankOf nsd (source b1) src (fields stage ! i) = Some r \<and> sortOrder d < r)"
    by auto
  have gi: "getIndexToInsertNewField nsd b1 path field = Inr i"
    using st assms(2,3) i(1) by (simp add: getIndexToInsertNewField_def)
  let ?st' = "set_fields (take i (fields stage) @ field # drop i (fields stage)) stage"
  let ?b' = "set_pipeline (updateStageAtPath (\<lambda>_. ?st') (pipeline b1) path) b1"
  have ins: "insertField nsd b path field = Inr ?b'"
    using assms(1) gi by (simp add: insertField_def spliceIn_def)
  have rd: "stageAtPath (pipeline ?b') path = Inr ?st'"
    using stageAtPath_update [OF st, of "\<lambda>_. ?st'"] by simp
  have dim: "\<forall>j<length (fields stage).
                 sortOrder d = 0 \<and> rankOf nsd (source b1) src (fields stage ! j) = Some 1
                 \<longrightarrow> i \<le> j"
  proof (intro allI impI)
    fix j
    assume "j < length (fields stage)"
      and h: "sortOrder d = 0 \<and> rankOf nsd (source b1) src (fields stage ! j) = Some 1"
    show "i \<le> j"
    proof (rule ccontr)
      assume "\<not> i \<le> j"
      then have "j < i" by simp
      with i(3) h have "(1::nat) \<le> 0" by force
      then show False by simp
    qed
  qed
  have so: "sortOrder d =
               (case d of FieldTypeDef t n a c e \<Rightarrow> if expressionIsCalculation e then 1 else 0
                | TurtleDef n a pl \<Rightarrow> 2 | StructField s \<Rightarrow> 3)"
    by (cases d) simp_all
  show ?thesis
    using ins rd i(2,3,4) dim so by blast
qed


text \<open>
  The stage \<open>[missing, total]\<close>: \<open>missing\<close> is not in the schema and \<open>total\<close> is a
  calculation. Adding the dimension \<open>a\<close> gives \<open>[missing, a, total]\<close>.
\<close>

theorem insertField_position_witness:
  "autoExpandStageAtPath exNsd (QueryBuilder exSource ''new_query'' [mixedStage]) rootPath
     = Inr (QueryBuilder exSource ''new_query'' [mixedStage], mixedStage)
   \<and> sourceForStageAtPath exNsd exSource [mixedStage] rootPath = Inr exSource
   \<and> fieldDefForQueryFieldDef exNsd exSource (FieldRef ''a'') exSource
       = Inr (FieldTypeDef TString ''a'' None None None)
   \<and> rankOf exNsd exSource exSource (FieldRef ''missing'') = None
   \<and> rankOf exNsd exSource exSource (FieldRef ''total'') = Some 1
   \<and> insertField exNsd (QueryBuilder exSource ''new_query'' [mixedStage]) rootPath (FieldRef ''a'')
       = Inr (QueryBuilder exSource ''new_query''
                [PipeSegment Reduce [FieldRef ''missing'', FieldRef ''a'', FieldRef ''total'']
                   None None None None])
   \<and> (\<exists>b' i. insertField exNsd (QueryBuilder exSource ''new_query'' [mixedStage]) rootPath
                 (FieldRef ''a'') = Inr b'
          \<and> stageAtPath (pipeline b') rootPath =
              Inr (set_fields (take i (fields mixedStage) @ FieldRef ''a'' # drop i (fields mixedStage))
                     mixedStage)
          \<and> i \<le> 1)"
proof -
  let ?b = "QueryBuilder exSource ''new_query'' [mixedStage]"
  have h1: "autoExpandStageAtPath exNsd ?b rootPath = Inr (?b, mixedStage)"
    by (simp add: autoExpandStageAtPath_def rootPath_def)
  have h2: "sourceForStageAtPath exNsd (source ?b) (pipeline ?b) rootPath = Inr exSource"
    by (simp add: rootPath_def)
  have h3: "fieldDefForQueryFieldDef exNsd (source ?b) (FieldRef ''a'') exSource
              = Inr (FieldTypeDef TString ''a'' None None None)"
    by (simp add: getField_def exSource_def orElse_def)
  have r1: "rankOf exNsd exSource exSource (FieldRef ''missing'') = None"
    by (simp add: rankOf_def getField_def exSource_def orElse_def)
  have r2: "rankOf exNsd exSource exSource (FieldRef ''total'') = Some 1"
    by (simp add: rankOf_def getField_def exSource_def orElse_def expressionIsCalculation_def)
  have len: "length (fields mixedStage) = 2" "fields mixedStage ! 1 = FieldRef ''total''"
    by (simp_all add: mixedStage_def)
  from insertField_position [OF h1 h2 h3] obtain b' i where
    p: "insertField exNsd ?b rootPath (FieldRef ''a'') = Inr b'"
       "stageAtPath (pipeline b') rootPath =
              Inr (set_fields (take i (fields mixedStage) @ FieldRef ''a'' # drop i (fields mixedStage))
                     mixedStage)"
       "\<forall>j<length (fields mixedStage).
           sortOrder (FieldTypeDef TString ''a'' None None None) = 0
           \<and> rankOf exNsd (source ?b) exSource (fields mixedStage ! j) = Some 1 \<longrightarrow> i \<le> j"
    by blast
  have so: "sortOrder (FieldTypeDef TString ''a'' None None None) = 0"
    by (simp add: expressionIsCalculation_def)
  from p(3) len r2 so have "i \<le> 1" by auto
  with p have ex: "\<exists>b' i. insertField exNsd ?b rootPath (FieldRef ''a'') = Inr b'
          \<and> stageAtPath (pipeline b') rootPath =
              Inr (set_fields (take i (fields mixedStage) @ FieldRef ''a'' # drop i (fields mixedStage))
                     mixedStage)
          \<and> i \<le> 1"
    by blast
  have loop: "indexToInsertLoop exNsd exSource exSource 0 0 (fields mixedStage) = 1"
    by (simp add: mixedStage_def getField_def exSource_def orElse_def expressionIsCalculation_def)
  have gi: "getIndexToInsertNewField exNsd ?b rootPath (FieldRef ''a'') = Inr 1"
    using h2 h3 loop so by (simp add: getIndexToInsertNewField_def rootPath_def)
  have conc: "insertField exNsd ?b rootPath (FieldRef ''a'')
       = Inr (QueryBuilder exSource ''new_query''
                [PipeSegment Reduce [FieldRef ''missing'', FieldRef ''a'', FieldRef ''total'']
                   None None None None])"
    using h1 gi by (simp add: insertField_def spliceIn_def mixedStage_def rootPath_def)
  show ?thesis using h1 h2 h3 r1 r2 conc ex by simp
qed


subsection \<open>Toggling a field twice\<close>










subsection \<open>Merging a loaded query\<close>

lemma loadStages_closed_form:
  assumes "i \<le> length cur"
  shows "loadStages cur i rest =
     (if \<forall>(x, y)\<in>set (zip (drop i cur) rest). seg_type x = Reduce \<and> seg_type y = Reduce
      then Inr (take i cur @ mergePipelines (drop i cur) rest)
      else Inl (Error ''Cannot load query with non-reduce stages''))"
  using assms
proof (induction rest arbitrary: cur i)
  case Nil
  have "mergePipelines (drop i cur) [] = drop i cur"
    by (cases "drop i cur") simp_all
  then show ?case by simp
next
  case (Cons stage rest)
  show ?case
  proof (cases "i < length cur")
    case True
    then have d: "drop i cur = cur ! i # drop (Suc i) cur"
      by (simp add: Cons_nth_drop_Suc)
    show ?thesis
    proof (cases "seg_type (cur ! i) = Reduce \<and> seg_type stage = Reduce")
      case False
      then show ?thesis using True d by (auto simp: mergeStage_def)
    next
      case red: True
      let ?m = "mergeReduce (cur ! i) stage"
      have le: "Suc i \<le> length (cur[i := ?m])" using True by simp
      have t: "take (Suc i) (cur[i := ?m]) = take i cur @ [?m]"
        using True by (simp add: take_Suc_conv_app_nth)
      have "loadStages cur i (stage # rest) = loadStages (cur[i := ?m]) (Suc i) rest"
        using True red by (simp add: mergeStage_def)
      also note Cons.IH [OF le]
      finally show ?thesis using red d t by simp
    qed
  next
    case False
    with Cons.prems have eq: "i = length cur" by simp
    have le: "Suc i \<le> length (cur @ [jsonCopy stage])" using eq by simp
    have "loadStages cur i (stage # rest) = loadStages (cur @ [jsonCopy stage]) (Suc i) rest"
      using False by simp
    also note Cons.IH [OF le]
    finally show ?thesis using eq by (simp add: jsonCopy_def)
  qed
qed

lemma mergePipelines_nth_common:
  "i < length xs \<Longrightarrow> i < length ys \<Longrightarrow> mergePipelines xs ys ! i = mergeReduce (xs ! i) (ys ! i)"
  by (induction xs ys arbitrary: i rule: mergePipelines.induct) (auto simp: nth_Cons split: nat.splits)

lemma mergePipelines_nth_loaded:
  "length xs \<le> i \<Longrightarrow> i < length ys \<Longrightarrow> mergePipelines xs ys ! i = ys ! i"
  by (induction xs ys arbitrary: i rule: mergePipelines.induct) (auto simp: nth_Cons split: nat.splits)

lemma mergePipelines_length:
  "length (mergePipelines xs ys) = max (length xs) (length ys)"
  by (induction xs ys rule: mergePipelines.induct) auto

lemma zip_all_nth:
  "(\<forall>(x, y)\<in>set (zip xs ys). P x y) \<longleftrightarrow> (\<forall>i. i < length xs \<and> i < length ys \<longrightarrow> P (xs ! i) (ys ! i))"
  by (auto simp: set_zip)


lemma getField_by_region:
  "getField exNsd loadSource loadSource ''by_region''
     = Inr (TurtleDef ''by_region'' None [byRegion0, byRegion1])"
  by (simp add: getField_def loadSource_def orElse_def)

lemma getField_projected:
  "getField exNsd loadSource loadSource ''projected'' = Inr (TurtleDef ''projected'' None [projStage])"
  by (simp add: getField_def loadSource_def orElse_def)

lemma mergeReduce_current0: "mergeReduce current0 byRegion0 = merged0"
  by (simp add: mergeReduce_def current0_def byRegion0_def merged0_def keepsLoadedFilter_def
      keepsExistingField_def jsonCopy_def f0_def f1_def f2_def)

lemma mergeReduce_current1: "mergeReduce current1 byRegion1 = merged1"
  by (simp add: mergeReduce_def current1_def byRegion1_def merged1_def keepsLoadedFilter_def
      keepsExistingField_def jsonCopy_def)

lemma mergeReduce_emptyStage: "mergeReduce emptyStage byRegion0 = byRegion0"
  by (simp add: mergeReduce_def emptyStage_def byRegion0_def keepsLoadedFilter_def
      keepsExistingField_def jsonCopy_def)

lemma loadQuery_closed_form:
  assumes "getField nsd (source b) (source b) queryPath = Inr (TurtleDef n a defPipeline)"
  shows "loadQuery nsd b queryPath =
           (if \<forall>i. i < length (pipeline b) \<and> i < length defPipeline \<longrightarrow>
                    seg_type (pipeline b ! i) = Reduce \<and> seg_type (defPipeline ! i) = Reduce
            then Inr (QueryBuilder (source b) (orElse a n)
                        (mergePipelines (pipeline b) defPipeline))
            else Inl (Error ''Cannot load query with non-reduce stages''))"
proof -
  have "loadStages (pipeline b) 0 defPipeline =
     (if \<forall>i. i < length (pipeline b) \<and> i < length defPipeline \<longrightarrow>
              seg_type (pipeline b ! i) = Reduce \<and> seg_type (defPipeline ! i) = Reduce
      then Inr (mergePipelines (pipeline b) defPipeline)
      else Inl (Error ''Cannot load query with non-reduce stages''))"
    using loadStages_closed_form [of 0 "pipeline b" defPipeline]
      zip_all_nth [of "pipeline b" defPipeline
        "\<lambda>x y. seg_type x = Reduce \<and> seg_type y = Reduce"]
    by simp
  then show ?thesis
    using assms by (simp add: loadQuery_def)
qed

text \<open>
  C1, as the code has it. \<open>loadQuery\<close> treats every stage index alike: where both the
  loaded definition and the current pipeline have a stage, the two are merged by the same
  rule as at index 0, and the load fails only if one of the two is not a reduce stage
  (with the error "Cannot load query with non-reduce stages"); a stage the current
  pipeline lacks is copied from the definition.
\<close>

theorem loadQuery_merges_every_common_stage:
  assumes "getField nsd (source b) (source b) queryPath = Inr (TurtleDef n a defPipeline)"
  shows "loadQuery nsd b queryPath =
           (if \<forall>i. i < length (pipeline b) \<and> i < length defPipeline \<longrightarrow>
                    seg_type (pipeline b ! i) = Reduce \<and> seg_type (defPipeline ! i) = Reduce
            then Inr (QueryBuilder (source b) (orElse a n)
                        (mergePipelines (pipeline b) defPipeline))
            else Inl (Error ''Cannot load query with non-reduce stages''))
       \<and> (\<forall>i. i < length (pipeline b) \<and> i < length defPipeline \<longrightarrow>
              mergePipelines (pipeline b) defPipeline ! i
                = mergeReduce (pipeline b ! i) (defPipeline ! i))
       \<and> (\<forall>i. length (pipeline b) \<le> i \<and> i < length defPipeline \<longrightarrow>
              mergePipelines (pipeline b) defPipeline ! i = defPipeline ! i)"
  using loadQuery_closed_form [OF assms]
  by (simp add: mergePipelines_nth_common mergePipelines_nth_loaded)

text \<open>
  Loading the two-stage query \<open>by_region\<close> into a blank query: stage 0 is merged with the
  empty stage, stage 1 is copied.
\<close>

theorem loadQuery_merges_every_common_stage_witness:
  "getField exNsd loadSource loadSource ''by_region''
     = Inr (TurtleDef ''by_region'' None [byRegion0, byRegion1])
   \<and> loadQuery exNsd (QueryBuilder loadSource ''new_query'' [emptyStage]) ''by_region''
       = Inr (QueryBuilder loadSource ''by_region'' [byRegion0, byRegion1])"
proof -
  let ?b = "QueryBuilder loadSource ''new_query'' [emptyStage]"
  have g: "getField exNsd (source ?b) (source ?b) ''by_region''
             = Inr (TurtleDef ''by_region'' None [byRegion0, byRegion1])"
    using getField_by_region by simp
  have r: "seg_type emptyStage = Reduce" "seg_type byRegion0 = Reduce"
    by (simp_all add: emptyStage_def byRegion0_def)
  from loadQuery_merges_every_common_stage [OF g]
  have "loadQuery exNsd ?b ''by_region''
          = Inr (QueryBuilder loadSource (orElse None ''by_region'')
                   (mergePipelines [emptyStage] [byRegion0, byRegion1]))"
    using r by simp
  then show ?thesis
    using getField_by_region by (simp add: mergeReduce_emptyStage orElse_def)
qed

text \<open>
  C1 as stated fails: with two reduce stages on both sides, stage 1 is merged and the
  load succeeds.
\<close>

theorem loadQuery_stage1_counterexample:
  "getField exNsd loadSource loadSource ''by_region''
     = Inr (TurtleDef ''by_region'' None [byRegion0, byRegion1])
   \<and> loadQuery exNsd (QueryBuilder loadSource ''new_query'' [current0, current1]) ''by_region''
       = Inr (QueryBuilder loadSource ''by_region'' [merged0, merged1])"
proof -
  have r: "seg_type current0 = Reduce" "seg_type byRegion0 = Reduce"
          "seg_type current1 = Reduce" "seg_type byRegion1 = Reduce"
    by (simp_all add: current0_def byRegion0_def current1_def byRegion1_def)
  have "loadStages [current0, current1] 0 [byRegion0, byRegion1] = Inr [merged0, merged1]"
    using r by (simp add: mergeStage_def mergeReduce_current0 mergeReduce_current1)
  then show ?thesis
    using getField_by_region by (simp add: loadQuery_def orElse_def)
qed


subsection \<open>The merged first stage\<close>

lemma keepsLoadedFilter_iff:
  "keepsLoadedFilter (Some efs) f \<longleftrightarrow> code f \<notin> code ` set efs"
  "keepsLoadedFilter None f"
proof -
  have "(\<exists>x. x \<in> set efs \<and> code x = code f) \<longleftrightarrow> code f \<in> code ` set efs"
    by (metis image_iff)
  then show "keepsLoadedFilter (Some efs) f \<longleftrightarrow> code f \<notin> code ` set efs"
    by (simp add: keepsLoadedFilter_def find_None_iff)
  show "keepsLoadedFilter None f"
    by (simp add: keepsLoadedFilter_def)
qed

lemma keepsExistingField_iff:
  assumes "FieldRef [] \<notin> set lfs"
  shows "keepsExistingField lfs f \<longleftrightarrow> nameOf f \<notin> nameOf ` set lfs"
proof (cases "find (\<lambda>otherField. nameOf otherField = nameOf f) lfs")
  case None
  have k: "keepsExistingField lfs f"
    by (simp only: keepsExistingField_def None option.case)
  from None have "\<not> (\<exists>x. x \<in> set lfs \<and> nameOf x = nameOf f)"
    by (simp add: find_None_iff)
  then have "nameOf f \<notin> nameOf ` set lfs" by (metis image_iff)
  with k show ?thesis by simp
next
  case (Some o1)
  then have o: "o1 \<in> set lfs" "nameOf o1 = nameOf f"
    by (auto simp: find_Some_iff)
  have ne: "o1 \<noteq> FieldRef []" using o(1) assms by auto
  have "truthyField o1"
  proof (cases o1)
    case (FieldRef s)
    with ne show ?thesis by simp
  qed simp_all
  then have k: "\<not> keepsExistingField lfs f"
    by (simp only: keepsExistingField_def Some option.case simp_thms)
  from o have "nameOf f \<in> nameOf ` set lfs" by (metis image_iff)
  with k show ?thesis by simp
qed

lemma map_jsonCopy: "map jsonCopy xs = xs"
  by (induction xs) (simp_all add: jsonCopy_def)

lemma mergeReduce_limit:
  "limit (mergeReduce e s) =
     (case limit s of None \<Rightarrow> limit e | Some k \<Rightarrow> if k \<noteq> 0 then Some k else limit e)"
  by (simp add: mergeReduce_def Let_def split: option.splits)

lemma mergeReduce_filterList:
  "filterList (mergeReduce e s) =
     (case filterList s of
        None \<Rightarrow> filterList e
      | Some lf \<Rightarrow> Some ((case filterList e of None \<Rightarrow> [] | Some efs \<Rightarrow> efs)
                         @ filter (keepsLoadedFilter (filterList e)) lf))"
  by (simp add: mergeReduce_def Let_def split: option.splits)

lemma mergeReduce_fields:
  "fields (mergeReduce e s) = fields s @ filter (keepsExistingField (fields s)) (fields e)"
  by (simp add: mergeReduce_def Let_def map_jsonCopy split: option.splits)

text \<open>
  C6, as the code has it. When both have a stage 0 and every stage common to the two
  pipelines is a reduce stage, \<open>loadQuery\<close> succeeds and the merged stage 0 has: the loaded
  stage's limit when that is present and not 0, else the existing limit; as filter list
  the existing filters followed by the loaded filters whose source text no existing filter
  has (the existing list unchanged when the loaded stage has none); as field list the
  loaded fields followed by the existing fields whose display name no loaded field has
  (for a loaded list without the empty bare name).
\<close>

theorem loadQuery_stage0_merge:
  assumes "getField nsd (source b) (source b) queryPath = Inr (TurtleDef n a (loaded # defRest))"
    and "pipeline b = existing # curRest"
    and "\<forall>i. i < length (pipeline b) \<and> i < length (loaded # defRest) \<longrightarrow>
             seg_type (pipeline b ! i) = Reduce \<and> seg_type ((loaded # defRest) ! i) = Reduce"
  shows "\<exists>b' merged rest'. loadQuery nsd b queryPath = Inr b'
       \<and> pipeline b' = merged # rest'
       \<and> (\<forall>k. limit loaded = Some k \<and> k \<noteq> 0 \<longrightarrow> limit merged = Some k)
       \<and> (limit loaded = None \<longrightarrow> limit merged = limit existing)
       \<and> (\<forall>lf. filterList loaded = Some lf \<longrightarrow>
             filterList merged =
               Some ((case filterList existing of None \<Rightarrow> [] | Some efs \<Rightarrow> efs)
                     @ filter (\<lambda>f. code f \<notin> code ` (case filterList existing of
                                                        None \<Rightarrow> {} | Some efs \<Rightarrow> set efs)) lf))
       \<and> (filterList loaded = None \<longrightarrow> filterList merged = filterList existing)
       \<and> (FieldRef [] \<notin> set (fields loaded) \<longrightarrow>
             fields merged =
               fields loaded
               @ filter (\<lambda>f. nameOf f \<notin> nameOf ` set (fields loaded)) (fields existing))"
proof -
  let ?m = "mergeReduce existing loaded"
  let ?b' = "QueryBuilder (source b) (orElse a n) (mergePipelines (pipeline b) (loaded # defRest))"
  from loadQuery_closed_form [OF assms(1)] assms(3)
  have l: "loadQuery nsd b queryPath = Inr ?b'" by simp
  have p: "pipeline ?b' = ?m # mergePipelines curRest defRest"
    using assms(2) by simp
  have lim1: "\<forall>k. limit loaded = Some k \<and> k \<noteq> 0 \<longrightarrow> limit ?m = Some k"
    by (simp add: mergeReduce_limit)
  have lim2: "limit loaded = None \<longrightarrow> limit ?m = limit existing"
    by (simp add: mergeReduce_limit)
  have fl1: "\<forall>lf. filterList loaded = Some lf \<longrightarrow>
             filterList ?m =
               Some ((case filterList existing of None \<Rightarrow> [] | Some efs \<Rightarrow> efs)
                     @ filter (\<lambda>f. code f \<notin> code ` (case filterList existing of
                                                        None \<Rightarrow> {} | Some efs \<Rightarrow> set efs)) lf)"
    by (cases "filterList existing")
      (simp_all add: mergeReduce_filterList keepsLoadedFilter_iff cong: filter_cong)
  have fl2: "filterList loaded = None \<longrightarrow> filterList ?m = filterList existing"
    by (simp add: mergeReduce_filterList)
  have fs: "FieldRef [] \<notin> set (fields loaded) \<longrightarrow>
             fields ?m =
               fields loaded
               @ filter (\<lambda>f. nameOf f \<notin> nameOf ` set (fields loaded)) (fields existing)"
    by (simp add: mergeReduce_fields keepsExistingField_iff cong: filter_cong)
  show ?thesis
  proof (intro exI conjI)
    show "loadQuery nsd b queryPath = Inr ?b'" by (rule l)
    show "pipeline ?b' = ?m # mergePipelines curRest defRest" by (rule p)
    show "\<forall>k. limit loaded = Some k \<and> k \<noteq> 0 \<longrightarrow> limit ?m = Some k" by (rule lim1)
    show "limit loaded = None \<longrightarrow> limit ?m = limit existing" by (rule lim2)
    show "\<forall>lf. filterList loaded = Some lf \<longrightarrow>
             filterList ?m =
               Some ((case filterList existing of None \<Rightarrow> [] | Some efs \<Rightarrow> efs)
                     @ filter (\<lambda>f. code f \<notin> code ` (case filterList existing of
                                                        None \<Rightarrow> {} | Some efs \<Rightarrow> set efs)) lf)"
      by (rule fl1)
    show "filterList loaded = None \<longrightarrow> filterList ?m = filterList existing" by (rule fl2)
    show "FieldRef [] \<notin> set (fields loaded) \<longrightarrow>
             fields ?m =
               fields loaded
               @ filter (\<lambda>f. nameOf f \<notin> nameOf ` set (fields loaded)) (fields existing)"
      by (rule fs)
  qed
qed

text \<open>
  Scenario C of the spec: \<open>by_region\<close> has \<open>limit: 10\<close> and the current stage 0 has none.
  The merged stage 0 has the limit 10, the fields \<open>a\<close> (loaded), \<open>b\<close> and \<open>total\<close>
  (kept; the existing \<open>a\<close> collides), and the filters \<open>f0, f1\<close> (existing) and \<open>f2\<close>.
\<close>

theorem loadQuery_stage0_merge_witness:
  "getField exNsd loadSource loadSource ''by_region''
     = Inr (TurtleDef ''by_region'' None [byRegion0, byRegion1])
   \<and> seg_type current0 = Reduce \<and> seg_type byRegion0 = Reduce
   \<and> limit byRegion0 = Some 10 \<and> limit current0 = None
   \<and> (\<exists>b' merged rest'.
         loadQuery exNsd (QueryBuilder loadSource ''new_query'' [current0]) ''by_region'' = Inr b'
         \<and> pipeline b' = merged # rest'
         \<and> limit merged = Some 10
         \<and> filterList merged = Some [f0, f1, f2]
         \<and> fields merged = [FieldRef ''a'', FieldRef ''b'', FieldRef ''total''])"
proof -
  let ?b = "QueryBuilder loadSource ''new_query'' [current0]"
  have g: "getField exNsd (source ?b) (source ?b) ''by_region''
             = Inr (TurtleDef ''by_region'' None (byRegion0 # [byRegion1]))"
    using getField_by_region by simp
  have p: "pipeline ?b = current0 # []" by simp
  have r: "seg_type current0 = Reduce" "seg_type byRegion0 = Reduce"
    by (simp_all add: current0_def byRegion0_def)
  have a: "\<forall>i. i < length (pipeline ?b) \<and> i < length (byRegion0 # [byRegion1]) \<longrightarrow>
             seg_type (pipeline ?b ! i) = Reduce \<and> seg_type ((byRegion0 # [byRegion1]) ! i) = Reduce"
    using r by simp
  have v: "limit byRegion0 = Some 10" "limit current0 = None"
    "filterList byRegion0 = Some [f0, f2]" "filterList current0 = Some [f0, f1]"
    "fields byRegion0 = [FieldRef ''a'']"
    "fields current0 = [FieldRef ''b'', FieldRef ''a'', FieldRef ''total'']"
    by (simp_all add: byRegion0_def current0_def)
  from loadQuery_stage0_merge [OF g p a] obtain b' merged rest' where
    m: "loadQuery exNsd ?b ''by_region'' = Inr b'" "pipeline b' = merged # rest'"
       "\<forall>k. limit byRegion0 = Some k \<and> k \<noteq> 0 \<longrightarrow> limit merged = Some k"
       "\<forall>lf. filterList byRegion0 = Some lf \<longrightarrow>
             filterList merged =
               Some ((case filterList current0 of None \<Rightarrow> [] | Some efs \<Rightarrow> efs)
                     @ filter (\<lambda>f. code f \<notin> code ` (case filterList current0 of
                                                        None \<Rightarrow> {} | Some efs \<Rightarrow> set efs)) lf)"
       "FieldRef [] \<notin> set (fields byRegion0) \<longrightarrow>
             fields merged =
               fields byRegion0
               @ filter (\<lambda>f. nameOf f \<notin> nameOf ` set (fields byRegion0)) (fields current0)"
    by blast
  have l: "limit merged = Some 10" using m(3) v(1) by simp
  have f: "filterList merged = Some [f0, f1, f2]"
    using m(4) v(3,4) by (simp add: f0_def f1_def f2_def)
  have s: "fields merged = [FieldRef ''a'', FieldRef ''b'', FieldRef ''total'']"
    using m(5) v(5,6) by simp
  show ?thesis
    using getField_by_region r v(1,2) m(1,2) l f s by blast
qed

text \<open>
  C6 as stated fails for the filters: only a loaded filter whose text an existing filter
  has is left out. On a new builder, add the filter \<open>f0\<close> twice and load \<open>by_region\<close>
  (filters \<open>f0, f2\<close>): the merged stage 0 has \<open>f0\<close> twice.
\<close>

theorem loadQuery_stage0_counterexample:
  "runOps exNsd [AddFilter rootPath f0, AddFilter rootPath f0, LoadQuery ''by_region'']
     (newBuilder loadSource)
     = Some (QueryBuilder loadSource ''by_region''
               [PipeSegment Reduce [FieldRef ''a''] (Some [f0, f0, f2]) (Some 10) None None,
                byRegion1])
   \<and> \<not> distinct (map code [f0, f0, f2])"
proof -
  let ?e = "PipeSegment Reduce [] None None None None"
  let ?b1 = "QueryBuilder loadSource ''new_query'' [PipeSegment Reduce [] (Some [f0]) None None None]"
  let ?b2 = "QueryBuilder loadSource ''new_query'' [PipeSegment Reduce [] (Some [f0, f0]) None None None]"
  have a1: "after exNsd (AddFilter rootPath f0) (newBuilder loadSource) = Some ?b1"
    by (simp add: after_def addFilter_def onExpandedStage_def autoExpandStageAtPath_def
        addFilterStage_def newBuilder_def jsonCopy_def BLANK_QUERY_pipeline_def rootPath_def)
  have a2: "after exNsd (AddFilter rootPath f0) ?b1 = Some ?b2"
    by (simp add: after_def addFilter_def onExpandedStage_def autoExpandStageAtPath_def
        addFilterStage_def rootPath_def)
  have m: "mergeStage (PipeSegment Reduce [] (Some [f0, f0]) None None None) byRegion0
             = Inr (PipeSegment Reduce [FieldRef ''a''] (Some [f0, f0, f2]) (Some 10) None None)"
    by (simp add: mergeStage_def mergeReduce_def byRegion0_def keepsLoadedFilter_def
        keepsExistingField_def jsonCopy_def f0_def f2_def)
  have a3: "after exNsd (LoadQuery ''by_region'') ?b2
              = Some (QueryBuilder loadSource ''by_region''
                        [PipeSegment Reduce [FieldRef ''a''] (Some [f0, f0, f2]) (Some 10) None None,
                         byRegion1])"
    using getField_by_region m by (simp add: after_def loadQuery_def orElse_def jsonCopy_def)
  show ?thesis using a1 a2 a3 by simp
qed

text \<open>
  A stage 0 that is not a reduce stage is not merged: loading \<open>projected\<close>, whose stage 0
  is a project stage with \<open>limit: 10\<close>, fails.
\<close>

lemma loadQuery_non_reduce_stage0:
  "getField exNsd loadSource loadSource ''projected'' = Inr (TurtleDef ''projected'' None [projStage])
   \<and> limit projStage = Some 10
   \<and> loadQuery exNsd (QueryBuilder loadSource ''new_query'' [current0]) ''projected''
       = Inl (Error ''Cannot load query with non-reduce stages'')"
proof -
  have "seg_type projStage \<noteq> Reduce" "limit projStage = Some 10"
    by (simp_all add: projStage_def)
  then show ?thesis
    using getField_projected by (simp add: loadQuery_def mergeStage_def)
qed

subsection \<open>Promotion of a bare reference to a nested query\<close>

lemma set_fields_twice [simp]: "set_fields xs (set_fields ys st) = set_fields xs st"
  by (cases st) simp

lemma query_builder_eqI:
  "source x = s \<Longrightarrow> query_name x = n \<Longrightarrow> pipeline x = p \<Longrightarrow> x = QueryBuilder s n p"
  by (cases x) simp

lemma split_dot_no_dot: "CHR ''.'' \<notin> set s \<Longrightarrow> split_dot s = [s]"
  by (induction s) auto

lemma getField_top_level:
  assumes "CHR ''.'' \<notin> set fname"
    and "find (\<lambda>d. fieldDefName d = fname) (sd_fields src) = Some d"
  shows "getField nsd root src fname = Inr d"
  using assms by (simp add: getField_def split_dot_no_dot)

text \<open>
  Writes to an object that is not reachable leave everything as it is.
\<close>

lemma storeStage_frame:
  "i \<notin> idsDef d \<Longrightarrow> storeStageDef i v d = d"
  "i \<notin> idsStruct s \<Longrightarrow> storeStageStruct i v s = s"
  "i \<notin> idsField f \<Longrightarrow> storeStageField i v f = f"
  "i \<notin> idsStage st \<Longrightarrow> storeStage i v st = st"
  by (induction d and s and f and st) (auto intro: map_idI)

lemma storeTurtle_frame:
  "i \<notin> idsDef d \<Longrightarrow> storeTurtleDef i v d = d"
  "i \<notin> idsStruct s \<Longrightarrow> storeTurtleStruct i v s = s"
  "i \<notin> idsField f \<Longrightarrow> storeTurtleField i v f = f"
  "i \<notin> idsStage st \<Longrightarrow> storeTurtle i v st = st"
  by (induction d and s and f and st) (auto intro: map_idI)

lemma traverse_length [simp]: "length (fst (traverse cs k)) = length cs"
  by (induction cs arbitrary: k) (simp_all add: case_prod_beta)

lemma traverse_range:
  assumes "\<And>c k. c \<in> set cs \<Longrightarrow> k \<le> snd (c k) \<and> ids (fst (c k)) \<subseteq> {k..<snd (c k)}"
  shows "k \<le> snd (traverse cs k)
       \<and> (\<Union>x\<in>set (fst (traverse cs k)). ids x) \<subseteq> {k..<snd (traverse cs k)}"
  using assms
proof (induction cs arbitrary: k)
  case Nil
  then show ?case by simp
next
  case (Cons c cs)
  obtain x k1 where c: "c k = (x, k1)" by (cases "c k")
  obtain xs k2 where t: "traverse cs k1 = (xs, k2)" by (cases "traverse cs k1")
  from Cons.prems [of c k] c have 1: "k \<le> k1" "ids x \<subseteq> {k..<k1}" by auto
  from Cons.IH [of k1] Cons.prems t
  have 2: "k1 \<le> k2" "(\<Union>x\<in>set xs. ids x) \<subseteq> {k1..<k2}" by auto
  have 3: "ids x \<subseteq> {k..<k2}" using 1 2(1) by (auto simp: subset_iff)
  have 4: "(\<Union>x\<in>set xs. ids x) \<subseteq> {k..<k2}"
  proof
    fix i assume "i \<in> (\<Union>x\<in>set xs. ids x)"
    with 2(2) have "i \<in> {k1..<k2}" by blast
    with 1(1) show "i \<in> {k..<k2}" by simp
  qed
  from 1(1) 2(1) 3 4 show ?case using c t by simp
qed

lemma traverse_erase:
  assumes "\<And>x k. x \<in> set xs \<Longrightarrow> er (fst (cp x k)) = er' x"
  shows "map er (fst (traverse (map cp xs) k)) = map er' xs"
  using assms
  by (induction xs arbitrary: k) (simp_all add: case_prod_beta)

lemma copy_spec:
  "k \<le> snd (copyDef d k) \<and> idsDef (fst (copyDef d k)) \<subseteq> {k..<snd (copyDef d k)}"
  "k \<le> snd (copyStruct s k) \<and> idsStruct (fst (copyStruct s k)) \<subseteq> {k..<snd (copyStruct s k)}"
  "k \<le> snd (copyField f k) \<and> idsField (fst (copyField f k)) \<subseteq> {k..<snd (copyField f k)}"
  "k \<le> snd (copyStage st k) \<and> idsStage (fst (copyStage st k)) \<subseteq> {k..<snd (copyStage st k)}"
proof (induction d and s and f and st arbitrary: k and k and k and k)
  case (TurtleDefObj i n a pl)
  let ?t = "traverse (map copyStage pl) (Suc k)"
  have r: "Suc k \<le> snd ?t \<and> (\<Union>x\<in>set (fst ?t). idsStage x) \<subseteq> {Suc k..<snd ?t}"
    by (rule traverse_range) (use TurtleDefObj in auto)
  have "(\<Union>x\<in>set (fst ?t). idsStage x) \<subseteq> {k..<snd ?t}"
  proof
    fix j assume "j \<in> (\<Union>x\<in>set (fst ?t). idsStage x)"
    with r have "j \<in> {Suc k..<snd ?t}" by blast
    then show "j \<in> {k..<snd ?t}" by simp
  qed
  with r show ?case by (simp add: case_prod_beta)
next
  case (StructDefObj n a fs)
  have "k \<le> snd (traverse (map copyDef fs) k)
       \<and> (\<Union>x\<in>set (fst (traverse (map copyDef fs) k)). idsDef x)
           \<subseteq> {k..<snd (traverse (map copyDef fs) k)}"
    by (rule traverse_range) (use StructDefObj in auto)
  then show ?case by (simp add: case_prod_beta)
next
  case (StageObj i t fs fl l ob b)
  let ?t = "traverse (map copyField fs) (Suc k)"
  have r: "Suc k \<le> snd ?t \<and> (\<Union>x\<in>set (fst ?t). idsField x) \<subseteq> {Suc k..<snd ?t}"
    by (rule traverse_range) (use StageObj in auto)
  have "(\<Union>x\<in>set (fst ?t). idsField x) \<subseteq> {k..<snd ?t}"
  proof
    fix j assume "j \<in> (\<Union>x\<in>set (fst ?t). idsField x)"
    with r have "j \<in> {Suc k..<snd ?t}" by blast
    then show "j \<in> {k..<snd ?t}" by simp
  qed
  with r show ?case by (simp add: case_prod_beta)
qed (simp_all add: case_prod_beta)

lemma copy_erase:
  "eraseDef (fst (copyDef d k)) = eraseDef d"
  "eraseStruct (fst (copyStruct s k)) = eraseStruct s"
  "eraseField (fst (copyField f k)) = eraseField f"
  "eraseStage (fst (copyStage st k)) = eraseStage st"
proof (induction d and s and f and st arbitrary: k and k and k and k)
  case (TurtleDefObj i n a pl)
  have "map eraseStage (fst (traverse (map copyStage pl) (Suc k))) = map eraseStage pl"
    by (rule traverse_erase) (use TurtleDefObj in auto)
  then show ?case by (simp add: case_prod_beta)
next
  case (StructDefObj n a fs)
  have "map eraseDef (fst (traverse (map copyDef fs) k)) = map eraseDef fs"
    by (rule traverse_erase) (use StructDefObj in auto)
  then show ?case by (simp add: case_prod_beta)
next
  case (StageObj i t fs fl l ob b)
  have "map eraseField (fst (traverse (map copyField fs) (Suc k))) = map eraseField fs"
    by (rule traverse_erase) (use StageObj in auto)
  then show ?case by (simp add: case_prod_beta)
qed (simp_all add: case_prod_beta)


lemma stage_obj_sel [simp]:
  "stage_id (set_fields_obj fs st) = stage_id st"
  "stage_id (set_filterList_obj fl st) = stage_id st"
  "fields_obj (set_fields_obj fs st) = fs"
  "fields_obj (set_filterList_obj fl st) = fields_obj st"
  "filterList_obj (set_filterList_obj fl st) = fl"
  by (cases st; simp)+

lemma eraseStage_set_filterList_obj [simp]:
  "eraseStage (set_filterList_obj fl st) = set_filterList fl (eraseStage st)"
  by (cases st) simp

lemma filterList_eraseStage [simp]: "filterList (eraseStage st) = filterList_obj st"
  by (cases st) simp

lemma idsStage_set_filterList_obj [simp]:
  "idsStage (set_filterList_obj fl st) = idsStage st"
  by (cases st) simp

lemma idsStage_fields: "x \<in> set (fields_obj st) \<Longrightarrow> idsField x \<subseteq> idsStage st"
  by (cases st) auto

lemma storeStage_self [simp]: "storeStage (stage_id st) v st = v"
  by (cases st) simp

lemma storeStage_other:
  "stage_id st \<noteq> i \<Longrightarrow>
     storeStage i v st = set_fields_obj (map (storeStageField i v) (fields_obj st)) st"
  by (cases st) simp

lemma copyStage_id [simp]: "stage_id (fst (copyStage st k)) = k"
  by (cases st) (simp add: case_prod_beta)

lemma copyStage_next: "k < snd (copyStage st k)"
proof (cases st)
  case (StageObj i t fs fl l ob b)
  have "Suc k \<le> snd (traverse (map copyField fs) (Suc k))
        \<and> (\<Union>x\<in>set (fst (traverse (map copyField fs) (Suc k))). idsField x)
            \<subseteq> {Suc k..<snd (traverse (map copyField fs) (Suc k))}"
    by (rule traverse_range) (use copy_spec(3) in auto)
  with StageObj show ?thesis by (simp add: case_prod_beta)
qed

lemma set_next_id_sel [simp]:
  "source_obj (set_next_id k b) = source_obj b"
  "name_obj (set_next_id k b) = name_obj b"
  "pipeline_obj (set_next_id k b) = pipeline_obj b"
  "next_id (set_next_id k b) = k"
  by (cases b; simp)+

text \<open>
  A write to the first stage of a nested query held at field \<open>f\<close> of a stage, when no
  other object that stage reaches is the written one.
\<close>

lemma storeStage_nested_first:
  assumes "j \<notin> idsStage stage0" and "f < length (fields_obj stage0)"
    and "stage_id st = j" and "\<forall>x\<in>set rest. j \<notin> idsStage x"
  shows "storeStage j v
           (set_fields_obj ((fields_obj stage0)[f := DefinitionObj (TurtleDefObj t n a (st # rest))])
              stage0)
         = set_fields_obj ((fields_obj stage0)[f := DefinitionObj (TurtleDefObj t n a (v # rest))])
              stage0"
proof -
  let ?s = "set_fields_obj ((fields_obj stage0)[f := DefinitionObj (TurtleDefObj t n a (st # rest))])
              stage0"
  from assms(1) have ne: "stage_id ?s \<noteq> j" by (cases stage0) auto
  have others: "map (storeStageField j v) (fields_obj stage0) = fields_obj stage0"
  proof (rule map_idI)
    fix x assume "x \<in> set (fields_obj stage0)"
    with idsStage_fields [of x stage0] assms(1) have "j \<notin> idsField x" by blast
    then show "storeStageField j v x = x" by (rule storeStage_frame(3))
  qed
  have r: "map (storeStage j v) rest = rest"
    by (rule map_idI) (use assms(4) storeStage_frame(4) in blast)
  have sv: "storeStage j v st = v"
    unfolding assms(3) [symmetric] by simp
  have "storeStage j v ?s
        = set_fields_obj (map (storeStageField j v)
            ((fields_obj stage0)[f := DefinitionObj (TurtleDefObj t n a (st # rest))])) ?s"
    using storeStage_other [OF ne] by simp
  also have "map (storeStageField j v)
            ((fields_obj stage0)[f := DefinitionObj (TurtleDefObj t n a (st # rest))])
        = (fields_obj stage0)[f := DefinitionObj (TurtleDefObj t n a (v # rest))]"
    using others r sv by (simp add: map_update)
  finally show ?thesis by (cases stage0) simp
qed


lemma writeStage_sel [simp]:
  "source_obj (writeStage i v b) = storeStageStruct i v (source_obj b)"
  "name_obj (writeStage i v b) = name_obj b"
  "pipeline_obj (writeStage i v b) = map (storeStage i v) (pipeline_obj b)"
  "next_id (writeStage i v b) = next_id b"
  by (simp_all add: writeStage_def)

lemma writeTurtle_sel [simp]:
  "source_obj (writeTurtle i v b) = storeTurtleStruct i v (source_obj b)"
  "name_obj (writeTurtle i v b) = name_obj b"
  "pipeline_obj (writeTurtle i v b) = map (storeTurtle i v) (pipeline_obj b)"
  "next_id (writeTurtle i v b) = next_id b"
  by (simp_all add: writeTurtle_def)

text \<open>The promotion of field \<open>f\<close> of the root's stage 0.\<close>

lemma replaceWithDefinitionObj_root:
  assumes "pipeline_obj b = stage0 # more" and "f < length (fields_obj stage0)"
    and "fields_obj stage0 ! f = FieldRefObj fname"
    and "find (\<lambda>d. fieldDefName (eraseDef d) = fname) (sd_fields_obj (source_obj b)) = Some d"
    and "stage_id stage0 \<notin> idsStruct (source_obj b)"
  shows "\<exists>b1 more1. replaceWithDefinitionObj b (Hop 0 None None) f = Inr b1
           \<and> source_obj b1 = source_obj b
           \<and> pipeline_obj b1 =
               set_fields_obj ((fields_obj stage0)
                  [f := DefinitionObj (fst (copyDef d (next_id b)))]) stage0 # more1
           \<and> next_id b1 = snd (copyDef d (next_id b))"
  using assms
  by (simp add: replaceWithDefinitionObj_def jsonCopyObj_def case_prod_beta storeStage_frame(2))

text \<open>
  A filter added through field \<open>f\<close> of the root's stage 0, which holds a nested query
  whose first stage \<open>x\<close> is no object of the schema and none of the other objects
  that the root stage reaches.
\<close>

lemma addFilterObj_nested_first:
  assumes "pipeline_obj b1 =
             set_fields_obj ((fields_obj stage0)
                [f := DefinitionObj (TurtleDefObj t n a (x # rest))]) stage0 # more1"
    and "f < length (fields_obj stage0)"
    and "stage_id x \<notin> idsStage stage0" and "\<forall>y\<in>set rest. stage_id x \<notin> idsStage y"
    and "stage_id x \<notin> idsStruct (source_obj b1)"
  shows "stageAtPathObj (pipeline_obj b1) (nestedPath f) = Inr x"
    and "source_obj (writeStage (stage_id x) v b1) = source_obj b1"
    and "pipeline_obj (writeStage (stage_id x) v b1) =
           set_fields_obj ((fields_obj stage0)
              [f := DefinitionObj (TurtleDefObj t n a (v # rest))]) stage0
           # map (storeStage (stage_id x) v) more1"
proof -
  show "stageAtPathObj (pipeline_obj b1) (nestedPath f) = Inr x"
    using assms(1,2) by (simp add: nestedPath_def)
  show "source_obj (writeStage (stage_id x) v b1) = source_obj b1"
    using assms(5) by (simp add: storeStage_frame(2))
  show "pipeline_obj (writeStage (stage_id x) v b1) =
           set_fields_obj ((fields_obj stage0)
              [f := DefinitionObj (TurtleDefObj t n a (v # rest))]) stage0
           # map (storeStage (stage_id x) v) more1"
    using storeStage_nested_first [OF assms(3,2) refl assms(4), of v t n a]
    by (simp add: assms(1))
qed


lemma set_filterList_twice [simp]:
  "set_filterList fl (set_filterList fl' st) = set_filterList fl st"
  by (cases st) simp

lemma addFilterObj_at_stage:
  "stageAtPathObj (pipeline_obj b) path = Inr x \<Longrightarrow>
     addFilterObj nsd b path flt =
       Inr (writeStage (stage_id x)
              (set_filterList_obj
                 (Some ((case filterList_obj x of None \<Rightarrow> [] | Some fl \<Rightarrow> fl) @ [flt])) x) b)"
  by (simp add: addFilterObj_def autoExpandStageAtPathObj_def)

text \<open>\<open>stageAtPath\<close> on objects reads what \<open>stageAtPath\<close> reads on their values.\<close>

lemma fields_eraseStage [simp]: "fields (eraseStage st) = map eraseField (fields_obj st)"
  by (cases st) simp

lemma stageAtPathObj_erase:
  "stageAtPath (map eraseStage p) path =
     (case stageAtPathObj p path of Inl e \<Rightarrow> Inl e | Inr st \<Rightarrow> Inr (eraseStage st))"
proof (induction p path rule: stageAtPathObj.induct)
  case (1 current stageIndex rest)
  then show ?case by simp
next
  case (2 current stageIndex fieldIndex rest)
  show ?case
  proof (cases "stageIndex < length current
                 \<and> fieldIndex < length (fields_obj (current ! stageIndex))")
    case False
    then show ?thesis by auto
  next
    case True
    show ?thesis
    proof (cases "fields_obj (current ! stageIndex) ! fieldIndex")
      case (FieldRefObj x)
      with True show ?thesis by simp
    next
      case (FilteredAliasedNameObj n a fl)
      with True show ?thesis by simp
    next
      case (DefinitionObj d)
      show ?thesis
      proof (cases d)
        case (FieldTypeDefObj t n a c e)
        with True DefinitionObj show ?thesis by simp
      next
        case (StructFieldObj sd)
        with True DefinitionObj show ?thesis by simp
      next
        case (TurtleDefObj i n a pl)
        show ?thesis
        proof (cases rest)
          case None
          with True DefinitionObj TurtleDefObj show ?thesis by simp
        next
          case (Some newStagePath)
          from "2.IH" [OF True DefinitionObj TurtleDefObj Some]
          show ?thesis using True DefinitionObj TurtleDefObj Some by simp
        qed
      qed
    qed
  qed
qed

text \<open>
  An undotted name of a nested query among the root schema's own fields resolves to that
  nested query.
\<close>

lemma sd_fields_eraseStruct [simp]: "sd_fields (eraseStruct s) = map eraseDef (sd_fields_obj s)"
  by (cases s) simp

lemma find_eraseDef:
  "find P (map eraseDef fs) = map_option eraseDef (find (\<lambda>d. P (eraseDef d)) fs)"
  by (induction fs) simp_all

lemma undotted_top_level_resolves:
  assumes "CHR ''.'' \<notin> set fname"
    and "find (\<lambda>d. fieldDefName (eraseDef d) = fname) (sd_fields_obj src)
           = Some (TurtleDefObj t n a pl)"
  shows "fieldDefForQueryFieldDef nsd (eraseStruct src) (FieldRef fname) (eraseStruct src)
           = Inr (TurtleDef n a (map eraseStage pl))"
proof -
  have "find (\<lambda>d. fieldDefName d = fname) (sd_fields (eraseStruct src))
          = Some (TurtleDef n a (map eraseStage pl))"
    using assms(2) by (simp add: find_eraseDef)
  from getField_top_level [OF assms(1) this] show ?thesis by simp
qed

text \<open>
  C4, as the code has it. Take the path to stage 0 of the nested query at field \<open>f\<close> of
  the root's stage 0, where that field is a bare name that resolves to a nested query and
  is, as a whole, the display name of a nested query with at least one stage among the
  root schema's own fields, and where the root's stage 0 is not an object of the schema.
  Then \<open>autoExpandStageAtPath\<close> replaces the field in place by a copy of that
  definition of the schema, equal to it in value and made of new objects, and returns
  the first stage of the copy; \<open>addFilter\<close> appends the filter to that stage of the copy,
  and the schema is what it was. The copy is independent of the schema: none of its objects is an object of the
  schema, a write to any of them leaves the schema as it is, and so does a second
  \<open>addFilter\<close> through the same path, which appends to the copy again.
\<close>

theorem addFilter_promotes_independent_copy:
  assumes "allocated b"
    and "pipeline_obj b = stage0 # more"
    and "stage_id stage0 \<notin> idsStruct (source_obj b)"
    and "f < length (fields_obj stage0)"
    and "fields_obj stage0 ! f = FieldRefObj fname"
    and "fieldDefForQueryFieldDef nsd (eraseStruct (source_obj b)) (FieldRef fname)
           (eraseStruct (source_obj b)) = Inr (TurtleDef n' a' pl')"
    and "find (\<lambda>d. fieldDefName (eraseDef d) = fname) (sd_fields_obj (source_obj b))
           = Some (TurtleDefObj t n a (st # rest))"
  shows "(\<exists>b1 t0 st0 rest0 more1.
           autoExpandStageAtPathObj nsd b (nestedPath f) = Inr (b1, st0)
         \<and> source_obj b1 = source_obj b
         \<and> pipeline_obj b1 =
             set_fields_obj ((fields_obj stage0)
                [f := DefinitionObj (TurtleDefObj t0 n a (st0 # rest0))]) stage0 # more1
         \<and> eraseDef (TurtleDefObj t0 n a (st0 # rest0)) = eraseDef (TurtleDefObj t n a (st # rest))
         \<and> (\<forall>i\<in>idsDef (TurtleDefObj t0 n a (st0 # rest0)). i \<notin> idsStruct (source_obj b)))
       \<and> (\<exists>b' copy more'.
           addFilterObj nsd b (nestedPath f) flt = Inr b'
         \<and> source_obj b' = source_obj b
         \<and> pipeline_obj b' =
             set_fields_obj ((fields_obj stage0)[f := DefinitionObj copy]) stage0 # more'
         \<and> eraseDef copy =
             TurtleDef n a
               (set_filterList
                  (Some ((case filterList_obj st of None \<Rightarrow> [] | Some fl \<Rightarrow> fl) @ [flt]))
                  (eraseStage st) # map eraseStage rest)
         \<and> (\<forall>i\<in>idsDef copy.
                i \<notin> idsStruct (source_obj b')
              \<and> source_obj (writeStage i v b') = source_obj b'
              \<and> source_obj (writeTurtle i w b') = source_obj b')
         \<and> (\<exists>b'' copy' more''.
                addFilterObj nsd b' (nestedPath f) flt' = Inr b''
              \<and> source_obj b'' = source_obj b
              \<and> pipeline_obj b'' =
                  set_fields_obj ((fields_obj stage0)[f := DefinitionObj copy']) stage0 # more''
              \<and> eraseDef copy' =
                  TurtleDef n a
                    (set_filterList
                       (Some ((case filterList_obj st of None \<Rightarrow> [] | Some fl \<Rightarrow> fl)
                              @ [flt, flt']))
                       (eraseStage st) # map eraseStage rest)))"
proof -
  let ?k0 = "next_id b"
  let ?d = "TurtleDefObj t n a (st # rest)"
  let ?stc = "fst (copyStage st (Suc ?k0))"
  let ?k1 = "snd (copyStage st (Suc ?k0))"
  let ?restc = "fst (traverse (map copyStage rest) ?k1)"
  let ?k' = "snd (traverse (map copyStage rest) ?k1)"
  have cp: "fst (copyDef ?d ?k0) = TurtleDefObj ?k0 n a (?stc # ?restc)"
    by (simp add: case_prod_beta)
  have src_below: "\<forall>i\<in>idsStruct (source_obj b). i < ?k0"
    using assms(1) by (simp add: allocated_def)
  have st0_below: "\<forall>i\<in>idsStage stage0. i < ?k0"
    using assms(1,2) by (simp add: allocated_def)
  have k1: "Suc ?k0 < ?k1" by (rule copyStage_next)
  have stc_ids: "idsStage ?stc \<subseteq> {Suc ?k0..<?k1}"
    using copy_spec(4) [of "Suc ?k0" st] by simp
  have restc: "?k1 \<le> ?k' \<and> (\<Union>y\<in>set ?restc. idsStage y) \<subseteq> {?k1..<?k'}"
    by (rule traverse_range) (use copy_spec(4) in auto)
  have rest_no: "\<forall>y\<in>set ?restc. Suc ?k0 \<notin> idsStage y"
  proof
    fix y assume y: "y \<in> set ?restc"
    show "Suc ?k0 \<notin> idsStage y"
    proof
      assume "Suc ?k0 \<in> idsStage y"
      with y restc have "Suc ?k0 \<in> {?k1..<?k'}" by blast
      with k1 show False by simp
    qed
  qed
  have er_stc: "eraseStage ?stc = eraseStage st" by (rule copy_erase(4))
  have er_rest: "map eraseStage ?restc = map eraseStage rest"
    by (rule traverse_erase) (rule copy_erase(4))
  have fl_stc: "filterList_obj ?stc = filterList_obj st"
    using er_stc filterList_eraseStage [of ?stc] filterList_eraseStage [of st] by simp
  have j0: "Suc ?k0 \<notin> idsStage stage0" using st0_below by auto
  have js: "Suc ?k0 \<notin> idsStruct (source_obj b)" using src_below by auto
  from replaceWithDefinitionObj_root [OF assms(2,4,5,7,3)] cp
  obtain b1 more1 where
    rw: "replaceWithDefinitionObj b (Hop 0 None None) f = Inr b1"
    and s1: "source_obj b1 = source_obj b"
    and p1: "pipeline_obj b1 =
               set_fields_obj ((fields_obj stage0)
                  [f := DefinitionObj (TurtleDefObj ?k0 n a (?stc # ?restc))]) stage0 # more1"
    by auto
  have idx: "stage_id ?stc = Suc ?k0" by simp
  have n1: "stage_id ?stc \<notin> idsStage stage0" using j0 by simp
  have n2: "\<forall>y\<in>set ?restc. stage_id ?stc \<notin> idsStage y" using rest_no by simp
  have n3: "stage_id ?stc \<notin> idsStruct (source_obj b1)" using js s1 by simp
  note nf1 = addFilterObj_nested_first [OF p1 assms(4) n1 n2 n3]
  have na: "stageAtPathObj (pipeline_obj b) (nestedPath f) = Inl (NotAStageError (FieldRef fname))"
    using assms(2,4,5) by (simp add: nestedPath_def)
  have ae: "autoExpandStageAtPathObj nsd b (nestedPath f) = Inr (b1, ?stc)"
    using na assms(6) rw nf1(1)
    by (simp add: autoExpandStageAtPathObj_def nestedPath_def)
  let ?v2 = "set_filterList_obj
               (Some ((case filterList_obj ?stc of None \<Rightarrow> [] | Some fl \<Rightarrow> fl) @ [flt])) ?stc"
  let ?b' = "writeStage (stage_id ?stc) ?v2 b1"
  let ?copy = "TurtleDefObj ?k0 n a (?v2 # ?restc)"
  have af: "addFilterObj nsd b (nestedPath f) flt = Inr ?b'"
    using ae by (simp add: addFilterObj_def)
  have sb': "source_obj ?b' = source_obj b"
    using nf1(2) [of ?v2] s1 by simp
  have pb': "pipeline_obj ?b' =
               set_fields_obj ((fields_obj stage0)[f := DefinitionObj ?copy]) stage0
               # map (storeStage (stage_id ?stc) ?v2) more1"
    by (rule nf1(3))
  have er: "eraseDef ?copy =
             TurtleDef n a
               (set_filterList
                  (Some ((case filterList_obj st of None \<Rightarrow> [] | Some fl \<Rightarrow> fl) @ [flt]))
                  (eraseStage st) # map eraseStage rest)"
    using er_stc er_rest fl_stc by simp
  have ids_copy0: "\<forall>i\<in>idsDef (TurtleDefObj ?k0 n a (?stc # ?restc)). ?k0 \<le> i"
  proof
    fix i assume "i \<in> idsDef (TurtleDefObj ?k0 n a (?stc # ?restc))"
    then consider "i = ?k0" | "i \<in> idsStage ?stc" | "i \<in> (\<Union>y\<in>set ?restc. idsStage y)"
      by auto
    then show "?k0 \<le> i"
    proof cases
      case 1 then show ?thesis by simp
    next
      case 2 with stc_ids have "i \<in> {Suc ?k0..<?k1}" by blast
      then show ?thesis by simp
    next
      case 3 with restc have "i \<in> {?k1..<?k'}" by blast
      with k1 show ?thesis by simp
    qed
  qed
  have ids_copy: "\<forall>i\<in>idsDef ?copy. ?k0 \<le> i"
    using ids_copy0 by simp
  have promoted: "\<exists>b1 t0 st0 rest0 more1.
           autoExpandStageAtPathObj nsd b (nestedPath f) = Inr (b1, st0)
         \<and> source_obj b1 = source_obj b
         \<and> pipeline_obj b1 =
             set_fields_obj ((fields_obj stage0)
                [f := DefinitionObj (TurtleDefObj t0 n a (st0 # rest0))]) stage0 # more1
         \<and> eraseDef (TurtleDefObj t0 n a (st0 # rest0)) = eraseDef (TurtleDefObj t n a (st # rest))
         \<and> (\<forall>i\<in>idsDef (TurtleDefObj t0 n a (st0 # rest0)). i \<notin> idsStruct (source_obj b))"
  proof (intro exI conjI)
    show "autoExpandStageAtPathObj nsd b (nestedPath f) = Inr (b1, ?stc)" by (rule ae)
    show "source_obj b1 = source_obj b" by (rule s1)
    show "pipeline_obj b1 =
               set_fields_obj ((fields_obj stage0)
                  [f := DefinitionObj (TurtleDefObj ?k0 n a (?stc # ?restc))]) stage0 # more1"
      by (rule p1)
    show "eraseDef (TurtleDefObj ?k0 n a (?stc # ?restc)) = eraseDef (TurtleDefObj t n a (st # rest))"
      using er_stc er_rest by simp
    show "\<forall>i\<in>idsDef (TurtleDefObj ?k0 n a (?stc # ?restc)). i \<notin> idsStruct (source_obj b)"
    proof
      fix i assume "i \<in> idsDef (TurtleDefObj ?k0 n a (?stc # ?restc))"
      with ids_copy0 have "?k0 \<le> i" by blast
      with src_below show "i \<notin> idsStruct (source_obj b)" by auto
    qed
  qed
  have frame: "\<forall>i\<in>idsDef ?copy.
                i \<notin> idsStruct (source_obj ?b')
              \<and> source_obj (writeStage i v ?b') = source_obj ?b'
              \<and> source_obj (writeTurtle i w ?b') = source_obj ?b'"
  proof
    fix i assume "i \<in> idsDef ?copy"
    with ids_copy have "?k0 \<le> i" by blast
    with src_below have ni: "i \<notin> idsStruct (source_obj b)" by auto
    have "source_obj (writeStage i v ?b') = storeStageStruct i v (source_obj b)"
      using sb' by simp
    moreover have "source_obj (writeTurtle i w ?b') = storeTurtleStruct i w (source_obj b)"
      using sb' by simp
    ultimately show "i \<notin> idsStruct (source_obj ?b')
              \<and> source_obj (writeStage i v ?b') = source_obj ?b'
              \<and> source_obj (writeTurtle i w ?b') = source_obj ?b'"
      using ni sb' storeStage_frame(2) [OF ni] storeTurtle_frame(2) [OF ni] by simp
  qed
  have m1: "stage_id ?v2 \<notin> idsStage stage0" using j0 by simp
  have m2: "\<forall>y\<in>set ?restc. stage_id ?v2 \<notin> idsStage y" using rest_no by simp
  have m3: "stage_id ?v2 \<notin> idsStruct (source_obj ?b')" using js sb' by simp
  note nf2 = addFilterObj_nested_first [OF pb' assms(4) m1 m2 m3]
  let ?v3 = "set_filterList_obj
               (Some ((case filterList_obj ?v2 of None \<Rightarrow> [] | Some fl \<Rightarrow> fl) @ [flt'])) ?v2"
  let ?b'' = "writeStage (stage_id ?v2) ?v3 ?b'"
  let ?copy' = "TurtleDefObj ?k0 n a (?v3 # ?restc)"
  have af2: "addFilterObj nsd ?b' (nestedPath f) flt' = Inr ?b''"
    by (rule addFilterObj_at_stage [OF nf2(1)])
  have sb'': "source_obj ?b'' = source_obj b"
    using nf2(2) [of ?v3] sb' by simp
  have pb'': "pipeline_obj ?b'' =
               set_fields_obj ((fields_obj stage0)[f := DefinitionObj ?copy']) stage0
               # map (storeStage (stage_id ?v2) ?v3) (map (storeStage (stage_id ?stc) ?v2) more1)"
    by (rule nf2(3))
  have er2: "eraseDef ?copy' =
             TurtleDef n a
               (set_filterList
                  (Some ((case filterList_obj st of None \<Rightarrow> [] | Some fl \<Rightarrow> fl) @ [flt, flt']))
                  (eraseStage st) # map eraseStage rest)"
    using er_stc er_rest fl_stc by simp
  have second: "\<exists>b'' copy' more''.
                addFilterObj nsd ?b' (nestedPath f) flt' = Inr b''
              \<and> source_obj b'' = source_obj b
              \<and> pipeline_obj b'' =
                  set_fields_obj ((fields_obj stage0)[f := DefinitionObj copy']) stage0 # more''
              \<and> eraseDef copy' =
                  TurtleDef n a
                    (set_filterList
                       (Some ((case filterList_obj st of None \<Rightarrow> [] | Some fl \<Rightarrow> fl)
                              @ [flt, flt']))
                       (eraseStage st) # map eraseStage rest)"
    using af2 sb'' pb'' er2 by blast
  have first: "\<exists>b' copy more'.
           addFilterObj nsd b (nestedPath f) flt = Inr b'
         \<and> source_obj b' = source_obj b
         \<and> pipeline_obj b' =
             set_fields_obj ((fields_obj stage0)[f := DefinitionObj copy]) stage0 # more'
         \<and> eraseDef copy =
             TurtleDef n a
               (set_filterList
                  (Some ((case filterList_obj st of None \<Rightarrow> [] | Some fl \<Rightarrow> fl) @ [flt]))
                  (eraseStage st) # map eraseStage rest)
         \<and> (\<forall>i\<in>idsDef copy.
                i \<notin> idsStruct (source_obj b')
              \<and> source_obj (writeStage i v b') = source_obj b'
              \<and> source_obj (writeTurtle i w b') = source_obj b')
         \<and> (\<exists>b'' copy' more''.
                addFilterObj nsd b' (nestedPath f) flt' = Inr b''
              \<and> source_obj b'' = source_obj b
              \<and> pipeline_obj b'' =
                  set_fields_obj ((fields_obj stage0)[f := DefinitionObj copy']) stage0 # more''
              \<and> eraseDef copy' =
                  TurtleDef n a
                    (set_filterList
                       (Some ((case filterList_obj st of None \<Rightarrow> [] | Some fl \<Rightarrow> fl)
                              @ [flt, flt']))
                       (eraseStage st) # map eraseStage rest))"
  proof (intro exI conjI)
    show "addFilterObj nsd b (nestedPath f) flt = Inr ?b'" by (rule af)
    show "source_obj ?b' = source_obj b" by (rule sb')
    show "pipeline_obj ?b' =
            set_fields_obj ((fields_obj stage0)[f := DefinitionObj ?copy]) stage0
            # map (storeStage (stage_id ?stc) ?v2) more1" by (rule pb')
    show "eraseDef ?copy =
             TurtleDef n a
               (set_filterList
                  (Some ((case filterList_obj st of None \<Rightarrow> [] | Some fl \<Rightarrow> fl) @ [flt]))
                  (eraseStage st) # map eraseStage rest)" by (rule er)
    show "\<forall>i\<in>idsDef ?copy.
                i \<notin> idsStruct (source_obj ?b')
              \<and> source_obj (writeStage i v ?b') = source_obj ?b'
              \<and> source_obj (writeTurtle i w ?b') = source_obj ?b'" by (rule frame)
    show "addFilterObj nsd ?b' (nestedPath f) flt' = Inr ?b''" by (rule af2)
    show "source_obj ?b'' = source_obj b" by (rule sb'')
    show "pipeline_obj ?b'' =
               set_fields_obj ((fields_obj stage0)[f := DefinitionObj ?copy']) stage0
               # map (storeStage (stage_id ?v2) ?v3) (map (storeStage (stage_id ?stc) ?v2) more1)"
      by (rule pb'')
    show "eraseDef ?copy' =
             TurtleDef n a
               (set_filterList
                  (Some ((case filterList_obj st of None \<Rightarrow> [] | Some fl \<Rightarrow> fl) @ [flt, flt']))
                  (eraseStage st) # map eraseStage rest)" by (rule er2)
  qed
  from promoted first show ?thesis by (rule conjI)
qed

text \<open>
  The stage \<open>[a, q]\<close> with the schema's query \<open>q\<close>: a filter through field 1 promotes
  \<open>q\<close> to the new objects 3 and 4 and lands in object 4; a second filter lands there
  too; the schema's \<open>q\<close>, objects 1 and 2, has no filter.
\<close>

theorem addFilter_promotes_independent_copy_witness:
  "allocated (BuilderObj nestSourceObj ''new_query'' [refStageObj] 3)
   \<and> stage_id refStageObj \<notin> idsStruct nestSourceObj
   \<and> 1 < length (fields_obj refStageObj) \<and> fields_obj refStageObj ! 1 = FieldRefObj ''q''
   \<and> fieldDefForQueryFieldDef exNsd (eraseStruct nestSourceObj) (FieldRef ''q'')
        (eraseStruct nestSourceObj) = Inr (TurtleDef ''q'' None [eraseStage qStageObj])
   \<and> find (\<lambda>d. fieldDefName (eraseDef d) = ''q'') (sd_fields_obj nestSourceObj)
        = Some (TurtleDefObj 1 ''q'' None [qStageObj])
   \<and> addFilterObj exNsd (BuilderObj nestSourceObj ''new_query'' [refStageObj] 3) (nestedPath 1) f0
       = Inr (BuilderObj nestSourceObj ''new_query''
                [StageObj 0 Reduce
                   [FieldRefObj ''a'',
                    DefinitionObj (TurtleDefObj 3 ''q'' None
                      [StageObj 4 Reduce [FieldRefObj ''a''] (Some [f0]) (Some 10) None None])]
                   None None None None] 5)
   \<and> addFilterObj exNsd
        (BuilderObj nestSourceObj ''new_query''
                [StageObj 0 Reduce
                   [FieldRefObj ''a'',
                    DefinitionObj (TurtleDefObj 3 ''q'' None
                      [StageObj 4 Reduce [FieldRefObj ''a''] (Some [f0]) (Some 10) None None])]
                   None None None None] 5) (nestedPath 1) f1
       = Inr (BuilderObj nestSourceObj ''new_query''
                [StageObj 0 Reduce
                   [FieldRefObj ''a'',
                    DefinitionObj (TurtleDefObj 3 ''q'' None
                      [StageObj 4 Reduce [FieldRefObj ''a''] (Some [f0, f1]) (Some 10) None None])]
                   None None None None] 5)"
proof -
  let ?b = "BuilderObj nestSourceObj ''new_query'' [refStageObj] 3"
  let ?b1 = "BuilderObj nestSourceObj ''new_query''
                [StageObj 0 Reduce
                   [FieldRefObj ''a'',
                    DefinitionObj (TurtleDefObj 3 ''q'' None
                      [StageObj 4 Reduce [FieldRefObj ''a''] (Some [f0]) (Some 10) None None])]
                   None None None None] 5"
  let ?b2 = "BuilderObj nestSourceObj ''new_query''
                [StageObj 0 Reduce
                   [FieldRefObj ''a'',
                    DefinitionObj (TurtleDefObj 3 ''q'' None
                      [StageObj 4 Reduce [FieldRefObj ''a''] (Some [f0, f1]) (Some 10) None None])]
                   None None None None] 5"
  have h1: "allocated ?b"
    by (simp add: allocated_def nestSourceObj_def qStageObj_def refStageObj_def)
  have h2: "pipeline_obj ?b = refStageObj # []" by simp
  have h3: "stage_id refStageObj \<notin> idsStruct (source_obj ?b)"
    by (simp add: nestSourceObj_def qStageObj_def refStageObj_def)
  have h4: "1 < length (fields_obj refStageObj)" by (simp add: refStageObj_def)
  have h5: "fields_obj refStageObj ! 1 = FieldRefObj ''q''" by (simp add: refStageObj_def)
  have h6: "fieldDefForQueryFieldDef exNsd (eraseStruct (source_obj ?b)) (FieldRef ''q'')
              (eraseStruct (source_obj ?b)) = Inr (TurtleDef ''q'' None [eraseStage qStageObj])"
    by (simp add: getField_def nestSourceObj_def orElse_def)
  have h7: "find (\<lambda>d. fieldDefName (eraseDef d) = ''q'') (sd_fields_obj (source_obj ?b))
              = Some (TurtleDefObj 1 ''q'' None (qStageObj # []))"
    by (simp add: nestSourceObj_def orElse_def)
  from addFilter_promotes_independent_copy
         [where flt = f0 and flt' = f1 and v = qStageObj and w = "TurtleDefObj 1 ''q'' None []",
          OF h1 h2 h3 h4 h5 h6 h7]
  obtain b' where b': "addFilterObj exNsd ?b (nestedPath 1) f0 = Inr b'"
    and s': "source_obj b' = source_obj ?b"
    by blast
  have e1: "addFilterObj exNsd ?b (nestedPath 1) f0 = Inr ?b1"
    by (simp add: addFilterObj_def autoExpandStageAtPathObj_def replaceWithDefinitionObj_def
        jsonCopyObj_def writeStage_def nestedPath_def getField_def nestSourceObj_def
        qStageObj_def refStageObj_def orElse_def)
  have e2: "addFilterObj exNsd ?b1 (nestedPath 1) f1 = Inr ?b2"
    by (simp add: addFilterObj_def autoExpandStageAtPathObj_def writeStage_def nestedPath_def
        nestSourceObj_def qStageObj_def)
  from b' e1 s' have "source_obj ?b1 = nestSourceObj" by simp
  with h1 h3 h4 h5 h6 h7 e1 e2 show ?thesis by simp
qed

text \<open>
  \<open>setQuery\<close> with the schema's own query: the root pipeline then holds the schema's stage
  object, and a filter added to the root stage is a filter added to the schema's query.
\<close>

lemma addFilterObj_shared_stage_changes_schema:
  "addFilterObj exNsd
     (setQueryObj (BuilderObj nestSourceObj ''new_query'' [refStageObj] 3) ''q'' None [qStageObj])
     rootPath f0
   = Inr (BuilderObj
            (StructDefObj ''flights'' None
               [FieldTypeDefObj TString ''a'' None None None,
                TurtleDefObj 1 ''q'' None
                  [StageObj 2 Reduce [FieldRefObj ''a''] (Some [f0]) (Some 10) None None]])
            ''q'' [StageObj 2 Reduce [FieldRefObj ''a''] (Some [f0]) (Some 10) None None] 3)
   \<and> StructDefObj ''flights'' None
               [FieldTypeDefObj TString ''a'' None None None,
                TurtleDefObj 1 ''q'' None
                  [StageObj 2 Reduce [FieldRefObj ''a''] (Some [f0]) (Some 10) None None]]
       \<noteq> nestSourceObj"
  by (simp add: addFilterObj_def autoExpandStageAtPathObj_def writeStage_def setQueryObj_def
      rootPath_def nestSourceObj_def qStageObj_def orElse_def)

text \<open>
  A bare name that resolves to a nested query but is not, as a whole, the display name of
  a field of the root schema is not promoted.
\<close>

lemma addFilterObj_not_top_level:
  assumes "pipeline_obj b = stage0 # more" and "f < length (fields_obj stage0)"
    and "fields_obj stage0 ! f = FieldRefObj fname"
    and "fieldDefForQueryFieldDef nsd (eraseStruct (source_obj b)) (FieldRef fname)
           (eraseStruct (source_obj b)) = Inr (TurtleDef n' a' pl')"
    and "find (\<lambda>d. fieldDefName (eraseDef d) = fname) (sd_fields_obj (source_obj b)) = None"
  shows "addFilterObj nsd b (nestedPath f) flt = Inl (Error ''Field is not defined..'')"
  using assms
  by (simp add: addFilterObj_def autoExpandStageAtPathObj_def replaceWithDefinitionObj_def
      nestedPath_def)

text \<open>
  C4 as stated fails for a bare reference that reaches the nested query through a
  structure: \<open>s.q\<close> resolves to a nested query, but \<open>replaceWithDefinition\<close> looks the whole
  name up among the root schema's own fields and throws; the field stays a bare name.
\<close>

theorem addFilter_dotted_reference_counterexample:
  "fieldDefForQueryFieldDef exNsd nestSource (FieldRef ''s.q'') nestSource
     = Inr (TurtleDef ''q'' None [qStage])
   \<and> fields dottedRefStage ! 1 = FieldRef ''s.q''
   \<and> addFilter exNsd (QueryBuilder nestSource ''new_query'' [dottedRefStage]) (nestedPath 1) f0
       = Inl (Error ''Field is not defined..'')
   \<and> after exNsd (AddFilter (nestedPath 1) f0) (QueryBuilder nestSource ''new_query'' [dottedRefStage])
       = Some (QueryBuilder nestSource ''new_query'' [dottedRefStage])"
proof -
  have fd: "fieldDefForQueryFieldDef exNsd nestSource (FieldRef ''s.q'') nestSource
     = Inr (TurtleDef ''q'' None [qStage])"
    by (simp add: getField_def nestSource_def orElse_def)
  have rw: "replaceWithDefinition (QueryBuilder nestSource ''new_query'' [dottedRefStage])
              (Hop 0 None None) 1 = Inl (Error ''Field is not defined..'')"
    by (simp add: replaceWithDefinition_def onStage_def replaceWithDefinitionStage_def
        dottedRefStage_def nestSource_def orElse_def)
  have na: "stageAtPath [dottedRefStage] (nestedPath 1) = Inl (NotAStageError (FieldRef ''s.q''))"
    by (simp add: nestedPath_def dottedRefStage_def)
  have ae: "autoExpandStageAtPath exNsd (QueryBuilder nestSource ''new_query'' [dottedRefStage])
          (nestedPath 1) = Inl (Error ''Field is not defined..'')"
    using fd rw na by (simp add: autoExpandStageAtPath_def nestedPath_def)
  have th: "autoExpandThrown exNsd (QueryBuilder nestSource ''new_query'' [dottedRefStage])
          (nestedPath 1) = QueryBuilder nestSource ''new_query'' [dottedRefStage]"
    using fd rw na by (simp add: autoExpandThrown_def nestedPath_def)
  have af: "addFilter exNsd (QueryBuilder nestSource ''new_query'' [dottedRefStage]) (nestedPath 1) f0
       = Inl (Error ''Field is not defined..'')"
    using ae by (simp add: addFilter_def onExpandedStage_def)
  have "after exNsd (AddFilter (nestedPath 1) f0) (QueryBuilder nestSource ''new_query'' [dottedRefStage])
       = Some (QueryBuilder nestSource ''new_query'' [dottedRefStage])"
    using af ae th by (simp add: after_def expandedThrown_def)
  with fd af show ?thesis by (simp add: dottedRefStage_def)
qed

text \<open>
  The handler of \<open>autoExpandStageAtPath\<close> addresses the field to promote by the path that
  remains after the outermost hop. For a reference inside an inline nested query (two
  hops) that is a stage of the root pipeline's field 0, here the bare name \<open>a\<close>, and the
  call fails without promoting \<open>q\<close>.
\<close>

lemma addFilter_two_hops_not_promoted:
  "addFilter exNsd (QueryBuilder nestSource ''new_query'' [innerRefStage])
     (Hop 0 (Some 1) (Some (Hop 0 (Some 0) (Some (Hop 0 None None))))) f0
   = Inl (Error ''Path does not refer to a stage correctly'')"
  by (simp add: addFilter_def onExpandedStage_def autoExpandStageAtPath_def innerRefStage_def)


subsection \<open>The invariant along paths\<close>

lemma pipelinesOfStage_fields:
  "pipelinesOfStage st \<longleftrightarrow> (\<forall>f\<in>set (fields st). pipelinesOfField f)"
  by (cases st) simp

lemma pipelinesOfStage_set [simp]:
  "pipelinesOfStage (set_filterList fl st) = pipelinesOfStage st"
  "pipelinesOfStage (set_limit l st) = pipelinesOfStage st"
  "pipelinesOfStage (set_orderBy ob st) = pipelinesOfStage st"
  "pipelinesOfStage (set_by x st) = pipelinesOfStage st"
  by (simp_all add: pipelinesOfStage_fields)


lemma length_updateStageAtPath [simp]:
  "length (updateStageAtPath g p path) = length p"
  by (induction g p path rule: updateStageAtPath.induct)
    (auto split: query_field_def.splits field_def.splits option.splits)





subsection \<open>The invariant under the changes of one stage\<close>



lemma in_set_updD: "x \<in> set (xs[i := v]) \<Longrightarrow> x = v \<or> x \<in> set xs"
  using set_update_subset_insert [of xs i v] by auto

lemma ball_update: "\<forall>x\<in>set xs. P x \<Longrightarrow> P v \<Longrightarrow> \<forall>x\<in>set (xs[i := v]). P x"
  by (auto dest: in_set_updD)



lemma stage_update_field:
  "pipelinesOfStage st \<Longrightarrow> pipelinesOfField v
     \<Longrightarrow> pipelinesOfStage (set_fields ((fields st)[k := v]) st)"
  using ball_update [of "fields st" pipelinesOfField v k]
  by (simp add: pipelinesOfStage_fields)

lemma stage_update_fan [simp]:
  "pipelinesOfStage st
     \<Longrightarrow> pipelinesOfStage (set_fields ((fields st)[k := FilteredAliasedName n a fl]) st)"
  by (rule stage_update_field) simp_all










lemma pipelinesOfDef_set_as [simp]: "pipelinesOfDef (set_as as d) = pipelinesOfDef d"
  by (induction as d rule: set_as.induct) simp_all





lemma orderByOrEmptyStage_invariant [simp]:
  "pipelinesOfStage (orderByOrEmptyStage st) = pipelinesOfStage st"
  by (simp add: orderByOrEmptyStage_def)

lemma removeStageFrom_nonempty: "removeStageFrom k p \<noteq> []"
  by (simp add: removeStageFrom_def Let_def)






subsection \<open>The invariant under promotion, insertion and loading\<close>







lemma onStage_source: "onStage f b path = Inr b' \<Longrightarrow> source b' = source b"
  by (auto simp: onStage_def split: sum.splits)









subsection \<open>The invariant under loading, stages and the remaining calls\<close>




lemma pipelinesNonEmpty_append:
  "\<forall>stage\<in>set p. pipelinesOfStage stage \<Longrightarrow> pipelinesOfStage m \<Longrightarrow> pipelinesNonEmpty (p @ [m])"
  by (auto simp: pipelinesNonEmpty_def)












subsection \<open>Every call keeps the invariant\<close>









subsection \<open>Which calls write past the end of an array\<close>






















lemma assignAt_hole_iff: "assignAt i v xs = Inl SparseArray \<longleftrightarrow> length xs < i"
  by (auto simp: assignAt_def)

lemma assignAt_Inl: "assignAt i v xs = Inl e \<Longrightarrow> e = SparseArray"
  by (auto simp: assignAt_def split: if_splits)

lemma assignAt_Inr: "assignAt i v xs = Inr ys \<Longrightarrow> i \<le> length xs"
  by (auto simp: assignAt_def split: if_splits)








subsection \<open>No pipeline is ever empty\<close>

text \<open>
  \<open>stagePathParent\<close> and \<open>stageAtPath\<close> agree: the stage a path addresses is the stage
  at the index \<open>stagePathParent\<close> gives, in the pipeline of the nested query it gives.
\<close>

lemma stagePathParent_addresses:
  "stagePathParent path = (Some pp, Some fi, k) \<Longrightarrow> stageAtPath p pp = Inr parent
     \<Longrightarrow> fi < length (fields parent) \<Longrightarrow> fields parent ! fi = Definition (TurtleDef n a pl)
     \<Longrightarrow> k < length pl \<Longrightarrow> stageAtPath p path = Inr (pl ! k)"
proof (induction path arbitrary: p pp rule: stagePathParent.induct)
  case (1 stageIndex rest)
  then show ?case by simp
next
  case (2 stageIndex fieldIndex)
  then show ?case by simp
next
  case (3 stageIndex fieldIndex rest)
  show ?case
  proof (cases "stagePathParent rest")
    case (fields po fo k')
    show ?thesis
    proof (cases po)
      case None
      with fields "3.prems"(1) have pp: "pp = Hop stageIndex None None"
        and fi: "fi = fieldIndex" and k: "k' = k" by auto
      from None fields obtain r where rest: "rest = Hop k None r"
        using k by (cases rest rule: stagePathParent.cases) (auto split: prod.splits option.splits)
      from "3.prems"(2) pp have s: "stageIndex < length p" and par: "parent = p ! stageIndex"
        by (auto split: if_splits)
      with "3.prems"(3,4,5) fi rest show ?thesis by simp
    next
      case (Some p')
      with fields "3.prems"(1) have pp: "pp = Hop stageIndex (Some fieldIndex) (Some p')"
        and fo: "fo = Some fi" and k: "k' = k" by auto
      from "3.prems"(2) pp obtain n' a' pl' where
        s: "stageIndex < length p" "fieldIndex < length (fields (p ! stageIndex))"
        and t: "fields (p ! stageIndex) ! fieldIndex = Definition (TurtleDef n' a' pl')"
        and st: "stageAtPath pl' p' = Inr parent"
        by (auto split: if_splits query_field_def.splits field_def.splits option.splits)
      have "stagePathParent rest = (Some p', Some fi, k)"
        using fields Some fo k by simp
      from "3.IH" [OF this st "3.prems"(3,4,5)]
      have "stageAtPath pl' rest = Inr (pl ! k)" .
      with s t show ?thesis by simp
    qed
  qed
qed







end
